theory Spec2Isabelle
  imports
    Main
    "HOL-Library.Char_ord"
    "HOL-Library.List_Lexorder"
    "HOL-Library.Product_Lexorder"
    "HOL-Library.Multiset"
begin

section \<open>Strings and errors\<close>

text \<open>
  Go strings are byte sequences; they are modelled as \<open>string\<close> (a list of 8-bit
  characters).  With \<open>Char_ord\<close> and \<open>List_Lexorder\<close> the order \<open><\<close> on
  \<open>string\<close> is the byte-wise lexicographic order, which is Go's \<open><\<close> on strings and
  the order of \<open>sort.Strings\<close>.  A Go \<open>error\<close> is modelled by its \<open>Error()\<close> text;
  wrapping with \<open>%w\<close> is concatenation of texts.  A Go \<open>int\<close> is modelled as \<open>int\<close>:
  the code compares, prints and parses these numbers and never does arithmetic on them.
\<close>

type_synonym error = string

definition HasPrefix :: "string \<Rightarrow> string \<Rightarrow> bool" where
  "HasPrefix s p = (take (length p) s = p)"

definition HasSuffix :: "string \<Rightarrow> string \<Rightarrow> bool" where
  "HasSuffix s suf = (length suf \<le> length s \<and> drop (length s - length suf) s = suf)"

definition TrimSuffix :: "string \<Rightarrow> string \<Rightarrow> string" where
  "TrimSuffix s suf = (if HasSuffix s suf then take (length s - length suf) s else s)"

text \<open>\<open>strings.Trim(s, cutset)\<close>: all leading and trailing bytes of the cutset removed.\<close>

definition Trim :: "string \<Rightarrow> string \<Rightarrow> string" where
  "Trim s cutset =
     rev (dropWhile (\<lambda>c. c \<in> set cutset) (rev (dropWhile (\<lambda>c. c \<in> set cutset) s)))"

text \<open>\<open>strings.Join(elems, sep)\<close>.\<close>

fun Join :: "string list \<Rightarrow> string \<Rightarrow> string" where
  "Join [] sep = []"
| "Join [x] sep = x"
| "Join (x # y # ys) sep = x @ sep @ Join (y # ys) sep"

text \<open>
  \<open>strings.Split(s, sep)\<close> for a separator of one byte (the code splits on \<open>"/"\<close> and
  \<open>"_"\<close>): the pieces between the occurrences of the separator, one more piece than
  there are separators.
\<close>

function Split :: "string \<Rightarrow> char \<Rightarrow> string list" where
  "Split s sep =
     (case dropWhile (\<lambda>c. c \<noteq> sep) s of
        [] \<Rightarrow> [s]
      | _ # rest \<Rightarrow> takeWhile (\<lambda>c. c \<noteq> sep) s # Split rest sep)"
  by pat_completeness auto
termination
proof (relation "measure (\<lambda>(s, sep). length s)")
  show "wf (measure (\<lambda>(s, sep). length s))" by simp
next
  fix s :: string and sep x21 x22
  assume "dropWhile (\<lambda>c. c \<noteq> sep) s = x21 # x22"
  then have "length x22 < length (dropWhile (\<lambda>c. c \<noteq> sep) s)" by simp
  also have "\<dots> \<le> length s" by (rule length_dropWhile_le)
  finally show "((x22, sep), (s, sep)) \<in> measure (\<lambda>(s, sep). length s)" by simp
qed

declare Split.simps [simp del]

text \<open>
  \<open>strings.Fields(s)\<close>: the maximal runs of non-space bytes.  The space bytes are
  the ASCII ones of Go's \<open>asciiSpace\<close> table; the multi-byte space runes Go also
  recognises in non-ASCII input are outside this model.
\<close>

definition isSpace :: "char \<Rightarrow> bool" where
  "isSpace c = (c = CHR '' '' \<or> c = CHR 0x09 \<or> c = CHR 0x0A \<or> c = CHR 0x0B
                \<or> c = CHR 0x0C \<or> c = CHR 0x0D)"

function Fields :: "string \<Rightarrow> string list" where
  "Fields s =
     (case dropWhile isSpace s of
        [] \<Rightarrow> []
      | c # cs \<Rightarrow> takeWhile (\<lambda>x. \<not> isSpace x) (c # cs)
                 # Fields (dropWhile (\<lambda>x. \<not> isSpace x) cs))"
  by pat_completeness auto
termination
proof (relation "measure length")
  show "wf (measure length)" by simp
next
  fix s :: string and c cs
  assume a: "dropWhile isSpace s = c # cs"
  have "length (dropWhile (\<lambda>x. \<not> isSpace x) cs) \<le> length cs" by (rule length_dropWhile_le)
  also have "\<dots> < length (dropWhile isSpace s)" using a by simp
  also have "\<dots> \<le> length s" by (rule length_dropWhile_le)
  finally show "(dropWhile (\<lambda>x. \<not> isSpace x) cs, s) \<in> measure length" by simp
qed

declare Fields.simps [simp del]


text \<open>
  \<open>strconv.Atoi\<close>: an optional sign and decimal digits.  The result is the value
  and whether the error is nil: a syntax error comes with the value 0, a range error
  with the nearest bound of a 64-bit \<open>int\<close>.
\<close>

definition isDigit :: "char \<Rightarrow> bool" where
  "isDigit c = (CHR ''0'' \<le> c \<and> c \<le> CHR ''9'')"

definition digits_val :: "string \<Rightarrow> int" where
  "digits_val ds = foldl (\<lambda>n ch. n * 10 + (int (of_char ch) - 48)) 0 ds"

definition Atoi :: "string \<Rightarrow> int \<times> bool" where
  "Atoi s =
     (let ds = (case s of [] \<Rightarrow> []
                | c # r \<Rightarrow> if c = CHR ''-'' \<or> c = CHR ''+'' then r else s)
      in if ds = [] \<or> \<not> list_all isDigit ds then (0, False)
         else let n = digits_val ds;
                  v = (if hd s = CHR ''-'' then - n else n)
              in if v < - (2 ^ 63) then (- (2 ^ 63), False)
                 else if 2 ^ 63 \<le> v then (2 ^ 63 - 1, False)
                 else (v, True))"

text \<open>The verb \<open>%d\<close> of \<open>fmt\<close> on an \<open>int\<close>.\<close>

definition digit_char :: "nat \<Rightarrow> char" where
  "digit_char n = char_of (48 + n)"

function show_nat :: "nat \<Rightarrow> string" where
  "show_nat n = (if n < 10 then [digit_char n] else show_nat (n div 10) @ [digit_char (n mod 10)])"
  by pat_completeness auto
termination
  by (relation "measure id") auto

declare show_nat.simps [simp del]

definition show_int :: "int \<Rightarrow> string" where
  "show_int i = (if i < 0 then CHR ''-'' # show_nat (nat (- i)) else show_nat (nat i))"

section \<open>Common operations of the strategies (package base)\<close>

text \<open>\<open>CommonOperations.AddTrailingDot\<close> and \<open>NormalizeDomain\<close>.\<close>

definition AddTrailingDot :: "string \<Rightarrow> string" where
  "AddTrailingDot domain = (if \<not> HasSuffix domain ''.'' then domain @ ''.'' else domain)"

definition NormalizeDomain :: "string \<Rightarrow> string" where
  "NormalizeDomain domain = TrimSuffix domain ''.''"

text \<open>\<open>CommonOperations.HandleAPIError\<close>, called only with a non-nil error.\<close>

definition HandleAPIError :: "error \<Rightarrow> string \<Rightarrow> error" where
  "HandleAPIError err operation = ''API error during '' @ operation @ '' operation: '' @ err"

text \<open>
  \<open>CommonOperations.ParseResourceID\<close>: \<open>Inl\<close> is the returned error, \<open>Inr\<close> the
  pair \<open>(zone, name)\<close>.
\<close>

definition ParseResourceID :: "string \<Rightarrow> error + (string \<times> string)" where
  "ParseResourceID rid =
     (let parts = Split rid CHR ''/''
      in if length parts \<noteq> 2 then Inl (''invalid resource ID format: '' @ rid)
         else Inr (parts ! 0, parts ! 1))"

subsection \<open>The provider's JSON documents\<close>

text \<open>
  The structs the responses are decoded into.  \<open>json.Unmarshal\<close> itself belongs to
  the Go library; every function that decodes takes the decoder for its target struct as
  a parameter, \<open>Inl\<close> being the decoder's error.
\<close>

record DNSRecord =
  rr_Subname :: string
  rr_Rectype :: string
  rr_Content :: string
  rr_Prio :: int
  rr_State :: string
  rr_Weight :: int
  rr_Port :: int
  rr_Flag :: int
  rr_Tag :: string

record ZoneDomain =
  zd_Dname :: string
  zd_Rrs :: "DNSRecord list"

record DNSZoneResponse =
  zr_Result :: string
  zr_Domains :: "ZoneDomain list"

text \<open>
  \<open>APIErrorResponse\<close> of package base; its \<open>ErrorParams\<close> are never read and are
  left out.
\<close>

record ErrorDomain =
  ed_Dname :: string
  ed_Result :: string
  ed_ErrorCode :: string
  ed_ErrorText :: string

record APIErrorResponse =
  aer_Domains :: "ErrorDomain list"
  aer_Result :: string

definition domain_errorMsg :: "ErrorDomain \<Rightarrow> string" where
  "domain_errorMsg domain =
     ''Domain '' @ ed_Dname domain @ '': '' @ ed_ErrorText domain
       @ (if ed_ErrorCode domain \<noteq> [] then '' (Error Code: '' @ ed_ErrorCode domain @ '')''
          else [])"

text \<open>\<open>CheckAPIResponseForErrors\<close>: \<open>None\<close> is the nil error.\<close>

definition CheckAPIResponseForErrors ::
  "(string \<Rightarrow> error + APIErrorResponse) \<Rightarrow> string \<Rightarrow> error option" where
  "CheckAPIResponseForErrors unmarshal response =
     (case unmarshal response of
        Inl err \<Rightarrow> None
      | Inr apiResponse \<Rightarrow>
          let failed = filter (\<lambda>domain. ed_Result domain = ''error'') (aer_Domains apiResponse);
              errorMessages =
                (if aer_Result apiResponse = ''error'' then map domain_errorMsg failed else [])
          in if errorMessages \<noteq> []
             then Some (''API operation failed: '' @ Join errorMessages ''; '')
             else (case failed of
                     [] \<Rightarrow> None
                   | domain # _ \<Rightarrow> Some (''API operation failed: '' @ domain_errorMsg domain)))"


section \<open>The zone cache (package provider)\<close>

text \<open>
  Times and durations are counted in nanoseconds.  \<open>ZoneCache\<close> is the map of the
  struct; the reader/writer locks are not modelled, each method is one atomic step.
  The parameter \<open>now\<close> of \<open>Get\<close> and \<open>Set\<close> is the reading of the clock taken by
  \<open>time.Since\<close> and \<open>time.Now\<close>.
\<close>

record ZoneCacheEntry =
  Data :: string
  Timestamp :: int
  TTL :: int

type_synonym ZoneCache = "string \<Rightarrow> ZoneCacheEntry option"

definition Second :: int where
  "Second = 1000000000"

text \<open>\<open>Time.Sub\<close>: the difference, saturating at the range of \<open>time.Duration\<close>.\<close>

definition Sub :: "int \<Rightarrow> int \<Rightarrow> int" where
  "Sub t u = (let d = t - u
              in if d > 2 ^ 63 - 1 then 2 ^ 63 - 1 else if d < - (2 ^ 63) then - (2 ^ 63) else d)"

definition NewZoneCache :: ZoneCache where
  "NewZoneCache = Map.empty"

definition ZoneCache_Get :: "int \<Rightarrow> ZoneCache \<Rightarrow> string \<Rightarrow> (string \<times> bool) \<times> ZoneCache" where
  "ZoneCache_Get now zc zone =
     (case zc zone of
        None \<Rightarrow> (([], False), zc)
      | Some entry \<Rightarrow>
          if Sub now (Timestamp entry) > TTL entry then (([], False), zc(zone := None))
          else ((Data entry, True), zc))"

definition ZoneCache_Set :: "int \<Rightarrow> ZoneCache \<Rightarrow> string \<Rightarrow> string \<Rightarrow> ZoneCache" where
  "ZoneCache_Set now zc zone data =
     zc(zone \<mapsto> \<lparr>Data = data, Timestamp = now, TTL = 30 * Second\<rparr>)"

definition ZoneCache_Invalidate :: "ZoneCache \<Rightarrow> string \<Rightarrow> ZoneCache" where
  "ZoneCache_Invalidate zc zone = zc(zone := None)"

definition ZoneCache_Clear :: "ZoneCache \<Rightarrow> ZoneCache" where
  "ZoneCache_Clear zc = Map.empty"

section \<open>The API client (package client) and the cached client\<close>

text \<open>
  A \<open>call\<close> is one method call of \<open>CachedClientInterface\<close> that reaches the
  provider, with its arguments in the order of the method's signature (a nil pointer is
  \<open>None\<close>).  The form encoding of a call is not modelled: the transport is a
  parameter that answers a call.
\<close>

datatype call =
    AddRecord string string string string "int option"
  | RemoveRecord string string string string "int option"
  | GetRecords string
  | AddSRVRecord string string string "int option" "int option" "int option"
  | RemoveSRVRecord string string string "int option" "int option" "int option"
  | AddCAARecord string string string "int option" "string option"
  | RemoveCAARecord string string string "int option" "string option"

text \<open>What \<open>http.PostForm\<close> followed by \<open>io.ReadAll\<close> gives.\<close>

datatype http_result = PostFailed error | ReadFailed error | Body string

text \<open>\<open>APIError\<close> of package client; the entries of \<open>APIResponse.Answer.Domains\<close>
  have the same four fields.\<close>

record APIError =
  ae_ErrorCode :: string
  ae_ErrorText :: string
  ae_ErrorParams :: "(string \<times> string) list"
  ae_Result :: string

record APIResponse =
  ar_Domains :: "APIError list"
  ar_Result :: string

text \<open>
  \<open>CAARecord\<close> of package strategies and its \<open>String()\<close>, the key the CAA
  strategy sorts and compares by.  They stand here because the environment below
  mentions them.  The key does not tell all records apart: the tag \<open>a_b\<close> with the
  value \<open>c\<close> and the tag \<open>a\<close> with the value \<open>b_c\<close> have one key.
\<close>

record CAARecord =
  caa_Flag :: int
  caa_Tag :: string
  caa_Value :: string

definition CAA_String :: "CAARecord \<Rightarrow> string" where
  "CAA_String caa = show_int (caa_Flag caa) @ ''_'' @ caa_Tag caa @ ''_'' @ caa_Value caa"

text \<open>The \<open>less\<close> function the CAA strategy hands to \<open>sort.Slice\<close>.\<close>

definition CAA_less :: "CAARecord \<Rightarrow> CAARecord \<Rightarrow> bool" where
  "CAA_less a b = (CAA_String a < CAA_String b)"

text \<open>
  What \<open>sort.Slice\<close> promises of its result \<open>ys\<close> on the slice \<open>xs\<close>: the same
  elements, none of them less than an element before it.  The library does not promise
  a stable sort, so the order among elements that compare equal is left open.
\<close>

definition sorted_by :: "('a \<Rightarrow> 'a \<Rightarrow> bool) \<Rightarrow> 'a list \<Rightarrow> 'a list \<Rightarrow> bool" where
  "sorted_by lt xs ys = (mset ys = mset xs \<and> sorted_wrt (\<lambda>a b. \<not> lt b a) ys)"

text \<open>
  The environment of a run: the provider behind the transport and the clock, both acting
  on a world state \<open>'w\<close> of any type, and the library functions that are used but not
  part of the repository: the JSON decoders, \<open>%v\<close> on a map, \<open>fmt.Errorf\<close>
  applied to a computed format string, and \<open>sort.Slice\<close> on a slice of CAA records.

  \<open>sort.Slice\<close> is a parameter only where its promise does not fix its result.  On
  SRV records the key is injective (\<open>SRV_String_inj\<close>), and a list sorted by an
  injective key is unique (\<open>sorted_by_SRV_String\<close>), so there the sort is written
  with \<open>sort_key\<close>; likewise \<open>sort.Strings\<close> is \<open>sort\<close>.  On CAA records the
  key is not injective, and the statements about the CAA strategy assume of the
  parameter no more than \<open>sorted_by\<close> at the lists it is applied to.
\<close>

record 'w env =
  http_PostForm :: "'w \<Rightarrow> call \<Rightarrow> http_result \<times> 'w"
  time_Now :: "'w \<Rightarrow> int \<times> 'w"
  unmarshal_APIError :: "string \<Rightarrow> error + APIError"
  unmarshal_APIResponse :: "string \<Rightarrow> error + APIResponse"
  unmarshal_APIErrorResponse :: "string \<Rightarrow> error + APIErrorResponse"
  unmarshal_DNSZoneResponse :: "string \<Rightarrow> error + DNSZoneResponse"
  fmt_map :: "(string \<times> string) list \<Rightarrow> string"
  fmt_Errorf :: "string \<Rightarrow> error"
  sort_Slice :: "(CAARecord \<Rightarrow> CAARecord \<Rightarrow> bool) \<Rightarrow> CAARecord list \<Rightarrow> CAARecord list"

text \<open>
  The state of the cached client: the world, the global zone cache and the history of
  what the client did, kept for the statements about call sequences.
\<close>

datatype event = Called call "error + string" | Invalidated string | Cleared

record 'w client =
  world :: 'w
  globalZoneCache :: ZoneCache
  events :: "event list"

definition formatHumanReadableError ::
  "'w env \<Rightarrow> string \<Rightarrow> string \<Rightarrow> (string \<times> string) list \<Rightarrow> error" where
  "formatHumanReadableError env errorCode errorText errorParams =
     (if errorCode = ''ACCESS_DENIED_FROM_IP'' then
        ''Access denied: Your IP address is not authorized to access the Reg.ru API. Please contact Reg.ru support to whitelist your IP address or check your account settings.''
      else if errorCode = ''IP_EXCEEDED_ALLOWED_CONNECTION_RATE'' then
        ''Rate limit exceeded: Your IP address has exceeded the allowed connection rate to the Reg.ru API. Please wait a few minutes before making additional requests or contact Reg.ru support if this persists.''
      else if errorCode = ''INVALID_USERNAME_OR_PASSWORD'' then
        ''Authentication failed: Invalid username or password. Please check your Reg.ru API credentials.''
      else if errorCode = ''DOMAIN_NOT_FOUND'' then
        ''Domain not found: The specified domain does not exist in your account or you don'' @ [CHR 0x27] @ ''t have access to it.''
      else if errorCode = ''RECORD_NOT_FOUND'' then
        ''DNS record not found: The specified DNS record does not exist.''
      else if errorCode = ''INVALID_RECORD_TYPE'' then
        ''Invalid record type: The specified DNS record type is not supported or invalid.''
      else if errorCode = ''DUPLICATE_RECORD'' then
        ''Duplicate record: A DNS record with the same name and type already exists.''
      else if errorCode = ''INVALID_IP_ADDRESS'' then
        ''Invalid IP address: The provided IP address format is incorrect.''
      else if errorCode = ''RATE_LIMIT_EXCEEDED'' then
        ''Rate limit exceeded: Too many API requests. Please wait before making additional requests.''
      else
        fmt_Errorf env
          (''API Error: '' @ errorText @ '' (Code: '' @ errorCode @ '')''
             @ (if errorParams \<noteq> [] then '' - Additional info: '' @ fmt_map env errorParams
                else [])))"

text \<open>The two checks \<open>doRequest\<close> makes on a body it has read.\<close>

definition direct_error :: "'w env \<Rightarrow> string \<Rightarrow> error option" where
  "direct_error env body =
     (case unmarshal_APIError env body of
        Inl _ \<Rightarrow> None
      | Inr directError \<Rightarrow>
          if ae_Result directError = ''error''
          then Some (formatHumanReadableError env (ae_ErrorCode directError)
                       (ae_ErrorText directError) (ae_ErrorParams directError))
          else None)"

definition response_error :: "'w env \<Rightarrow> string \<Rightarrow> error option" where
  "response_error env body =
     (case unmarshal_APIResponse env body of
        Inl _ \<Rightarrow> None
      | Inr apiResp \<Rightarrow>
          if ar_Result apiResp = ''error'' then
            (case ar_Domains apiResp of
               domain # _ \<Rightarrow>
                 if ae_ErrorCode domain \<noteq> []
                 then Some (formatHumanReadableError env (ae_ErrorCode domain)
                              (ae_ErrorText domain) (ae_ErrorParams domain))
                 else Some ''API error: overall result is error''
             | [] \<Rightarrow> Some ''API error: overall result is error'')
          else
            (case filter (\<lambda>domain. ae_Result domain = ''error'') (ar_Domains apiResp) of
               [] \<Rightarrow> None
             | domain # _ \<Rightarrow>
                 Some (formatHumanReadableError env (ae_ErrorCode domain)
                         (ae_ErrorText domain) (ae_ErrorParams domain))))"

text \<open>
  \<open>Client.doRequest\<close>.  Every method of the client that reaches the provider
  (\<open>AddRecord\<close>, \<open>RemoveRecord\<close>, \<open>GetRecords\<close> and the SRV and CAA variants)
  builds its parameters and returns what \<open>doRequest\<close> returns, so a method call is
  \<open>doRequest\<close> on the corresponding \<open>call\<close>.
\<close>

definition doRequest :: "'w env \<Rightarrow> call \<Rightarrow> 'w client \<Rightarrow> (error + string) \<times> 'w client" where
  "doRequest env c st =
     (let (resp, w) = http_PostForm env (world st) c;
          result =
            (case resp of
               PostFailed err \<Rightarrow> Inl (''failed to make request: '' @ err)
             | ReadFailed err \<Rightarrow> Inl (''failed to read response: '' @ err)
             | Body body \<Rightarrow>
                 (case direct_error env body of
                    Some e \<Rightarrow> Inl e
                  | None \<Rightarrow>
                      (case response_error env body of
                         Some e \<Rightarrow> Inl e
                       | None \<Rightarrow> Inr body)))
      in (result, st\<lparr>world := w, events := events st @ [Called c result]\<rparr>))"

text \<open>\<open>CachedClient.GetRecordsWithCache\<close>, \<open>InvalidateZoneCache\<close>, \<open>ClearZoneCache\<close>.
  The clock is read where the Go code reads it: by \<open>time.Since\<close> when the zone has
  an entry, and by \<open>time.Now\<close> when an entry is stored.\<close>

definition GetRecordsWithCache ::
  "'w env \<Rightarrow> string \<Rightarrow> 'w client \<Rightarrow> (error + string) \<times> 'w client" where
  "GetRecordsWithCache env zone st =
     (let st1 = (if globalZoneCache st zone = None then st
                 else st\<lparr>world := snd (time_Now env (world st))\<rparr>);
          now = fst (time_Now env (world st));
          ((cached, exists), zc) = ZoneCache_Get now (globalZoneCache st) zone;
          st2 = st1\<lparr>globalZoneCache := zc\<rparr>
      in if exists then (Inr cached, st2)
         else (case doRequest env (GetRecords zone) st2 of
                 (Inl err, st3) \<Rightarrow> (Inl err, st3)
               | (Inr data, st3) \<Rightarrow>
                   let (t, w) = time_Now env (world st3)
                   in (Inr data,
                       st3\<lparr>world := w,
                           globalZoneCache := ZoneCache_Set t (globalZoneCache st3) zone data\<rparr>)))"

definition InvalidateZoneCache :: "string \<Rightarrow> 'w client \<Rightarrow> 'w client" where
  "InvalidateZoneCache zone st =
     st\<lparr>globalZoneCache := ZoneCache_Invalidate (globalZoneCache st) zone,
        events := events st @ [Invalidated zone]\<rparr>"

definition ClearZoneCache :: "'w client \<Rightarrow> 'w client" where
  "ClearZoneCache st =
     st\<lparr>globalZoneCache := ZoneCache_Clear (globalZoneCache st), events := events st @ [Cleared]\<rparr>"


section \<open>Resource data and shared loops of the strategies\<close>

text \<open>
  \<open>schema.ResourceData\<close> as the strategies use it: the identifier, the attributes
  \<open>zone\<close> and \<open>name\<close>, and the one attribute that carries the records
  (\<open>records\<close>, \<open>record\<close> or \<open>cname\<close>, of type \<open>'r\<close>).  \<open>d_new\<close> is what
  \<open>d.Get\<close> returns and the second component of \<open>d.GetChange\<close>; \<open>d_old\<close> is the
  first component of \<open>d.GetChange\<close>; \<open>d.Set\<close> writes \<open>d_new\<close>.  The schema fixes
  the Go types of the values, so the type assertions of the code cannot fail here.
\<close>

record 'r ResourceData =
  d_Id :: string
  d_zone :: string
  d_name :: string
  d_new :: 'r
  d_old :: 'r

text \<open>\<open>d.HasChange(key)\<close> of the plugin SDK: old and new value differ.\<close>

definition HasChange :: "'r ResourceData \<Rightarrow> bool" where
  "HasChange d = (d_old d \<noteq> d_new d)"

text \<open>\<open>SetResourceID\<close> of \<open>CommonOperations\<close>; the MX, NS, SRV and CNAME
  strategies override it with the same body.\<close>

definition SetResourceID :: "'r ResourceData \<Rightarrow> string \<Rightarrow> string \<Rightarrow> string \<Rightarrow> 'r ResourceData" where
  "SetResourceID d zone name recordType = d\<lparr>d_Id := zone @ ''/'' @ name\<rparr>"

text \<open>
  The loop that every write path repeats: for each item call the client, return the
  wrapped error of the call if there is one, else check the response with
  \<open>CheckAPIResponseForErrors\<close> and return its wrapped error if there is one.
  \<open>mk\<close> builds the call, \<open>on_err\<close> and \<open>on_bad\<close> wrap the two errors.
\<close>

fun call_each ::
  "'w env \<Rightarrow> ('a \<Rightarrow> call) \<Rightarrow> ('a \<Rightarrow> error \<Rightarrow> error) \<Rightarrow> ('a \<Rightarrow> error \<Rightarrow> error)
     \<Rightarrow> 'a list \<Rightarrow> 'w client \<Rightarrow> error option \<times> 'w client" where
  "call_each env mk on_err on_bad [] st = (None, st)"
| "call_each env mk on_err on_bad (x # xs) st =
     (case doRequest env (mk x) st of
        (Inl err, st1) \<Rightarrow> (Some (on_err x err), st1)
      | (Inr response, st1) \<Rightarrow>
          (case CheckAPIResponseForErrors (unmarshal_APIErrorResponse env) response of
             Some err \<Rightarrow> (Some (on_bad x err), st1)
           | None \<Rightarrow> call_each env mk on_err on_bad xs st1))"

text \<open>
  The search that every update path repeats: the inner loop sets \<open>found\<close> and breaks
  at the first element of the other side that is the same; the outer loop appends the
  elements that were not found.
\<close>

fun found_in :: "('a \<Rightarrow> 'a \<Rightarrow> bool) \<Rightarrow> 'a \<Rightarrow> 'a list \<Rightarrow> bool" where
  "found_in same x [] = False"
| "found_in same x (y # ys) = (if same x y then True else found_in same x ys)"

fun not_found_loop :: "('a \<Rightarrow> 'a \<Rightarrow> bool) \<Rightarrow> 'a list \<Rightarrow> 'a list \<Rightarrow> 'a list \<Rightarrow> 'a list" where
  "not_found_loop same [] others acc = acc"
| "not_found_loop same (x # xs) others acc =
     not_found_loop same xs others (if \<not> found_in same x others then acc @ [x] else acc)"

text \<open>The rows of the zone response a strategy reads: all rows of all domains
  (generic, SRV, CAA), or the rows of the first domain named like the zone
  (MX, NS, CNAME: the loop breaks there).\<close>

definition all_rrs :: "DNSZoneResponse \<Rightarrow> DNSRecord list" where
  "all_rrs zoneResponse = concat (map zd_Rrs (zr_Domains zoneResponse))"

definition zone_rrs :: "DNSZoneResponse \<Rightarrow> string \<Rightarrow> DNSRecord list" where
  "zone_rrs zoneResponse zone =
     (case find (\<lambda>domain. zd_Dname domain = zone) (zr_Domains zoneResponse) of
        None \<Rightarrow> []
      | Some domain \<Rightarrow> zd_Rrs domain)"

section \<open>The generic strategy (A, AAAA, TXT)\<close>

record GenericRecordStrategy =
  recordType :: string
  preprocessor :: "string \<Rightarrow> string"
  validator :: "string list \<Rightarrow> error option"

definition NoOpPreprocessor :: "string \<Rightarrow> string" where
  "NoOpPreprocessor input = input"

definition NormalizeDomainPreprocessor :: "string \<Rightarrow> string" where
  "NormalizeDomainPreprocessor input = NormalizeDomain input"

definition AddTrailingDotPreprocessor :: "string \<Rightarrow> string" where
  "AddTrailingDotPreprocessor input = AddTrailingDot input"

definition DefaultRecordValidator :: "string \<Rightarrow> string list \<Rightarrow> error option" where
  "DefaultRecordValidator rt records =
     (if length records = 0 then Some (''at least one '' @ rt @ '' record must be specified'')
      else None)"

definition NewGenericRecordStrategy ::
  "string \<Rightarrow> (string \<Rightarrow> string) \<Rightarrow> (string list \<Rightarrow> error option) \<Rightarrow> GenericRecordStrategy" where
  "NewGenericRecordStrategy rt pre val =
     \<lparr>recordType = rt, preprocessor = pre, validator = val\<rparr>"

definition NewARecordStrategy :: GenericRecordStrategy where
  "NewARecordStrategy = NewGenericRecordStrategy ''A'' NoOpPreprocessor (DefaultRecordValidator ''A'')"

definition NewAAAARecordStrategy :: GenericRecordStrategy where
  "NewAAAARecordStrategy =
     NewGenericRecordStrategy ''AAAA'' NoOpPreprocessor (DefaultRecordValidator ''AAAA'')"

definition NewTXTRecordStrategy :: GenericRecordStrategy where
  "NewTXTRecordStrategy =
     NewGenericRecordStrategy ''TXT'' NoOpPreprocessor (DefaultRecordValidator ''TXT'')"

type_synonym ('r, 'w) outcome = "error option \<times> 'r ResourceData \<times> 'w client"

definition Generic_Read ::
  "'w env \<Rightarrow> GenericRecordStrategy \<Rightarrow> string list ResourceData \<Rightarrow> 'w client
     \<Rightarrow> (string list, 'w) outcome" where
  "Generic_Read env s d st =
     (let zone = d_zone d; name = d_name d
      in case GetRecordsWithCache env zone st of
           (Inl err, st1) \<Rightarrow> (Some (''failed to get zone records: '' @ err), d, st1)
         | (Inr response, st1) \<Rightarrow>
             (case unmarshal_DNSZoneResponse env response of
                Inl err \<Rightarrow> (Some (''failed to parse DNS records response: '' @ err), d, st1)
              | Inr zoneResponse \<Rightarrow>
                  let foundRecords =
                        map (\<lambda>record. preprocessor s (rr_Content record))
                          (filter (\<lambda>record. rr_Rectype record = recordType s
                                             \<and> rr_Subname record = name)
                             (all_rrs zoneResponse))
                  in if length foundRecords = 0 then (None, d\<lparr>d_Id := []\<rparr>, st1)
                     else (None, d\<lparr>d_zone := zone, d_name := name, d_new := sort foundRecords\<rparr>,
                           st1)))"

definition Generic_Create ::
  "'w env \<Rightarrow> GenericRecordStrategy \<Rightarrow> string list ResourceData \<Rightarrow> 'w client
     \<Rightarrow> (string list, 'w) outcome" where
  "Generic_Create env s d st =
     (let zone = d_zone d; name = d_name d; records = d_new d;
          recordStrings = sort (map (preprocessor s) records);
          wrap = (\<lambda>recordStr err.
                    ''failed to create '' @ recordType s @ '' record '' @ recordStr @ '': '' @ err)
      in case validator s records of
           Some err \<Rightarrow> (Some err, d, st)
         | None \<Rightarrow>
             (case call_each env (\<lambda>recordStr. AddRecord (recordType s) zone name recordStr None)
                     wrap wrap recordStrings st of
                (Some err, st1) \<Rightarrow> (Some err, d, st1)
              | (None, st1) \<Rightarrow>
                  Generic_Read env s (SetResourceID d zone name (recordType s)) st1))"

text \<open>The two lists \<open>recordsToRemove\<close> and \<open>recordsToAdd\<close> that \<open>Update\<close>
  computes from the old and the new value of \<open>records\<close>.\<close>

definition Generic_diff ::
  "GenericRecordStrategy \<Rightarrow> string list \<Rightarrow> string list \<Rightarrow> string list \<times> string list" where
  "Generic_diff s oldRecords newRecords =
     (let oldRecordsStr = sort (map (preprocessor s) oldRecords);
          newRecordsStr = sort (map (preprocessor s) newRecords);
          recordsToRemove = not_found_loop (=) oldRecordsStr newRecordsStr [];
          recordsToAdd = not_found_loop (=) newRecordsStr oldRecordsStr []
      in (recordsToRemove, recordsToAdd))"

definition Generic_Update ::
  "'w env \<Rightarrow> GenericRecordStrategy \<Rightarrow> string list ResourceData \<Rightarrow> 'w client
     \<Rightarrow> (string list, 'w) outcome" where
  "Generic_Update env s d st =
     (let zone = d_zone d; name = d_name d
      in if HasChange d then
           (let (recordsToRemove, recordsToAdd) = Generic_diff s (d_old d) (d_new d);
                wrap_rm = (\<lambda>record err.
                    ''failed to remove '' @ recordType s @ '' record '' @ record @ '': '' @ err);
                wrap_add = (\<lambda>record err.
                    ''failed to add '' @ recordType s @ '' record '' @ record @ '': '' @ err)
            in case call_each env (\<lambda>record. RemoveRecord zone name (recordType s) record None)
                      wrap_rm wrap_rm recordsToRemove st of
                 (Some err, st1) \<Rightarrow> (Some err, d, st1)
               | (None, st1) \<Rightarrow>
                   (case call_each env (\<lambda>record. AddRecord (recordType s) zone name record None)
                           wrap_add wrap_add recordsToAdd st1 of
                      (Some err, st2) \<Rightarrow> (Some err, d, st2)
                    | (None, st2) \<Rightarrow> Generic_Read env s d (InvalidateZoneCache zone st2)))
         else Generic_Read env s d st)"

definition Generic_Delete ::
  "'w env \<Rightarrow> GenericRecordStrategy \<Rightarrow> string list ResourceData \<Rightarrow> 'w client
     \<Rightarrow> (string list, 'w) outcome" where
  "Generic_Delete env s d st =
     (let zone = d_zone d; name = d_name d; records = d_new d;
          wrap = (\<lambda>recordStr err.
                    ''failed to delete '' @ recordType s @ '' record '' @ recordStr @ '': '' @ err)
      in case call_each env (\<lambda>recordStr. RemoveRecord zone name (recordType s) recordStr None)
                wrap wrap (map (preprocessor s) records) st of
           (Some err, st1) \<Rightarrow> (Some err, d, st1)
         | (None, st1) \<Rightarrow> (None, d, InvalidateZoneCache zone st1))"

definition Generic_Import ::
  "'w env \<Rightarrow> GenericRecordStrategy \<Rightarrow> string list ResourceData \<Rightarrow> 'w client
     \<Rightarrow> (string list, 'w) outcome" where
  "Generic_Import env s d st =
     (case ParseResourceID (d_Id d) of
        Inl err \<Rightarrow> (Some err, d, st)
      | Inr (zone, name) \<Rightarrow> Generic_Read env s (d\<lparr>d_zone := zone, d_name := name\<rparr>) st)"


section \<open>The MX strategy\<close>

text \<open>A \<open>record\<close> block of the MX and NS resources: a priority and its servers.\<close>

record PriorityBlock =
  priority :: int
  servers :: "string list"

record MXRecord =
  mx_Priority :: int
  mx_Server :: string

text \<open>The groups \<open>Read\<close> builds for MX and NS: one block for each priority among the
  rows, in ascending order of priority, its servers sorted.\<close>

definition priority_blocks :: "DNSRecord list \<Rightarrow> PriorityBlock list" where
  "priority_blocks rrs =
     map (\<lambda>p. \<lparr>priority = p,
                servers = sort (map (\<lambda>rr. NormalizeDomain (rr_Content rr))
                                  (filter (\<lambda>rr. rr_Prio rr = p) rrs))\<rparr>)
       (sort (remdups (map rr_Prio rrs)))"

definition MX_Create ::
  "'w env \<Rightarrow> PriorityBlock list ResourceData \<Rightarrow> 'w client \<Rightarrow> (PriorityBlock list, 'w) outcome" where
  "MX_Create env d st =
     (let zone = d_zone d; name = d_name d; mxRecords = d_new d;
          wrap = (\<lambda>(priority, serverStr) err.
                    ''failed to create MX record '' @ serverStr @ '': '' @ err)
      in case call_each env
                (\<lambda>(priority, serverStr).
                    AddRecord ''MX'' zone name (AddTrailingDot serverStr) (Some priority))
                wrap wrap
                (concat (map (\<lambda>mxRecord. map (Pair (priority mxRecord)) (sort (servers mxRecord)))
                           mxRecords))
                st of
           (Some err, st1) \<Rightarrow> (Some err, d, st1)
         | (None, st1) \<Rightarrow> (None, SetResourceID d zone name ''MX'', InvalidateZoneCache zone st1))"

definition MX_Read ::
  "'w env \<Rightarrow> PriorityBlock list ResourceData \<Rightarrow> 'w client \<Rightarrow> (PriorityBlock list, 'w) outcome" where
  "MX_Read env d st =
     (let zone = d_zone d; name = d_name d
      in case GetRecordsWithCache env zone st of
           (Inl err, st1) \<Rightarrow> (Some (''failed to get zone records: '' @ err), d, st1)
         | (Inr response, st1) \<Rightarrow>
             (case unmarshal_DNSZoneResponse env response of
                Inl err \<Rightarrow> (Some (''failed to parse DNS records response: '' @ err), d, st1)
              | Inr zoneResponse \<Rightarrow>
                  let found = filter (\<lambda>rr. rr_Subname rr = name \<and> rr_Rectype rr = ''MX'')
                                (zone_rrs zoneResponse zone)
                  in if length found = 0 then (None, d\<lparr>d_Id := []\<rparr>, st1)
                     else (None,
                           d\<lparr>d_zone := zone, d_name := name, d_new := priority_blocks found\<rparr>,
                           st1)))"

definition MX_parseRecordsFromState :: "PriorityBlock list \<Rightarrow> MXRecord list" where
  "MX_parseRecordsFromState records =
     concat (map (\<lambda>recordMap.
                    map (\<lambda>server. \<lparr>mx_Priority = priority recordMap, mx_Server = server\<rparr>)
                      (servers recordMap))
               records)"

definition MX_findRecordsToRemove :: "MXRecord list \<Rightarrow> MXRecord list \<Rightarrow> MXRecord list" where
  "MX_findRecordsToRemove oldRecords newRecords =
     not_found_loop
       (\<lambda>oldRecord newRecord. mx_Priority oldRecord = mx_Priority newRecord
                               \<and> mx_Server oldRecord = mx_Server newRecord)
       oldRecords newRecords []"

definition MX_findRecordsToAdd :: "MXRecord list \<Rightarrow> MXRecord list \<Rightarrow> MXRecord list" where
  "MX_findRecordsToAdd oldRecords newRecords =
     not_found_loop
       (\<lambda>newRecord oldRecord. mx_Priority newRecord = mx_Priority oldRecord
                               \<and> mx_Server newRecord = mx_Server oldRecord)
       newRecords oldRecords []"

text \<open>\<open>MXRecordStrategy.Update\<close>.  Its fallback \<open>recreateAllRecords\<close> is taken when
  \<open>d.GetChange("record")\<close> does not yield two lists, which the schema excludes.\<close>

definition MX_Update ::
  "'w env \<Rightarrow> PriorityBlock list ResourceData \<Rightarrow> 'w client \<Rightarrow> (PriorityBlock list, 'w) outcome" where
  "MX_Update env d st =
     (let zone = d_zone d; name = d_name d;
          oldMXRecords = MX_parseRecordsFromState (d_old d);
          newMXRecords = MX_parseRecordsFromState (d_new d);
          toRemove = MX_findRecordsToRemove oldMXRecords newMXRecords;
          toAdd = MX_findRecordsToAdd oldMXRecords newMXRecords
      in case call_each env
                (\<lambda>record. RemoveRecord zone name ''MX'' (AddTrailingDot (mx_Server record))
                             (Some (mx_Priority record)))
                (\<lambda>record err. ''failed to remove MX record '' @ mx_Server record @ '': ''
                                 @ HandleAPIError err ''remove'')
                (\<lambda>record err. ''failed to remove MX record '' @ mx_Server record @ '': '' @ err)
                toRemove st of
           (Some err, st1) \<Rightarrow> (Some err, d, st1)
         | (None, st1) \<Rightarrow>
             (case call_each env
                     (\<lambda>record. AddRecord ''MX'' zone name (AddTrailingDot (mx_Server record))
                                  (Some (mx_Priority record)))
                     (\<lambda>record err. ''failed to add MX record '' @ mx_Server record @ '': '' @ err)
                     (\<lambda>record err. ''failed to add MX record '' @ mx_Server record @ '': '' @ err)
                     toAdd st1 of
                (Some err, st2) \<Rightarrow> (Some err, d, st2)
              | (None, st2) \<Rightarrow> (None, d, InvalidateZoneCache zone st2)))"

definition MX_Delete ::
  "'w env \<Rightarrow> PriorityBlock list ResourceData \<Rightarrow> 'w client \<Rightarrow> (PriorityBlock list, 'w) outcome" where
  "MX_Delete env d st =
     (let zone = d_zone d; name = d_name d
      in case GetRecordsWithCache env zone st of
           (Inl err, st1) \<Rightarrow> (Some (''failed to get zone records for deletion: '' @ err), d, st1)
         | (Inr response, st1) \<Rightarrow>
             (case unmarshal_DNSZoneResponse env response of
                Inl err \<Rightarrow>
                  (Some (''failed to parse DNS records response for deletion: '' @ err), d, st1)
              | Inr zoneResponse \<Rightarrow>
                  (case call_each env
                          (\<lambda>rr. RemoveRecord zone name ''MX'' (AddTrailingDot (rr_Content rr))
                                   (Some (rr_Prio rr)))
                          (\<lambda>rr err. HandleAPIError err ''remove'')
                          (\<lambda>rr err. ''failed to remove MX record '' @ rr_Content rr @ '': '' @ err)
                          (filter (\<lambda>rr. rr_Subname rr = name \<and> rr_Rectype rr = ''MX'')
                             (zone_rrs zoneResponse zone))
                          st1 of
                     (Some err, st2) \<Rightarrow> (Some err, d, st2)
                   | (None, st2) \<Rightarrow> (None, d\<lparr>d_Id := []\<rparr>, InvalidateZoneCache zone st2))))"

definition MX_recreateAllRecords ::
  "'w env \<Rightarrow> PriorityBlock list ResourceData \<Rightarrow> 'w client \<Rightarrow> (PriorityBlock list, 'w) outcome" where
  "MX_recreateAllRecords env d st =
     (case MX_Delete env d st of
        (Some err, d1, st1) \<Rightarrow> (Some (''failed to remove old MX records: '' @ err), d1, st1)
      | (None, d1, st1) \<Rightarrow>
          (case MX_Create env d1 st1 of
             (Some err, d2, st2) \<Rightarrow> (Some (''failed to create new MX records: '' @ err), d2, st2)
           | (None, d2, st2) \<Rightarrow> (None, d2, st2)))"

definition MX_Import ::
  "'w env \<Rightarrow> PriorityBlock list ResourceData \<Rightarrow> 'w client \<Rightarrow> (PriorityBlock list, 'w) outcome" where
  "MX_Import env d st =
     (case ParseResourceID (d_Id d) of
        Inl err \<Rightarrow> (Some err, d, st)
      | Inr (zone, name) \<Rightarrow> MX_Read env (d\<lparr>d_zone := zone, d_name := name\<rparr>) st)"

section \<open>The NS strategy\<close>

record NSRecord =
  ns_Priority :: int
  ns_Server :: string

definition NS_Create ::
  "'w env \<Rightarrow> PriorityBlock list ResourceData \<Rightarrow> 'w client \<Rightarrow> (PriorityBlock list, 'w) outcome" where
  "NS_Create env d st =
     (let zone = d_zone d; name = d_name d; records = d_new d;
          wrap = (\<lambda>(priority, server) err. ''failed to create NS record: '' @ err)
      in case call_each env
                (\<lambda>(priority, server).
                    AddRecord ''NS'' zone name (AddTrailingDot server) (Some priority))
                wrap wrap
                (concat (map (\<lambda>recordMap. map (Pair (priority recordMap)) (servers recordMap))
                           records))
                st of
           (Some err, st1) \<Rightarrow> (Some err, d, st1)
         | (None, st1) \<Rightarrow> (None, SetResourceID d zone name ''NS'', InvalidateZoneCache zone st1))"

definition NS_Read ::
  "'w env \<Rightarrow> PriorityBlock list ResourceData \<Rightarrow> 'w client \<Rightarrow> (PriorityBlock list, 'w) outcome" where
  "NS_Read env d st =
     (let zone = d_zone d; name = d_name d
      in case GetRecordsWithCache env zone st of
           (Inl err, st1) \<Rightarrow> (Some (''failed to get zone records: '' @ err), d, st1)
         | (Inr response, st1) \<Rightarrow>
             (case unmarshal_DNSZoneResponse env response of
                Inl err \<Rightarrow> (Some (''failed to parse DNS records response: '' @ err), d, st1)
              | Inr zoneResponse \<Rightarrow>
                  let found = filter (\<lambda>rr. rr_Subname rr = name \<and> rr_Rectype rr = ''NS'')
                                (zone_rrs zoneResponse zone)
                  in if length found = 0 then (None, d\<lparr>d_Id := []\<rparr>, st1)
                     else (None,
                           d\<lparr>d_zone := zone, d_name := name, d_new := priority_blocks found\<rparr>,
                           st1)))"

definition NS_parseRecordsFromState :: "PriorityBlock list \<Rightarrow> NSRecord list" where
  "NS_parseRecordsFromState records =
     concat (map (\<lambda>recordMap.
                    map (\<lambda>server. \<lparr>ns_Priority = priority recordMap, ns_Server = server\<rparr>)
                      (servers recordMap))
               records)"

definition NS_findRecordsToRemove :: "NSRecord list \<Rightarrow> NSRecord list \<Rightarrow> NSRecord list" where
  "NS_findRecordsToRemove oldRecords newRecords =
     not_found_loop
       (\<lambda>oldRecord newRecord. ns_Priority oldRecord = ns_Priority newRecord
                               \<and> ns_Server oldRecord = ns_Server newRecord)
       oldRecords newRecords []"

definition NS_findRecordsToAdd :: "NSRecord list \<Rightarrow> NSRecord list \<Rightarrow> NSRecord list" where
  "NS_findRecordsToAdd oldRecords newRecords =
     not_found_loop
       (\<lambda>newRecord oldRecord. ns_Priority newRecord = ns_Priority oldRecord
                               \<and> ns_Server newRecord = ns_Server oldRecord)
       newRecords oldRecords []"

definition NS_Update ::
  "'w env \<Rightarrow> PriorityBlock list ResourceData \<Rightarrow> 'w client \<Rightarrow> (PriorityBlock list, 'w) outcome" where
  "NS_Update env d st =
     (let zone = d_zone d; name = d_name d;
          oldNSRecords = NS_parseRecordsFromState (d_old d);
          newNSRecords = NS_parseRecordsFromState (d_new d);
          toRemove = NS_findRecordsToRemove oldNSRecords newNSRecords;
          toAdd = NS_findRecordsToAdd oldNSRecords newNSRecords;
          wrap_rm = (\<lambda>record err. ''failed to remove NS record '' @ ns_Server record @ '': '' @ err);
          wrap_add = (\<lambda>record err. ''failed to add NS record '' @ ns_Server record @ '': '' @ err)
      in case call_each env
                (\<lambda>record. RemoveRecord zone name ''NS'' (AddTrailingDot (ns_Server record))
                             (Some (ns_Priority record)))
                wrap_rm wrap_rm toRemove st of
           (Some err, st1) \<Rightarrow> (Some err, d, st1)
         | (None, st1) \<Rightarrow>
             (case call_each env
                     (\<lambda>record. AddRecord ''NS'' zone name (AddTrailingDot (ns_Server record))
                                  (Some (ns_Priority record)))
                     wrap_add wrap_add toAdd st1 of
                (Some err, st2) \<Rightarrow> (Some err, d, st2)
              | (None, st2) \<Rightarrow> (None, d, InvalidateZoneCache zone st2)))"

definition NS_Delete ::
  "'w env \<Rightarrow> PriorityBlock list ResourceData \<Rightarrow> 'w client \<Rightarrow> (PriorityBlock list, 'w) outcome" where
  "NS_Delete env d st =
     (let zone = d_zone d; name = d_name d; oldRecordsList = d_old d;
          wrap = (\<lambda>(priority, server) err. ''failed to delete NS record: '' @ err)
      in case call_each env
                (\<lambda>(priority, server).
                    RemoveRecord zone name ''NS'' (AddTrailingDot server) (Some priority))
                wrap wrap
                (concat (map (\<lambda>recordMap. map (Pair (priority recordMap)) (servers recordMap))
                           oldRecordsList))
                st of
           (Some err, st1) \<Rightarrow> (Some err, d, st1)
         | (None, st1) \<Rightarrow> (None, d, InvalidateZoneCache zone st1))"

definition NS_recreateAllRecords ::
  "'w env \<Rightarrow> PriorityBlock list ResourceData \<Rightarrow> 'w client \<Rightarrow> (PriorityBlock list, 'w) outcome" where
  "NS_recreateAllRecords env d st =
     (case NS_Delete env d st of
        (Some err, d1, st1) \<Rightarrow> (Some err, d1, st1)
      | (None, d1, st1) \<Rightarrow> NS_Create env d1 st1)"

definition NS_Import ::
  "'w env \<Rightarrow> PriorityBlock list ResourceData \<Rightarrow> 'w client \<Rightarrow> (PriorityBlock list, 'w) outcome" where
  "NS_Import env d st =
     (case ParseResourceID (d_Id d) of
        Inl err \<Rightarrow> (Some err, d, st)
      | Inr (zone, name) \<Rightarrow> NS_Read env (d\<lparr>d_zone := zone, d_name := name\<rparr>) st)"


section \<open>The CNAME strategy\<close>

definition CNAME_Create ::
  "'w env \<Rightarrow> string ResourceData \<Rightarrow> 'w client \<Rightarrow> (string, 'w) outcome" where
  "CNAME_Create env d st =
     (let zone = d_zone d; name = d_name d; cname = d_new d;
          wrap = (\<lambda>apiRecord err. ''failed to create CNAME record: '' @ err)
      in case call_each env (\<lambda>apiRecord. AddRecord ''CNAME'' zone name apiRecord None)
                wrap wrap [AddTrailingDot cname] st of
           (Some err, st1) \<Rightarrow> (Some err, d, st1)
         | (None, st1) \<Rightarrow>
             (None, SetResourceID d zone name ''CNAME'', InvalidateZoneCache zone st1))"

definition CNAME_Read ::
  "'w env \<Rightarrow> string ResourceData \<Rightarrow> 'w client \<Rightarrow> (string, 'w) outcome" where
  "CNAME_Read env d st =
     (let zone = d_zone d; name = d_name d
      in case GetRecordsWithCache env zone st of
           (Inl err, st1) \<Rightarrow> (Some (''failed to get zone records: '' @ err), d, st1)
         | (Inr response, st1) \<Rightarrow>
             (case unmarshal_DNSZoneResponse env response of
                Inl err \<Rightarrow> (Some (''failed to parse DNS records response: '' @ err), d, st1)
              | Inr zoneResponse \<Rightarrow>
                  let foundCNAME =
                        (case find (\<lambda>rr. rr_Subname rr = name \<and> rr_Rectype rr = ''CNAME'')
                                (zone_rrs zoneResponse zone) of
                           None \<Rightarrow> []
                         | Some rr \<Rightarrow> NormalizeDomain (rr_Content rr))
                  in if foundCNAME = [] then (None, d\<lparr>d_Id := []\<rparr>, st1)
                     else (None, d\<lparr>d_zone := zone, d_name := name, d_new := foundCNAME\<rparr>, st1)))"

definition CNAME_Update ::
  "'w env \<Rightarrow> string ResourceData \<Rightarrow> 'w client \<Rightarrow> (string, 'w) outcome" where
  "CNAME_Update env d st =
     (let zone = d_zone d; name = d_name d; oldCNAMEStr = d_old d; newCNAMEStr = d_new d;
          wrap_rm = (\<lambda>apiRecord err. ''failed to delete old CNAME record: '' @ err);
          wrap_add = (\<lambda>apiRecord err. ''failed to create new CNAME record: '' @ err)
      in case call_each env (\<lambda>apiOldRecord. RemoveRecord zone name ''CNAME'' apiOldRecord None)
                wrap_rm wrap_rm
                (if oldCNAMEStr \<noteq> [] then [AddTrailingDot oldCNAMEStr] else []) st of
           (Some err, st1) \<Rightarrow> (Some err, d, st1)
         | (None, st1) \<Rightarrow>
             (case call_each env (\<lambda>apiNewRecord. AddRecord ''CNAME'' zone name apiNewRecord None)
                     wrap_add wrap_add
                     (if newCNAMEStr \<noteq> [] then [AddTrailingDot newCNAMEStr] else []) st1 of
                (Some err, st2) \<Rightarrow> (Some err, d, st2)
              | (None, st2) \<Rightarrow> (None, d, InvalidateZoneCache zone st2)))"

definition CNAME_Delete ::
  "'w env \<Rightarrow> string ResourceData \<Rightarrow> 'w client \<Rightarrow> (string, 'w) outcome" where
  "CNAME_Delete env d st =
     (let zone = d_zone d; name = d_name d;
          cname = (if d_new d = [] then d_old d else d_new d);
          wrap = (\<lambda>apiRecord err. ''failed to delete CNAME record: '' @ err)
      in case call_each env (\<lambda>apiRecord. RemoveRecord zone name ''CNAME'' apiRecord None)
                wrap wrap (if cname \<noteq> [] then [AddTrailingDot cname] else []) st of
           (Some err, st1) \<Rightarrow> (Some err, d, st1)
         | (None, st1) \<Rightarrow> (None, d, InvalidateZoneCache zone st1))"

definition CNAME_Import ::
  "'w env \<Rightarrow> string ResourceData \<Rightarrow> 'w client \<Rightarrow> (string, 'w) outcome" where
  "CNAME_Import env d st =
     (case ParseResourceID (d_Id d) of
        Inl err \<Rightarrow> (Some err, d, st)
      | Inr (zone, name) \<Rightarrow> CNAME_Read env (d\<lparr>d_zone := zone, d_name := name\<rparr>) st)"

section \<open>The SRV strategy\<close>

record SRVBlock =
  sb_priority :: int
  sb_weight :: int
  sb_port :: int
  sb_targets :: "string list"

record SRVRecord =
  srv_Priority :: int
  srv_Weight :: int
  srv_Port :: int
  srv_Target :: string

definition SRV_String :: "SRVRecord \<Rightarrow> string" where
  "SRV_String srv =
     show_int (srv_Priority srv) @ ''_'' @ show_int (srv_Weight srv) @ ''_''
       @ show_int (srv_Port srv) @ ''_'' @ srv_Target srv"

text \<open>The body shared by \<open>parseSRVRecords\<close> (on \<open>d.Get("record")\<close>) and
  \<open>getOldSRVRecords\<close> (on the old side of \<open>d.GetChange("record")\<close>).\<close>

definition SRV_records_of_blocks :: "SRVBlock list \<Rightarrow> SRVRecord list" where
  "SRV_records_of_blocks blocks =
     concat (map (\<lambda>recordMap.
                    map (\<lambda>targetStr. \<lparr>srv_Priority = sb_priority recordMap,
                                       srv_Weight = sb_weight recordMap,
                                       srv_Port = sb_port recordMap,
                                       srv_Target = targetStr\<rparr>)
                      (sb_targets recordMap))
               blocks)"

definition SRV_parseSRVRecords :: "SRVBlock list ResourceData \<Rightarrow> SRVRecord list" where
  "SRV_parseSRVRecords d = SRV_records_of_blocks (d_new d)"

definition SRV_getOldSRVRecords :: "SRVBlock list ResourceData \<Rightarrow> SRVRecord list" where
  "SRV_getOldSRVRecords d = SRV_records_of_blocks (d_old d)"

text \<open>\<open>GetPriority\<close> of \<open>CommonRecord\<close> on an SRV resource: its schema has no
  attribute \<open>priority\<close> at the top level, so \<open>d.GetOk\<close> reports none.\<close>

definition SRV_GetPriority :: "SRVBlock list ResourceData \<Rightarrow> int option" where
  "SRV_GetPriority d = None"

definition SRV_target_of_content :: "string \<Rightarrow> string" where
  "SRV_target_of_content content =
     (if CHR '' '' \<in> set content
      then (let parts = Fields content in if length parts \<ge> 3 then parts ! 2 else content)
      else content)"

definition SRV_group_key :: "SRVRecord \<Rightarrow> string" where
  "SRV_group_key srvRecord =
     show_int (srv_Priority srvRecord) @ ''_'' @ show_int (srv_Weight srvRecord) @ ''_''
       @ show_int (srv_Port srvRecord)"

text \<open>The record blocks \<open>Read\<close> builds from the sorted records: one block for each
  group key, its three numbers parsed back from the key, its targets sorted; the blocks
  sorted by priority, weight and port.\<close>

definition SRV_recordBlocks :: "SRVRecord list \<Rightarrow> SRVBlock list" where
  "SRV_recordBlocks foundSRVRecords =
     sort_key (\<lambda>b. (sb_priority b, sb_weight b, sb_port b))
       (map (\<lambda>key.
               let parts = Split key CHR ''_''
               in \<lparr>sb_priority = fst (Atoi (parts ! 0)),
                   sb_weight = fst (Atoi (parts ! 1)),
                   sb_port = fst (Atoi (parts ! 2)),
                   sb_targets = sort (map srv_Target
                                        (filter (\<lambda>r. SRV_group_key r = key) foundSRVRecords))\<rparr>)
          (remdups (map SRV_group_key foundSRVRecords)))"

definition SRV_Read ::
  "'w env \<Rightarrow> SRVBlock list ResourceData \<Rightarrow> 'w client \<Rightarrow> (SRVBlock list, 'w) outcome" where
  "SRV_Read env d st =
     (let zone = d_zone d; name = d_name d; expectedPriority = SRV_GetPriority d
      in case GetRecordsWithCache env zone st of
           (Inl err, st1) \<Rightarrow> (Some (''failed to get zone records: '' @ err), d, st1)
         | (Inr response, st1) \<Rightarrow>
             (case unmarshal_DNSZoneResponse env response of
                Inl err \<Rightarrow> (Some (''failed to parse DNS records response: '' @ err), d, st1)
              | Inr zoneResponse \<Rightarrow>
                  let foundSRVRecords =
                        map (\<lambda>record. \<lparr>srv_Priority = rr_Prio record,
                                        srv_Weight = rr_Weight record,
                                        srv_Port = rr_Port record,
                                        srv_Target = NormalizeDomain
                                                       (SRV_target_of_content (rr_Content record))\<rparr>)
                          (filter (\<lambda>record. rr_Rectype record = ''SRV'' \<and> rr_Subname record = name
                                     \<and> \<not> (expectedPriority \<noteq> None
                                           \<and> Some (rr_Prio record) \<noteq> expectedPriority))
                             (all_rrs zoneResponse))
                  in if length foundSRVRecords = 0 then (None, d\<lparr>d_Id := []\<rparr>, st1)
                     else (None,
                           d\<lparr>d_zone := zone, d_name := name,
                             d_new := SRV_recordBlocks (sort_key SRV_String foundSRVRecords)\<rparr>,
                           st1)))"

definition SRV_Create ::
  "'w env \<Rightarrow> SRVBlock list ResourceData \<Rightarrow> 'w client \<Rightarrow> (SRVBlock list, 'w) outcome" where
  "SRV_Create env d st =
     (let zone = d_zone d; name = d_name d; srvRecords = SRV_parseSRVRecords d;
          wrap = (\<lambda>srvRecord err.
                    ''failed to create SRV record '' @ srv_Target srvRecord @ '': '' @ err)
      in if length srvRecords = 0 then (Some ''at least one SRV record must be specified'', d, st)
         else (case call_each env
                      (\<lambda>srvRecord. AddSRVRecord zone name (srv_Target srvRecord)
                                      (Some (srv_Priority srvRecord)) (Some (srv_Weight srvRecord))
                                      (Some (srv_Port srvRecord)))
                      wrap wrap (sort_key SRV_String srvRecords) st of
                 (Some err, st1) \<Rightarrow> (Some err, d, st1)
               | (None, st1) \<Rightarrow> SRV_Read env (SetResourceID d zone name ''SRV'') st1))"

text \<open>The two lists \<open>recordsToRemove\<close> and \<open>recordsToAdd\<close> of \<open>Update\<close>.\<close>

definition SRV_diff :: "SRVRecord list \<Rightarrow> SRVRecord list \<Rightarrow> SRVRecord list \<times> SRVRecord list" where
  "SRV_diff oldRecords newRecords =
     (let oldSRVRecords = sort_key SRV_String oldRecords;
          newSRVRecords = sort_key SRV_String newRecords;
          recordsToRemove =
            not_found_loop (\<lambda>oldRecord newRecord. SRV_String oldRecord = SRV_String newRecord)
              oldSRVRecords newSRVRecords [];
          recordsToAdd =
            not_found_loop (\<lambda>newRecord oldRecord. SRV_String newRecord = SRV_String oldRecord)
              newSRVRecords oldSRVRecords []
      in (recordsToRemove, recordsToAdd))"

definition SRV_Update ::
  "'w env \<Rightarrow> SRVBlock list ResourceData \<Rightarrow> 'w client \<Rightarrow> (SRVBlock list, 'w) outcome" where
  "SRV_Update env d st =
     (let zone = d_zone d; name = d_name d
      in if HasChange d then
           (let (recordsToRemove, recordsToAdd) =
                  SRV_diff (SRV_getOldSRVRecords d) (SRV_parseSRVRecords d);
                wrap_rm = (\<lambda>record err.
                    ''failed to remove SRV record '' @ srv_Target record @ '': '' @ err);
                wrap_add = (\<lambda>record err.
                    ''failed to add SRV record '' @ srv_Target record @ '': '' @ err)
            in case call_each env
                      (\<lambda>record. RemoveSRVRecord zone name (srv_Target record)
                                   (Some (srv_Priority record)) (Some (srv_Weight record))
                                   (Some (srv_Port record)))
                      wrap_rm wrap_rm recordsToRemove st of
                 (Some err, st1) \<Rightarrow> (Some err, d, st1)
               | (None, st1) \<Rightarrow>
                   (case call_each env
                           (\<lambda>record. AddSRVRecord zone name (srv_Target record)
                                        (Some (srv_Priority record)) (Some (srv_Weight record))
                                        (Some (srv_Port record)))
                           wrap_add wrap_add recordsToAdd st1 of
                      (Some err, st2) \<Rightarrow> (Some err, d, st2)
                    | (None, st2) \<Rightarrow> SRV_Read env d (InvalidateZoneCache zone st2)))
         else SRV_Read env d st)"

definition SRV_Delete ::
  "'w env \<Rightarrow> SRVBlock list ResourceData \<Rightarrow> 'w client \<Rightarrow> (SRVBlock list, 'w) outcome" where
  "SRV_Delete env d st =
     (let zone = d_zone d; name = d_name d; srvRecords = SRV_parseSRVRecords d;
          wrap = (\<lambda>srvRecord err.
                    ''failed to delete SRV record '' @ srv_Target srvRecord @ '': '' @ err)
      in case call_each env
                (\<lambda>srvRecord. RemoveSRVRecord zone name (srv_Target srvRecord)
                                (Some (srv_Priority srvRecord)) (Some (srv_Weight srvRecord))
                                (Some (srv_Port srvRecord)))
                wrap wrap srvRecords st of
           (Some err, st1) \<Rightarrow> (Some err, d, st1)
         | (None, st1) \<Rightarrow> (None, d, InvalidateZoneCache zone st1))"

definition SRV_Import ::
  "'w env \<Rightarrow> SRVBlock list ResourceData \<Rightarrow> 'w client \<Rightarrow> (SRVBlock list, 'w) outcome" where
  "SRV_Import env d st =
     (case ParseResourceID (d_Id d) of
        Inl err \<Rightarrow> (Some err, d, st)
      | Inr (zone, name) \<Rightarrow> SRV_Read env (d\<lparr>d_zone := zone, d_name := name\<rparr>) st)"

section \<open>The CAA strategy\<close>

text \<open>\<open>CAARecord\<close> and its \<open>String()\<close> are declared with the environment.
  \<open>parseCAARecords\<close> and \<open>getOldCAARecords\<close>: the record blocks of the resource
  carry exactly the fields of a \<open>CAARecord\<close>.\<close>

definition CAA_parseCAARecords :: "CAARecord list ResourceData \<Rightarrow> CAARecord list" where
  "CAA_parseCAARecords d = d_new d"

definition CAA_getOldCAARecords :: "CAARecord list ResourceData \<Rightarrow> CAARecord list" where
  "CAA_getOldCAARecords d = d_old d"

text \<open>What the loop of \<open>Read\<close> makes of one row of type CAA: the structured fields
  when one of them is set, else the combined content string split into fields.\<close>

definition CAA_of_rr :: "DNSRecord \<Rightarrow> CAARecord" where
  "CAA_of_rr record =
     (let (flag, tag, val) =
            (if rr_Flag record \<noteq> 0 \<or> rr_Tag record \<noteq> []
             then (rr_Flag record, rr_Tag record, rr_Content record)
             else (let parts = Fields (rr_Content record)
                   in if length parts \<ge> 3
                      then (let (flagVal, ok) = Atoi (parts ! 0);
                                joined = Join (drop 2 parts) '' ''
                            in (if ok then flagVal else 0,
                                parts ! 1,
                                if HasPrefix joined [CHR 0x22] \<and> HasSuffix joined [CHR 0x22]
                                then Trim joined [CHR 0x22] else joined))
                      else (0, [], rr_Content record)))
      in \<lparr>caa_Flag = flag, caa_Tag = tag, caa_Value = NormalizeDomain val\<rparr>)"

definition CAA_Read ::
  "'w env \<Rightarrow> CAARecord list ResourceData \<Rightarrow> 'w client \<Rightarrow> (CAARecord list, 'w) outcome" where
  "CAA_Read env d st =
     (let zone = d_zone d; name = d_name d
      in case GetRecordsWithCache env zone st of
           (Inl err, st1) \<Rightarrow> (Some (''failed to get zone records: '' @ err), d, st1)
         | (Inr response, st1) \<Rightarrow>
             (case unmarshal_DNSZoneResponse env response of
                Inl err \<Rightarrow> (Some (''failed to parse DNS records response: '' @ err), d, st1)
              | Inr zoneResponse \<Rightarrow>
                  let foundCAARecords =
                        map CAA_of_rr
                          (filter (\<lambda>record. rr_Rectype record = ''CAA'' \<and> rr_Subname record = name)
                             (all_rrs zoneResponse))
                  in if length foundCAARecords = 0 then (None, d\<lparr>d_Id := []\<rparr>, st1)
                     else (None,
                           d\<lparr>d_zone := zone, d_name := name,
                             d_new := sort_Slice env CAA_less foundCAARecords\<rparr>,
                           st1)))"

definition CAA_Create ::
  "'w env \<Rightarrow> CAARecord list ResourceData \<Rightarrow> 'w client \<Rightarrow> (CAARecord list, 'w) outcome" where
  "CAA_Create env d st =
     (let zone = d_zone d; name = d_name d; caaRecords = CAA_parseCAARecords d;
          wrap = (\<lambda>caaRecord err.
                    ''failed to create CAA record '' @ caa_Value caaRecord @ '': '' @ err)
      in if length caaRecords = 0 then (Some ''at least one CAA record must be specified'', d, st)
         else (case call_each env
                      (\<lambda>caaRecord. AddCAARecord zone name (caa_Value caaRecord)
                                      (Some (caa_Flag caaRecord)) (Some (caa_Tag caaRecord)))
                      wrap wrap (sort_Slice env CAA_less caaRecords) st of
                 (Some err, st1) \<Rightarrow> (Some err, d, st1)
               | (None, st1) \<Rightarrow>
                   CAA_Read env (d\<lparr>d_Id := zone @ ''/'' @ name @ ''/'' @ ''CAA''\<rparr>) st1))"

definition CAA_diff ::
  "'w env \<Rightarrow> CAARecord list \<Rightarrow> CAARecord list \<Rightarrow> CAARecord list \<times> CAARecord list" where
  "CAA_diff env oldRecords newRecords =
     (let oldCAARecords = sort_Slice env CAA_less oldRecords;
          newCAARecords = sort_Slice env CAA_less newRecords;
          recordsToRemove =
            not_found_loop (\<lambda>oldRecord newRecord. CAA_String oldRecord = CAA_String newRecord)
              oldCAARecords newCAARecords [];
          recordsToAdd =
            not_found_loop (\<lambda>newRecord oldRecord. CAA_String newRecord = CAA_String oldRecord)
              newCAARecords oldCAARecords []
      in (recordsToRemove, recordsToAdd))"

definition CAA_Update ::
  "'w env \<Rightarrow> CAARecord list ResourceData \<Rightarrow> 'w client \<Rightarrow> (CAARecord list, 'w) outcome" where
  "CAA_Update env d st =
     (let zone = d_zone d; name = d_name d
      in if HasChange d then
           (let (recordsToRemove, recordsToAdd) =
                  CAA_diff env (CAA_getOldCAARecords d) (CAA_parseCAARecords d);
                wrap_rm = (\<lambda>record err.
                    ''failed to remove CAA record '' @ caa_Value record @ '': '' @ err);
                wrap_add = (\<lambda>record err.
                    ''failed to add CAA record '' @ caa_Value record @ '': '' @ err)
            in case call_each env
                      (\<lambda>record. RemoveCAARecord zone name (caa_Value record)
                                   (Some (caa_Flag record)) (Some (caa_Tag record)))
                      wrap_rm wrap_rm recordsToRemove st of
                 (Some err, st1) \<Rightarrow> (Some err, d, st1)
               | (None, st1) \<Rightarrow>
                   (case call_each env
                           (\<lambda>record. AddCAARecord zone name (caa_Value record)
                                        (Some (caa_Flag record)) (Some (caa_Tag record)))
                           wrap_add wrap_add recordsToAdd st1 of
                      (Some err, st2) \<Rightarrow> (Some err, d, st2)
                    | (None, st2) \<Rightarrow> CAA_Read env d (InvalidateZoneCache zone st2)))
         else CAA_Read env d st)"

definition CAA_Delete ::
  "'w env \<Rightarrow> CAARecord list ResourceData \<Rightarrow> 'w client \<Rightarrow> (CAARecord list, 'w) outcome" where
  "CAA_Delete env d st =
     (let zone = d_zone d; name = d_name d; caaRecords = CAA_parseCAARecords d;
          wrap = (\<lambda>caaRecord err.
                    ''failed to delete CAA record '' @ caa_Value caaRecord @ '': '' @ err)
      in case call_each env
                (\<lambda>caaRecord. RemoveCAARecord zone name (caa_Value caaRecord)
                                (Some (caa_Flag caaRecord)) (Some (caa_Tag caaRecord)))
                wrap wrap caaRecords st of
           (Some err, st1) \<Rightarrow> (Some err, d, st1)
         | (None, st1) \<Rightarrow> (None, d, InvalidateZoneCache zone st1))"

definition CAA_Import ::
  "'w env \<Rightarrow> CAARecord list ResourceData \<Rightarrow> 'w client \<Rightarrow> (CAARecord list, 'w) outcome" where
  "CAA_Import env d st =
     (case ParseResourceID (d_Id d) of
        Inl err \<Rightarrow> (Some err, d, st)
      | Inr (zone, name) \<Rightarrow> CAA_Read env (d\<lparr>d_zone := zone, d_name := name\<rparr>) st)"


section \<open>The deprecated generic resource (package resource)\<close>

text \<open>
  The resource \<open>regru_dns_record\<close> with its own, older client, whose \<open>doRequest\<close>
  returns the body as it was read.  \<open>d.GetOk("priority")\<close> yields the number unless
  it is 0, and the variable it is copied to starts at 0.  Indexing the last byte of an
  empty \<open>record\<close> panics; the panic is modelled as an error with the text of the panic.
\<close>

record LegacyData =
  l_Id :: string
  l_zone :: string
  l_name :: string
  l_type :: string
  l_record :: string
  l_priority :: int

definition legacy_doRequest ::
  "'w env \<Rightarrow> call \<Rightarrow> 'w client \<Rightarrow> (error + string) \<times> 'w client" where
  "legacy_doRequest env c st =
     (let (resp, w) = http_PostForm env (world st) c;
          result =
            (case resp of
               PostFailed err \<Rightarrow> Inl (''failed to make request: '' @ err)
             | ReadFailed err \<Rightarrow> Inl (''failed to read response: '' @ err)
             | Body body \<Rightarrow> Inr body)
      in (result, st\<lparr>world := w, events := events st @ [Called c result]\<rparr>))"

definition legacy_priority :: "LegacyData \<Rightarrow> int" where
  "legacy_priority d = (if l_type d = ''MX'' \<or> l_type d = ''NS'' then l_priority d else 0)"

definition resourceDnsRecordCreate ::
  "'w env \<Rightarrow> LegacyData \<Rightarrow> 'w client \<Rightarrow> error option \<times> LegacyData \<times> 'w client" where
  "resourceDnsRecordCreate env d st =
     (let zone = l_zone d; name = l_name d; record = l_record d; recordType = l_type d
      in case legacy_doRequest env
                (AddRecord recordType zone name record (Some (legacy_priority d))) st of
           (Inl err, st1) \<Rightarrow> (Some (''failed to create DNS record: '' @ err), d, st1)
         | (Inr _, st1) \<Rightarrow> (None, d\<lparr>l_Id := zone @ ''/'' @ name @ ''/'' @ recordType\<rparr>, st1))"

definition resourceDnsRecordDelete ::
  "'w env \<Rightarrow> LegacyData \<Rightarrow> 'w client \<Rightarrow> error option \<times> LegacyData \<times> 'w client" where
  "resourceDnsRecordDelete env d st =
     (let zone = l_zone d; name = l_name d; recordType = l_type d; record = l_record d;
          withPriority = (recordType = ''MX'' \<or> recordType = ''NS'')
      in if withPriority \<and> record = []
         then (Some ''panic: runtime error: index out of range [-1]'', d, st)
         else (let record1 = (if withPriority \<and> last record \<noteq> CHR ''.'' then record @ ''.''
                              else record)
               in case legacy_doRequest env
                         (RemoveRecord zone name recordType record1 (Some (legacy_priority d)))
                         st of
                    (Inl err, st1) \<Rightarrow>
                      if err = ''RR_NOT_FOUND'' then (None, d, st1)
                      else (Some (''failed to delete DNS record: '' @ err), d, st1)
                  | (Inr _, st1) \<Rightarrow> (None, d\<lparr>l_Id := []\<rparr>, st1)))"

section \<open>Reading the history of the client\<close>

text \<open>An event is a write when it is a call that adds or removes a record.\<close>

fun is_write_call :: "call \<Rightarrow> bool" where
  "is_write_call (GetRecords zone) = False"
| "is_write_call c = True"

fun is_write :: "event \<Rightarrow> bool" where
  "is_write (Called c r) = is_write_call c"
| "is_write e = False"

text \<open>The calls of a history, without their results.\<close>

fun calls_of :: "event list \<Rightarrow> call list" where
  "calls_of [] = []"
| "calls_of (Called c r # es) = c # calls_of es"
| "calls_of (e # es) = calls_of es"

text \<open>
  \<open>invalidated_after_writes zone es\<close>: reading the history \<open>es\<close> backwards, an
  invalidation of \<open>zone\<close> is met before any write.  So the history has an invalidation of
  the zone, and no write follows the last one.
\<close>

definition invalidated_after_writes :: "string \<Rightarrow> event list \<Rightarrow> bool" where
  "invalidated_after_writes zone es =
     (case dropWhile (\<lambda>e. \<not> is_write e \<and> e \<noteq> Invalidated zone) (rev es) of
        [] \<Rightarrow> False
      | e # _ \<Rightarrow> e = Invalidated zone)"

text \<open>A write got through when the client returned a body that
  \<open>CheckAPIResponseForErrors\<close> accepts.\<close>

fun accepted :: "'w env \<Rightarrow> event \<Rightarrow> bool" where
  "accepted env (Called c (Inr body)) =
     (CheckAPIResponseForErrors (unmarshal_APIErrorResponse env) body = None)"
| "accepted env (Called c (Inl err)) = False"
| "accepted env e = True"


text \<open>What the client did between two of its states.\<close>

definition new_events :: "'w client \<Rightarrow> 'w client \<Rightarrow> event list" where
  "new_events st st' = drop (length (events st)) (events st')"

text \<open>Every write of a history got through; a history without a write; a history
  without an invalidation.\<close>

definition writes_accepted :: "'w env \<Rightarrow> event list \<Rightarrow> bool" where
  "writes_accepted env es = list_all (\<lambda>e. is_write e \<longrightarrow> accepted env e) es"

definition no_write :: "event list \<Rightarrow> bool" where
  "no_write es = list_all (\<lambda>e. \<not> is_write e) es"

fun is_invalidation :: "event \<Rightarrow> bool" where
  "is_invalidation (Invalidated zone) = True"
| "is_invalidation e = False"

definition no_invalidation :: "event list \<Rightarrow> bool" where
  "no_invalidation es = list_all (\<lambda>e. \<not> is_invalidation e) es"

section \<open>Content as tokens and gaps\<close>

text \<open>
  The words for the statements about the combined content string of a CAA row.  A token
  is a non-empty string without a space byte, a gap a non-empty string of space bytes.
  \<open>spaced ps\<close> writes out the pairs \<open>ps\<close>, each a gap followed by a token;
  \<open>well_spaced ps trail\<close> says that the pairs are gaps and tokens, where only the first
  gap may be empty, and that \<open>trail\<close> consists of space bytes.  Every string is
  \<open>spaced ps @ trail\<close> for such \<open>ps\<close> and \<open>trail\<close> (\<open>spaced_cover\<close>).
  \<open>ascii\<close>: all bytes are below 128; Go's \<open>strings.Fields\<close> looks for
  the space runes of Unicode as soon as one byte is not.
\<close>

definition is_token :: "string \<Rightarrow> bool" where
  "is_token t = (t \<noteq> [] \<and> list_all (\<lambda>c. \<not> isSpace c) t)"


definition spaced :: "(string \<times> string) list \<Rightarrow> string" where
  "spaced ps = concat (map (\<lambda>(g, t). g @ t) ps)"

definition well_spaced :: "(string \<times> string) list \<Rightarrow> string \<Rightarrow> bool" where
  "well_spaced ps trail =
     (list_all isSpace trail
      \<and> list_all (\<lambda>(g, t). list_all isSpace g \<and> is_token t) ps
      \<and> list_all (\<lambda>(g, t). g \<noteq> []) (tl ps))"


section \<open>An example environment\<close>

text \<open>
  A small environment for the concrete runs below.  The world is the reading of a clock
  that stands still; the provider answers each call with a fixed body; the decoders know
  the body \<open>success\<close> and the body \<open>RECORD_NOT_FOUND\<close>, which stands for the
  provider's error document with that code, and fail on every other body; the zone
  decoder is given; \<open>sort.Slice\<close> is an insertion sort.
\<close>

fun insert_by :: "('a \<Rightarrow> 'a \<Rightarrow> bool) \<Rightarrow> 'a \<Rightarrow> 'a list \<Rightarrow> 'a list" where
  "insert_by lt x [] = [x]"
| "insert_by lt x (y # ys) = (if lt x y then x # y # ys else y # insert_by lt x ys)"

definition insertion_sort :: "('a \<Rightarrow> 'a \<Rightarrow> bool) \<Rightarrow> 'a list \<Rightarrow> 'a list" where
  "insertion_sort lt xs = foldl (\<lambda>acc x. insert_by lt x acc) [] xs"

definition example_env ::
  "(call \<Rightarrow> http_result) \<Rightarrow> (string \<Rightarrow> error + DNSZoneResponse) \<Rightarrow> int env" where
  "example_env provider decode_zone =
     \<lparr>http_PostForm = (\<lambda>w c. (provider c, w)),
      time_Now = (\<lambda>w. (w, w)),
      unmarshal_APIError =
        (\<lambda>body. if body = ''RECORD_NOT_FOUND''
                 then Inr \<lparr>ae_ErrorCode = ''RECORD_NOT_FOUND'', ae_ErrorText = ''not found'',
                           ae_ErrorParams = [], ae_Result = ''error''\<rparr>
                 else if body = ''success''
                 then Inr \<lparr>ae_ErrorCode = [], ae_ErrorText = [], ae_ErrorParams = [],
                           ae_Result = ''success''\<rparr>
                 else Inl ''invalid character''),
      unmarshal_APIResponse =
        (\<lambda>body. if body = ''success'' then Inr \<lparr>ar_Domains = [], ar_Result = ''success''\<rparr>
                 else Inl ''invalid character''),
      unmarshal_APIErrorResponse =
        (\<lambda>body. if body = ''success'' then Inr \<lparr>aer_Domains = [], aer_Result = ''success''\<rparr>
                 else Inl ''invalid character''),
      unmarshal_DNSZoneResponse = decode_zone,
      fmt_map = (\<lambda>m. concat (map (\<lambda>(k, v). k @ '':'' @ v) m)),
      fmt_Errorf = (\<lambda>msg. msg),
      sort_Slice = insertion_sort\<rparr>"

definition example_client :: "int \<Rightarrow> ZoneCache \<Rightarrow> int client" where
  "example_client t zc = \<lparr>world = t, globalZoneCache = zc, events = []\<rparr>"

text \<open>A row of a zone response with the given name, type and content.\<close>

definition example_rr :: "string \<Rightarrow> string \<Rightarrow> string \<Rightarrow> DNSRecord" where
  "example_rr sub rt content =
     \<lparr>rr_Subname = sub, rr_Rectype = rt, rr_Content = content, rr_Prio = 0, rr_State = ''A'',
      rr_Weight = 0, rr_Port = 0, rr_Flag = 0, rr_Tag = []\<rparr>"



section \<open>Properties of the string functions\<close>

lemma Split_no_sep: "sep \<notin> set s \<Longrightarrow> Split s sep = [s]"
proof -
  assume a: "sep \<notin> set s"
  then have d: "dropWhile (\<lambda>c. c \<noteq> sep) s = []" by (auto simp: dropWhile_eq_Nil_conv)
  show ?thesis by (subst Split.simps) (simp only: d list.case)
qed

lemma Split_append: "sep \<notin> set a \<Longrightarrow> Split (a @ sep # r) sep = a # Split r sep"
proof -
  assume a: "sep \<notin> set a"
  then have d: "dropWhile (\<lambda>c. c \<noteq> sep) (a @ sep # r) = sep # r"
    by (subst dropWhile_append2) auto
  have t: "takeWhile (\<lambda>c. c \<noteq> sep) (a @ sep # r) = a"
    using a by (subst takeWhile_append2) auto
  show ?thesis by (subst Split.simps) (simp only: d t list.case)
qed

lemma Split_decomp:
  "Split s sep = [s] \<and> sep \<notin> set s
   \<or> (\<exists>a r. s = a @ sep # r \<and> sep \<notin> set a \<and> Split s sep = a # Split r sep)"
proof (cases "sep \<in> set s")
  case False
  then show ?thesis by (simp add: Split_no_sep)
next
  case True
  then obtain a r where s: "s = a @ sep # r" and a: "sep \<notin> set a"
    by (auto dest: split_list_first)
  then show ?thesis using Split_append [OF a, of r] by blast
qed

lemma Split_not_Nil: "Split s sep \<noteq> []"
  using Split_decomp [of s sep] by auto

lemma length_Split: "length (Split s sep) = Suc (count_list s sep)"
proof (induction s sep rule: Split.induct)
  case (1 s sep)
  show ?case
  proof (cases "sep \<in> set s")
    case False
    then show ?thesis by (simp add: Split_no_sep count_list_0_iff)
  next
    case True
    then obtain a r where s: "s = a @ sep # r" and a: "sep \<notin> set a"
      by (auto dest: split_list_first)
    have d: "dropWhile (\<lambda>c. c \<noteq> sep) s = sep # r"
      unfolding s using a by (subst dropWhile_append2) auto
    have "length (Split r sep) = Suc (count_list r sep)"
      using "1.IH" [OF d] .
    moreover have "count_list a sep = 0" using a by (simp add: count_list_0_iff)
    ultimately show ?thesis
      using Split_append [OF a, of r] s by simp
  qed
qed

lemma Split_two:
  "(Split s sep = [a, b]) = (s = a @ sep # b \<and> sep \<notin> set a \<and> sep \<notin> set b)"
proof
  assume h: "Split s sep = [a, b]"
  from Split_decomp [of s sep] h obtain a' r where
    s: "s = a' @ sep # r" and a': "sep \<notin> set a'" and e: "Split s sep = a' # Split r sep"
    by auto
  from h e have aa: "a' = a" and r: "Split r sep = [b]" by auto
  have "r = b \<and> sep \<notin> set b"
  proof (cases "sep \<in> set r")
    case False
    then show ?thesis using r by (simp add: Split_no_sep)
  next
    case True
    then obtain c q where "r = c @ sep # q" and "sep \<notin> set c"
      by (auto dest: split_list_first)
    then have "Split r sep = c # Split q sep" by (simp add: Split_append)
    then show ?thesis using r Split_not_Nil [of q sep] by simp
  qed
  then show "s = a @ sep # b \<and> sep \<notin> set a \<and> sep \<notin> set b" using s a' aa by simp
next
  assume "s = a @ sep # b \<and> sep \<notin> set a \<and> sep \<notin> set b"
  then show "Split s sep = [a, b]" by (simp add: Split_append Split_no_sep)
qed

lemma ParseResourceID_Inr:
  "(ParseResourceID rid = Inr (zone, name)) = (Split rid CHR ''/'' = [zone, name])"
proof -
  have "length (Split rid CHR ''/'') = 2 \<Longrightarrow> \<exists>a b. Split rid CHR ''/'' = [a, b]"
    by (cases "Split rid CHR ''/''"; cases "tl (Split rid CHR ''/'')") auto
  then show ?thesis
    by (auto simp: ParseResourceID_def Let_def)
qed

lemma ParseResourceID_Inl:
  "length (Split rid CHR ''/'') \<noteq> 2 \<Longrightarrow>
     ParseResourceID rid = Inl (''invalid resource ID format: '' @ rid)"
  by (simp add: ParseResourceID_def Let_def)

lemma of_char_digit_char: "n < 10 \<Longrightarrow> (of_char (digit_char n) :: nat) = 48 + n"
  by (simp add: digit_char_def)

lemma digits_val_snoc: "digits_val (ds @ [c]) = digits_val ds * 10 + (int (of_char c) - 48)"
  by (simp add: digits_val_def)

lemma digits_val_show_nat: "digits_val (show_nat n) = int n"
proof (induction n rule: show_nat.induct)
  case (1 n)
  show ?case
  proof (cases "n < 10")
    case True
    then show ?thesis
      by (subst show_nat.simps) (simp add: digits_val_def of_char_digit_char)
  next
    case False
    then have "digits_val (show_nat (n div 10)) = int (n div 10)" using 1 by simp
    then have "digits_val (show_nat n) = int (n div 10) * 10 + int (n mod 10)"
      using False
      by (subst show_nat.simps) (simp add: digits_val_snoc of_char_digit_char)
    then show ?thesis by (simp add: zdiv_int zmod_int)
  qed
qed

lemma show_nat_inj: "show_nat n = show_nat m \<Longrightarrow> n = m"
  by (metis digits_val_show_nat of_nat_eq_iff)

lemma isDigit_digit_char: "n < 10 \<Longrightarrow> isDigit (digit_char n)"
proof -
  assume "n < 10"
  then have "(of_char (digit_char n) :: nat) = 48 + n" by (rule of_char_digit_char)
  moreover have "(of_char CHR ''0'' :: nat) = 48" by simp
  moreover have "(of_char CHR ''9'' :: nat) = 57" by simp
  ultimately show ?thesis using \<open>n < 10\<close>
    by (simp add: isDigit_def less_eq_char_def)
qed

lemma show_nat_digits: "list_all isDigit (show_nat n)"
proof (induction n rule: show_nat.induct)
  case (1 n)
  show ?case
  proof (cases "n < 10")
    case True
    then show ?thesis by (subst show_nat.simps) (simp add: isDigit_digit_char)
  next
    case False
    then show ?thesis using 1
      by (subst show_nat.simps) (simp add: isDigit_digit_char)
  qed
qed

lemma show_nat_not_Nil: "show_nat n \<noteq> []"
  by (subst show_nat.simps) simp

lemma isDigit_not_underscore: "isDigit c \<Longrightarrow> c \<noteq> CHR ''_'' \<and> c \<noteq> CHR ''-''"
  by (auto simp: isDigit_def less_eq_char_def)

lemma show_nat_no_underscore: "CHR ''_'' \<notin> set (show_nat n)" "CHR ''-'' \<notin> set (show_nat n)"
  using show_nat_digits [of n] isDigit_not_underscore by (auto simp: list_all_iff)

lemma show_int_no_underscore: "CHR ''_'' \<notin> set (show_int i)"
  by (simp add: show_int_def show_nat_no_underscore)

lemma show_int_inj: "show_int i = show_int j \<Longrightarrow> i = j"
proof -
  assume h: "show_int i = show_int j"
  have hd_nat: "hd (show_nat n) \<noteq> CHR ''-''" for n
    using show_nat_no_underscore(2) [of n] show_nat_not_Nil [of n]
    by (cases "show_nat n") auto
  show ?thesis
  proof (cases "i < 0"; cases "j < 0")
    assume "i < 0" "j < 0"
    then have "show_nat (nat (- i)) = show_nat (nat (- j))" using h by (simp add: show_int_def)
    then have "nat (- i) = nat (- j)" by (rule show_nat_inj)
    then show ?thesis using \<open>i < 0\<close> \<open>j < 0\<close> by simp
  next
    assume "i < 0" "\<not> j < 0"
    then have "CHR ''-'' # show_nat (nat (- i)) = show_nat (nat j)" using h by (simp add: show_int_def)
    then have "hd (show_nat (nat j)) = CHR ''-''" by (metis list.sel(1))
    then show ?thesis using hd_nat by simp
  next
    assume "\<not> i < 0" "j < 0"
    then have "CHR ''-'' # show_nat (nat (- j)) = show_nat (nat i)" using h by (simp add: show_int_def)
    then have "hd (show_nat (nat i)) = CHR ''-''" by (metis list.sel(1))
    then show ?thesis using hd_nat by simp
  next
    assume "\<not> i < 0" "\<not> j < 0"
    then have "show_nat (nat i) = show_nat (nat j)" using h by (simp add: show_int_def)
    then have "nat i = nat j" by (rule show_nat_inj)
    then show ?thesis using \<open>\<not> i < 0\<close> \<open>\<not> j < 0\<close> by simp
  qed
qed

lemma append_sep_eq:
  assumes "sep \<notin> set a" "sep \<notin> set a'" "a @ sep # r = a' @ sep # r'"
  shows "a = a' \<and> r = r'"
proof -
  have "takeWhile (\<lambda>c. c \<noteq> sep) (a @ sep # r) = a"
    using assms(1) by (subst takeWhile_append2) auto
  moreover have "takeWhile (\<lambda>c. c \<noteq> sep) (a' @ sep # r') = a'"
    using assms(2) by (subst takeWhile_append2) auto
  ultimately have "a = a'" using assms(3) by simp
  then show ?thesis using assms(3) by simp
qed

subsection \<open>Fields, Join, Trim and Atoi on tokens\<close>









lemma spaced_cover: "\<exists>ps trail. s = spaced ps @ trail \<and> well_spaced ps trail"
proof (induction s rule: length_induct)
  case (1 s)
  let ?l = "takeWhile isSpace s" and ?r = "dropWhile isSpace s"
  show ?case
  proof (cases "?r = []")
    case True
    then have "list_all isSpace s" by (auto simp: list_all_iff dropWhile_eq_Nil_conv)
    then have "s = spaced [] @ s \<and> well_spaced [] s" by (simp add: spaced_def well_spaced_def)
    then show ?thesis by blast
  next
    case False
    let ?t = "takeWhile (\<lambda>x. \<not> isSpace x) ?r" and ?r' = "dropWhile (\<lambda>x. \<not> isSpace x) ?r"
    have h: "\<not> isSpace (hd ?r)" using False by (rule hd_dropWhile)
    then have tne: "?t \<noteq> []" using False by (cases ?r) auto
    have tok: "is_token ?t"
      using tne by (auto simp: is_token_def list_all_iff dest: set_takeWhileD)
    have sp: "list_all isSpace ?l" by (auto simp: list_all_iff dest: set_takeWhileD)
    have r: "?r = ?t @ ?r'" by simp
    have s: "s = ?l @ ?t @ ?r'" by simp
    have "length ?r' < length ?r" using tne by (subst (2) r) (simp del: takeWhile_dropWhile_id)
    also have "length ?r \<le> length s" by (rule length_dropWhile_le)
    finally have "length ?r' < length s" .
    with 1 obtain ps' trail' where
      ih: "?r' = spaced ps' @ trail'" "well_spaced ps' trail'" by blast
    have start: "?r' = [] \<or> isSpace (hd ?r')"
      using hd_dropWhile [of "\<lambda>x. \<not> isSpace x" ?r] by auto
    have gaps: "list_all (\<lambda>(g, t). g \<noteq> []) ps'"
    proof (cases ps')
      case Nil
      then show ?thesis by simp
    next
      case (Cons q qs)
      obtain g' t' where q: "q = (g', t')" by (cases q)
      have t': "is_token t'" using ih(2) Cons q by (simp add: well_spaced_def)
      have "g' \<noteq> []"
      proof
        assume "g' = []"
        then have "?r' = t' @ spaced qs @ trail'" using ih(1) Cons q by (simp add: spaced_def)
        moreover obtain c cs where "t' = c # cs" "\<not> isSpace c"
          using t' by (cases t') (auto simp: is_token_def)
        ultimately show False using start by simp
      qed
      moreover have "list_all (\<lambda>(g, t). g \<noteq> []) qs"
        using ih(2) Cons by (simp add: well_spaced_def)
      ultimately show ?thesis using Cons q by simp
    qed
    have "s = spaced ((?l, ?t) # ps') @ trail'"
      by (subst s, subst ih(1)) (simp add: spaced_def)
    moreover have "well_spaced ((?l, ?t) # ps') trail'"
      using ih(2) sp tok gaps by (simp add: well_spaced_def)
    ultimately show ?thesis by blast
  qed
qed

section \<open>Properties of the search loops\<close>

lemma found_in_iff: "found_in same x ys = (\<exists>y \<in> set ys. same x y)"
  by (induction ys) auto

lemma not_found_loop_filter:
  "not_found_loop same xs others acc = acc @ filter (\<lambda>x. \<not> found_in same x others) xs"
  by (induction xs arbitrary: acc) auto

lemma not_found_loop_eq:
  "not_found_loop (=) xs others [] = filter (\<lambda>x. x \<notin> set others) xs"
  by (simp add: not_found_loop_filter found_in_iff)

lemma not_found_loop_key:
  "not_found_loop (\<lambda>a b. key a = key b) xs others []
     = filter (\<lambda>x. key x \<notin> key ` set others) xs"
  by (auto simp: not_found_loop_filter found_in_iff intro!: filter_cong)

lemma same_MXRecord:
  "(mx_Priority a = mx_Priority b \<and> mx_Server a = mx_Server b) = (a = (b :: MXRecord))"
  by (cases a; cases b) auto

lemma same_NSRecord:
  "(ns_Priority a = ns_Priority b \<and> ns_Server a = ns_Server b) = (a = (b :: NSRecord))"
  by (cases a; cases b) auto

lemma MX_findRecordsToRemove_filter:
  "MX_findRecordsToRemove oldRecords newRecords = filter (\<lambda>r. r \<notin> set newRecords) oldRecords"
  by (simp add: MX_findRecordsToRemove_def same_MXRecord not_found_loop_eq)

lemma MX_findRecordsToAdd_filter:
  "MX_findRecordsToAdd oldRecords newRecords = filter (\<lambda>r. r \<notin> set oldRecords) newRecords"
  by (simp add: MX_findRecordsToAdd_def same_MXRecord not_found_loop_eq)

lemma NS_findRecordsToRemove_filter:
  "NS_findRecordsToRemove oldRecords newRecords = filter (\<lambda>r. r \<notin> set newRecords) oldRecords"
  by (simp add: NS_findRecordsToRemove_def same_NSRecord not_found_loop_eq)

lemma NS_findRecordsToAdd_filter:
  "NS_findRecordsToAdd oldRecords newRecords = filter (\<lambda>r. r \<notin> set oldRecords) newRecords"
  by (simp add: NS_findRecordsToAdd_def same_NSRecord not_found_loop_eq)

lemma Generic_diff_filter:
  "Generic_diff s oldRecords newRecords =
     (filter (\<lambda>r. r \<notin> preprocessor s ` set newRecords) (sort (map (preprocessor s) oldRecords)),
      filter (\<lambda>r. r \<notin> preprocessor s ` set oldRecords) (sort (map (preprocessor s) newRecords)))"
  by (simp add: Generic_diff_def Let_def not_found_loop_eq)

lemma count_list_filter:
  "count_list (filter P xs) x = (if P x then count_list xs x else 0)"
  by (induction xs) auto

lemma count_list_sort: "count_list (sort xs) x = count_list xs x"
proof -
  have "count (mset (sort xs)) x = count (mset xs) x" by simp
  then show ?thesis by (simp only: count_mset)
qed

lemma SRV_String_inj: "SRV_String a = SRV_String b \<Longrightarrow> a = (b :: SRVRecord)"
proof -
  assume h: "SRV_String a = SRV_String b"
  have 1: "show_int (srv_Priority a) = show_int (srv_Priority b)
         \<and> show_int (srv_Weight a) @ ''_'' @ show_int (srv_Port a) @ ''_'' @ srv_Target a
             = show_int (srv_Weight b) @ ''_'' @ show_int (srv_Port b) @ ''_'' @ srv_Target b"
    using h unfolding SRV_String_def
    by (intro append_sep_eq [where sep = "CHR ''_''"]) (simp_all add: show_int_no_underscore)
  then have 2: "show_int (srv_Weight a) = show_int (srv_Weight b)
         \<and> show_int (srv_Port a) @ ''_'' @ srv_Target a
             = show_int (srv_Port b) @ ''_'' @ srv_Target b"
    by (intro append_sep_eq [where sep = "CHR ''_''"]) (simp_all add: show_int_no_underscore)
  then have 3: "show_int (srv_Port a) = show_int (srv_Port b) \<and> srv_Target a = srv_Target b"
    by (intro append_sep_eq [where sep = "CHR ''_''"]) (simp_all add: show_int_no_underscore)
  from 1 2 3 show ?thesis
    by (cases a; cases b) (auto dest: show_int_inj)
qed

lemma sort_key_SRV_perm:
  "mset xs = mset ys \<Longrightarrow> sort_key SRV_String xs = sort_key SRV_String ys"
  by (rule sort_key_inj_key_eq) (auto intro!: inj_onI dest: SRV_String_inj)

lemma SRV_diff_filter:
  "SRV_diff oldRecords newRecords =
     (filter (\<lambda>r. r \<notin> set newRecords) (sort_key SRV_String oldRecords),
      filter (\<lambda>r. r \<notin> set oldRecords) (sort_key SRV_String newRecords))"
proof -
  have "(SRV_String x \<notin> SRV_String ` A) = (x \<notin> A)" for x A
    by (auto dest: SRV_String_inj)
  then show ?thesis
    by (simp add: SRV_diff_def Let_def not_found_loop_key)
qed

text \<open>On SRV records \<open>sort.Slice\<close> has one possible result: the key is injective.\<close>

lemma sorted_by_SRV_String:
  assumes "sorted_by (\<lambda>a b. SRV_String a < SRV_String b) xs ys"
  shows "ys = sort_key SRV_String xs"
proof -
  have m: "mset xs = mset ys" using assms by (simp add: sorted_by_def)
  have "sorted_wrt (\<lambda>a b. SRV_String a \<le> SRV_String b) ys"
    using assms by (simp add: sorted_by_def not_less)
  then have s: "sorted (map SRV_String ys)" by (simp add: sorted_map)
  have i: "inj_on SRV_String (set xs)" by (auto intro!: inj_onI dest: SRV_String_inj)
  from sort_key_inj_key_eq [OF m i s] show ?thesis by simp
qed

text \<open>On CAA records the result of \<open>sort.Slice\<close> is known up to what it promises.\<close>

lemma sorted_by_set: "sorted_by lt xs ys \<Longrightarrow> set ys = set xs"
  by (auto simp: sorted_by_def dest: mset_eq_setD)

lemma sorted_by_count_list: "sorted_by lt xs ys \<Longrightarrow> count_list ys x = count_list xs x"
  by (metis count_mset sorted_by_def)

lemma sorted_by_CAA_keys:
  assumes "sorted_by CAA_less xs ys"
  shows "sorted (map CAA_String (filter P ys))"
proof -
  have "sorted_wrt (\<lambda>a b. CAA_String a \<le> CAA_String b) ys"
    using assms by (simp add: sorted_by_def CAA_less_def not_less)
  then have "sorted_wrt (\<lambda>a b. CAA_String a \<le> CAA_String b) (filter P ys)"
    by (rule sorted_wrt_filter)
  then show ?thesis by (simp add: sorted_map)
qed

lemma CAA_diff_filter:
  "CAA_diff env oldRecords newRecords =
     (filter (\<lambda>r. CAA_String r \<notin> CAA_String ` set (sort_Slice env CAA_less newRecords))
        (sort_Slice env CAA_less oldRecords),
      filter (\<lambda>r. CAA_String r \<notin> CAA_String ` set (sort_Slice env CAA_less oldRecords))
        (sort_Slice env CAA_less newRecords))"
  by (simp add: CAA_diff_def Let_def not_found_loop_key)

lemma CAA_diff_counts:
  assumes o: "sorted_by CAA_less oldRecords (sort_Slice env CAA_less oldRecords)"
    and n: "sorted_by CAA_less newRecords (sort_Slice env CAA_less newRecords)"
  shows "count_list (fst (CAA_diff env oldRecords newRecords)) r
           = (if CAA_String r \<in> CAA_String ` set newRecords then 0 else count_list oldRecords r)"
    and "count_list (snd (CAA_diff env oldRecords newRecords)) r
           = (if CAA_String r \<in> CAA_String ` set oldRecords then 0 else count_list newRecords r)"
    and "sorted (map CAA_String (fst (CAA_diff env oldRecords newRecords)))"
    and "sorted (map CAA_String (snd (CAA_diff env oldRecords newRecords)))"
  using sorted_by_CAA_keys [OF o] sorted_by_CAA_keys [OF n]
  by (simp_all add: CAA_diff_filter count_list_filter sorted_by_set [OF o] sorted_by_set [OF n]
        sorted_by_count_list [OF o] sorted_by_count_list [OF n])

text \<open>The insertion sort of the example environment keeps the promise of
  \<open>sort.Slice\<close> on CAA records.\<close>

lemma insert_by_mset: "mset (insert_by lt x xs) = add_mset x (mset xs)"
  by (induction xs) auto

lemma insert_by_sorted:
  "sorted (map key xs) \<Longrightarrow> sorted (map key (insert_by (\<lambda>a b. key a < key b) x xs))"
proof (induction xs)
  case Nil
  then show ?case by simp
next
  case (Cons y ys)
  have s: "set (insert_by (\<lambda>a b. key a < key b) x ys) = insert x (set ys)"
    by (metis insert_by_mset set_mset_add_mset_insert set_mset_mset)
  show ?case using Cons by (auto simp: s)
qed

lemma insertion_sort_sorted_by:
  "sorted_by CAA_less xs (insertion_sort CAA_less xs)"
proof -
  have m: "mset (foldl (\<lambda>acc x. insert_by lt x acc) acc xs) = mset acc + mset xs" for lt acc
    by (induction xs arbitrary: acc) (auto simp: insert_by_mset)
  have l: "CAA_less = (\<lambda>a b. CAA_String a < CAA_String b)"
    by (auto simp: CAA_less_def fun_eq_iff)
  have s: "sorted (map CAA_String (foldl (\<lambda>acc x. insert_by CAA_less x acc) acc xs))"
    if "sorted (map CAA_String acc)" for acc
    using that unfolding l by (induction xs arbitrary: acc) (auto intro: insert_by_sorted)
  have "sorted_wrt (\<lambda>a b. \<not> CAA_less b a) (insertion_sort CAA_less xs)"
    using s [of "[]"] by (simp add: insertion_sort_def sorted_map CAA_less_def not_less)
  then show ?thesis using m [of CAA_less "[]"] by (simp add: sorted_by_def insertion_sort_def)
qed

lemma example_env_sort_Slice:
  "sorted_by CAA_less xs (sort_Slice (example_env provider decode_zone) CAA_less xs)"
  using insertion_sort_sorted_by by (simp add: example_env_def)

section \<open>What the operations do to the history\<close>

lemma doRequest_run:
  "doRequest env c st = (r, st') \<Longrightarrow>
     events st' = events st @ [Called c r] \<and> globalZoneCache st' = globalZoneCache st"
  by (auto simp: doRequest_def Let_def split: prod.splits)

lemma call_each_run:
  "call_each env mk e1 e2 xs st = (res, st') \<Longrightarrow>
     \<exists>rs. length rs \<le> length xs
        \<and> events st' = events st @ map (\<lambda>(x, r). Called (mk x) r) (zip xs rs)
        \<and> globalZoneCache st' = globalZoneCache st
        \<and> (res = None \<longrightarrow> length rs = length xs
              \<and> (\<forall>r \<in> set rs. \<exists>body. r = Inr body
                     \<and> CheckAPIResponseForErrors (unmarshal_APIErrorResponse env) body = None))"
proof (induction xs arbitrary: st)
  case Nil
  then show ?case by simp
next
  case (Cons x xs)
  obtain r st1 where d: "doRequest env (mk x) st = (r, st1)" by (cases "doRequest env (mk x) st")
  note run = doRequest_run [OF d]
  show ?case
  proof (cases r)
    case (Inl err)
    then have "res = Some (e1 x err)" "st' = st1" using Cons.prems d by simp_all
    then show ?thesis using run Inl by (intro exI [of _ "[r]"]) simp
  next
    case (Inr body)
    show ?thesis
    proof (cases "CheckAPIResponseForErrors (unmarshal_APIErrorResponse env) body")
      case (Some err)
      then have "res = Some (e2 x err)" "st' = st1" using Cons.prems d Inr by simp_all
      then show ?thesis using run Inr by (intro exI [of _ "[r]"]) simp
    next
      case None
      then have "call_each env mk e1 e2 xs st1 = (res, st')" using Cons.prems d Inr by simp
      from Cons.IH [OF this] obtain rs where
        rs: "length rs \<le> length xs"
            "events st' = events st1 @ map (\<lambda>(x, r). Called (mk x) r) (zip xs rs)"
            "globalZoneCache st' = globalZoneCache st1"
            "res = None \<longrightarrow> length rs = length xs
              \<and> (\<forall>r \<in> set rs. \<exists>body. r = Inr body
                     \<and> CheckAPIResponseForErrors (unmarshal_APIErrorResponse env) body = None)"
        by blast
      show ?thesis using rs run Inr None by (intro exI [of _ "r # rs"]) simp
    qed
  qed
qed

text \<open>A loop of calls that ends without error: its calls are those of the whole list,
  in order, and each was accepted.\<close>

lemma call_each_ok:
  assumes "call_each env mk e1 e2 xs st = (None, st')"
  shows "\<exists>evs. events st' = events st @ evs
           \<and> (\<forall>e \<in> set evs. accepted env e \<and> \<not> is_invalidation e)
           \<and> calls_of evs = map mk xs"
proof -
  from call_each_run [OF assms] obtain rs where
    rs: "length rs = length xs"
        "events st' = events st @ map (\<lambda>(x, r). Called (mk x) r) (zip xs rs)"
        "\<forall>r \<in> set rs. \<exists>body. r = Inr body
            \<and> CheckAPIResponseForErrors (unmarshal_APIErrorResponse env) body = None"
    by auto
  have "calls_of (map (\<lambda>(x, r). Called (mk x) r) (zip ys rs)) = map mk ys"
    if "length rs = length ys" for ys
    using that by (induction ys rs rule: list_induct2') auto
  then have c: "calls_of (map (\<lambda>(x, r). Called (mk x) r) (zip xs rs)) = map mk xs"
    using rs(1) by simp
  have "\<forall>e \<in> set (map (\<lambda>(x, r). Called (mk x) r) (zip xs rs)).
          accepted env e \<and> \<not> is_invalidation e"
    using rs(3) by (auto dest!: set_zip_rightD)
  then show ?thesis using rs(2) c by blast
qed

text \<open>A loop of calls, however it ends: its calls are a prefix of those of the list.\<close>

lemma call_each_any:
  assumes "call_each env mk e1 e2 xs st = (res, st')"
  shows "\<exists>evs. events st' = events st @ evs
           \<and> (\<forall>e \<in> set evs. \<not> is_invalidation e)
           \<and> (\<exists>n \<le> length xs. calls_of evs = map mk (take n xs))"
proof -
  from call_each_run [OF assms] obtain rs where
    rs: "length rs \<le> length xs"
        "events st' = events st @ map (\<lambda>(x, r). Called (mk x) r) (zip xs rs)"
    by auto
  have "calls_of (map (\<lambda>(x, r). Called (mk x) r) (zip ys rs)) = map mk (take (length rs) ys)"
    if "length rs \<le> length ys" for ys
    using that
  proof (induction rs arbitrary: ys)
    case Nil
    then show ?case by simp
  next
    case (Cons r rs)
    then show ?case by (cases ys) auto
  qed
  then have c: "calls_of (map (\<lambda>(x, r). Called (mk x) r) (zip xs rs))
                  = map mk (take (length rs) xs)"
    using rs(1) by simp
  have "\<forall>e \<in> set (map (\<lambda>(x, r). Called (mk x) r) (zip xs rs)). \<not> is_invalidation e"
    by auto
  then show ?thesis using rs c by blast
qed

lemma GetRecordsWithCache_run:
  assumes "GetRecordsWithCache env zone st = (r, st')"
  shows "\<exists>evs. events st' = events st @ evs
           \<and> (\<forall>e \<in> set evs. \<not> is_write e \<and> \<not> is_invalidation e)"
proof -
  have "events st' = events st \<or> (\<exists>b. events st' = events st @ [Called (GetRecords zone) b])"
    using assms
    by (auto simp: GetRecordsWithCache_def Let_def doRequest_def
             split: prod.splits if_splits sum.splits)
  then show ?thesis by auto
qed

lemma Generic_Read_run:
  assumes "Generic_Read env s d st = (res, d', st')"
  shows "\<exists>evs. events st' = events st @ evs
           \<and> (\<forall>e \<in> set evs. \<not> is_write e \<and> \<not> is_invalidation e)"
  using assms GetRecordsWithCache_run [of env "d_zone d" st]
  by (auto simp: Generic_Read_def Let_def split: prod.splits sum.splits if_splits)

lemma SRV_Read_run:
  assumes "SRV_Read env d st = (res, d', st')"
  shows "\<exists>evs. events st' = events st @ evs
           \<and> (\<forall>e \<in> set evs. \<not> is_write e \<and> \<not> is_invalidation e)"
  using assms GetRecordsWithCache_run [of env "d_zone d" st]
  by (auto simp: SRV_Read_def Let_def split: prod.splits sum.splits if_splits)

lemma CAA_Read_run:
  assumes "CAA_Read env d st = (res, d', st')"
  shows "\<exists>evs. events st' = events st @ evs
           \<and> (\<forall>e \<in> set evs. \<not> is_write e \<and> \<not> is_invalidation e)"
  using assms GetRecordsWithCache_run [of env "d_zone d" st]
  by (auto simp: CAA_Read_def Let_def split: prod.splits sum.splits if_splits)

lemma invalidated_after_writes_I:
  assumes "\<forall>e \<in> set rs. \<not> is_write e"
  shows "invalidated_after_writes zone (ws @ Invalidated zone # rs)"
proof -
  have "case dropWhile (\<lambda>e. \<not> is_write e \<and> e \<noteq> Invalidated zone) (xs @ Invalidated zone # ys) of
          [] \<Rightarrow> False | e # _ \<Rightarrow> e = Invalidated zone"
    if "\<forall>e \<in> set xs. \<not> is_write e" for xs ys
    using that by (induction xs) auto
  from this [of "rev rs" "rev ws"] assms show ?thesis
    by (simp add: invalidated_after_writes_def)
qed

lemma not_invalidated_after_writes:
  assumes "\<forall>e \<in> set es. \<not> is_invalidation e"
  shows "\<not> invalidated_after_writes zone es"
proof -
  have "Invalidated zone \<notin> set es" using assms by auto
  then have "Invalidated zone \<notin> set (dropWhile (\<lambda>e. \<not> is_write e \<and> e \<noteq> Invalidated zone) (rev es))"
    by (metis set_dropWhileD set_rev)
  then show ?thesis
    by (auto simp: invalidated_after_writes_def split: list.splits)
qed

lemma new_events_append: "events st' = events st @ evs \<Longrightarrow> new_events st st' = evs"
  by (simp add: new_events_def)

text \<open>The end of every write path: the accepted writes \<open>ws\<close>, then the invalidation,
  then at most reads \<open>rs\<close>.\<close>

lemma run_of_write_path:
  assumes "events st1 = events st @ ws" and "\<forall>e \<in> set ws. is_write e \<longrightarrow> accepted env e"
    and "events st' = events (InvalidateZoneCache zone st1) @ rs"
    and "\<forall>e \<in> set rs. \<not> is_write e"
  shows "writes_accepted env (new_events st st')
         \<and> invalidated_after_writes zone (new_events st st')"
proof -
  have ev: "events st' = events st @ (ws @ Invalidated zone # rs)"
    using assms(1,3) by (simp add: InvalidateZoneCache_def)
  have "invalidated_after_writes zone (ws @ Invalidated zone # rs)"
    using assms(4) by (rule invalidated_after_writes_I)
  moreover have "\<forall>e \<in> set (ws @ Invalidated zone # rs). is_write e \<longrightarrow> accepted env e"
    using assms(2,4) by auto
  ultimately show ?thesis
    by (simp add: new_events_append [OF ev] writes_accepted_def list_all_iff)
qed

lemma run_of_write_path_end:
  assumes "events st1 = events st @ ws" and "\<forall>e \<in> set ws. is_write e \<longrightarrow> accepted env e"
  shows "writes_accepted env (new_events st (InvalidateZoneCache zone st1))
         \<and> invalidated_after_writes zone (new_events st (InvalidateZoneCache zone st1))"
  using run_of_write_path [OF assms, of "InvalidateZoneCache zone st1" zone "[]"] by simp

text \<open>A path without invalidation: the accepted writes \<open>ws\<close>, then at most reads.\<close>

lemma run_without_invalidation:
  assumes "events st1 = events st @ ws"
    and "\<forall>e \<in> set ws. accepted env e \<and> \<not> is_invalidation e"
    and "events st' = events st1 @ rs"
    and "\<forall>e \<in> set rs. \<not> is_write e \<and> \<not> is_invalidation e"
  shows "writes_accepted env (new_events st st') \<and> no_invalidation (new_events st st')
         \<and> calls_of (new_events st st') = calls_of ws @ calls_of rs"
proof -
  have ev: "events st' = events st @ (ws @ rs)" using assms(1,3) by simp
  have c: "calls_of (xs @ ys) = calls_of xs @ calls_of ys" for xs ys
    by (induction xs rule: calls_of.induct) auto
  show ?thesis using assms(2,4)
    by (auto simp: new_events_append [OF ev] writes_accepted_def no_invalidation_def
          list_all_iff c)
qed

lemma calls_of_append: "calls_of (xs @ ys) = calls_of xs @ calls_of ys"
  by (induction xs rule: calls_of.induct) auto


lemma call_each_single:
  assumes "call_each env mk e1 e2 [x] st = (res, st')"
  shows "\<exists>r. events st' = events st @ [Called (mk x) r]
           \<and> (res = None \<longrightarrow> accepted env (Called (mk x) r))"
proof -
  obtain r st1 where d: "doRequest env (mk x) st = (r, st1)" by (cases "doRequest env (mk x) st")
  from doRequest_run [OF d] have ev: "events st1 = events st @ [Called (mk x) r]" by simp
  have "st' = st1" using assms d by (auto split: sum.splits option.splits)
  moreover have "res = None \<longrightarrow> accepted env (Called (mk x) r)"
    using assms d by (auto split: sum.splits option.splits)
  ultimately show ?thesis using ev by blast
qed


subsection \<open>The generic strategy\<close>

lemma Generic_Create_history:
  assumes "Generic_Create env s d st = (None, d', st')"
  shows "writes_accepted env (new_events st st') \<and> no_invalidation (new_events st st')"
proof -
  from assms obtain mk e1 e2 xs st1 d1 where
    1: "call_each env mk e1 e2 (xs :: string list) st = (None, st1)"
    and 2: "Generic_Read env s d1 st1 = (None, d', st')"
    by (auto simp: Generic_Create_def Let_def simp del: call_each.simps
          split: prod.splits option.splits if_splits)
  from call_each_ok [OF 1] obtain ws where
    ws: "events st1 = events st @ ws" "\<forall>e \<in> set ws. accepted env e \<and> \<not> is_invalidation e"
    by blast
  from Generic_Read_run [OF 2] obtain rs where
    rs: "events st' = events st1 @ rs" "\<forall>e \<in> set rs. \<not> is_write e \<and> \<not> is_invalidation e"
    by blast
  from run_without_invalidation [OF ws rs] show ?thesis by simp
qed

lemma Generic_Update_history:
  assumes "Generic_Update env s d st = (None, d', st')"
  shows "writes_accepted env (new_events st st')
         \<and> (if HasChange d then invalidated_after_writes (d_zone d) (new_events st st')
             else no_write (new_events st st') \<and> no_invalidation (new_events st st'))"
proof (cases "HasChange d")
  case False
  then have "Generic_Read env s d st = (None, d', st')"
    using assms by (simp add: Generic_Update_def Let_def)
  from Generic_Read_run [OF this] obtain rs where
    rs: "events st' = events st @ rs" "\<forall>e \<in> set rs. \<not> is_write e \<and> \<not> is_invalidation e"
    by blast
  show ?thesis using False rs(2)
    by (auto simp: new_events_append [OF rs(1)] writes_accepted_def no_write_def
          no_invalidation_def list_all_iff)
next
  case True
  from assms True obtain mk e1 e2 xs st1 mk' e1' e2' xs' st2 where
    1: "call_each env mk e1 e2 (xs :: string list) st = (None, st1)"
    and 2: "call_each env mk' e1' e2' (xs' :: string list) st1 = (None, st2)"
    and 3: "Generic_Read env s d (InvalidateZoneCache (d_zone d) st2) = (None, d', st')"
    by (auto simp: Generic_Update_def Let_def simp del: call_each.simps
          split: prod.splits option.splits)
  from call_each_ok [OF 1] obtain ws where
    ws: "events st1 = events st @ ws" "\<forall>e \<in> set ws. is_write e \<longrightarrow> accepted env e" by blast
  from call_each_ok [OF 2] obtain ws' where
    ws': "events st2 = events st1 @ ws'" "\<forall>e \<in> set ws'. is_write e \<longrightarrow> accepted env e"
    by blast
  from Generic_Read_run [OF 3] obtain rs where
    rs: "events st' = events (InvalidateZoneCache (d_zone d) st2) @ rs"
        "\<forall>e \<in> set rs. \<not> is_write e" by blast
  have a: "events st2 = events st @ (ws @ ws')" using ws ws' by simp
  have b: "\<forall>e \<in> set (ws @ ws'). is_write e \<longrightarrow> accepted env e" using ws ws' by auto
  show ?thesis using run_of_write_path [OF a b rs] True by simp
qed

lemma Generic_Delete_history:
  assumes "Generic_Delete env s d st = (None, d', st')"
  shows "writes_accepted env (new_events st st')
         \<and> invalidated_after_writes (d_zone d) (new_events st st')"
proof -
  from assms obtain mk e1 e2 xs st1 where
    1: "call_each env mk e1 e2 (xs :: string list) st = (None, st1)"
    and 2: "st' = InvalidateZoneCache (d_zone d) st1"
    by (auto simp: Generic_Delete_def Let_def simp del: call_each.simps
          split: prod.splits option.splits if_splits)
  from call_each_ok [OF 1] obtain ws where
    "events st1 = events st @ ws" "\<forall>e \<in> set ws. is_write e \<longrightarrow> accepted env e" by blast
  then show ?thesis unfolding 2 by (rule run_of_write_path_end)
qed

subsection \<open>The MX strategy\<close>

lemma MX_Create_history:
  assumes "MX_Create env d st = (None, d', st')"
  shows "writes_accepted env (new_events st st')
         \<and> invalidated_after_writes (d_zone d) (new_events st st')"
proof -
  from assms obtain mk e1 e2 xs st1 where
    1: "call_each env mk e1 e2 (xs :: (int \<times> string) list) st = (None, st1)"
    and 2: "st' = InvalidateZoneCache (d_zone d) st1"
    by (auto simp: MX_Create_def Let_def simp del: call_each.simps
          split: prod.splits option.splits if_splits)
  from call_each_ok [OF 1] obtain ws where
    "events st1 = events st @ ws" "\<forall>e \<in> set ws. is_write e \<longrightarrow> accepted env e" by blast
  then show ?thesis unfolding 2 by (rule run_of_write_path_end)
qed

lemma MX_Update_history:
  assumes "MX_Update env d st = (None, d', st')"
  shows "writes_accepted env (new_events st st')
         \<and> invalidated_after_writes (d_zone d) (new_events st st')"
proof -
  from assms obtain mk e1 e2 xs st1 mk' e1' e2' xs' st2 where
    1: "call_each env mk e1 e2 (xs :: MXRecord list) st = (None, st1)"
    and 2: "call_each env mk' e1' e2' (xs' :: MXRecord list) st1 = (None, st2)"
    and 3: "st' = InvalidateZoneCache (d_zone d) st2"
    by (auto simp: MX_Update_def Let_def simp del: call_each.simps
          split: prod.splits option.splits if_splits)
  from call_each_ok [OF 1] obtain ws where
    ws: "events st1 = events st @ ws" "\<forall>e \<in> set ws. is_write e \<longrightarrow> accepted env e" by blast
  from call_each_ok [OF 2] obtain ws' where
    ws': "events st2 = events st1 @ ws'" "\<forall>e \<in> set ws'. is_write e \<longrightarrow> accepted env e"
    by blast
  have "events st2 = events st @ (ws @ ws')" using ws ws' by simp
  moreover have "\<forall>e \<in> set (ws @ ws'). is_write e \<longrightarrow> accepted env e" using ws ws' by auto
  ultimately show ?thesis unfolding 3 by (rule run_of_write_path_end)
qed

lemma MX_Delete_history:
  assumes "MX_Delete env d st = (None, d', st')"
  shows "writes_accepted env (new_events st st')
         \<and> invalidated_after_writes (d_zone d) (new_events st st')"
proof -
  from assms obtain r st0 mk e1 e2 xs st1 where
    0: "GetRecordsWithCache env (d_zone d) st = (r, st0)"
    and 1: "call_each env mk e1 e2 (xs :: DNSRecord list) st0 = (None, st1)"
    and 2: "st' = InvalidateZoneCache (d_zone d) st1"
    by (auto simp: MX_Delete_def Let_def simp del: call_each.simps
          split: prod.splits option.splits sum.splits)
  from GetRecordsWithCache_run [OF 0] obtain rs where
    rs: "events st0 = events st @ rs" "\<forall>e \<in> set rs. \<not> is_write e" by blast
  from call_each_ok [OF 1] obtain ws where
    ws: "events st1 = events st0 @ ws" "\<forall>e \<in> set ws. is_write e \<longrightarrow> accepted env e" by blast
  have "events st1 = events st @ (rs @ ws)" using rs ws by simp
  moreover have "\<forall>e \<in> set (rs @ ws). is_write e \<longrightarrow> accepted env e" using rs ws by auto
  ultimately show ?thesis unfolding 2 by (rule run_of_write_path_end)
qed

subsection \<open>The NS strategy\<close>

lemma NS_Create_history:
  assumes "NS_Create env d st = (None, d', st')"
  shows "writes_accepted env (new_events st st')
         \<and> invalidated_after_writes (d_zone d) (new_events st st')"
proof -
  from assms obtain mk e1 e2 xs st1 where
    1: "call_each env mk e1 e2 (xs :: (int \<times> string) list) st = (None, st1)"
    and 2: "st' = InvalidateZoneCache (d_zone d) st1"
    by (auto simp: NS_Create_def Let_def simp del: call_each.simps
          split: prod.splits option.splits if_splits)
  from call_each_ok [OF 1] obtain ws where
    "events st1 = events st @ ws" "\<forall>e \<in> set ws. is_write e \<longrightarrow> accepted env e" by blast
  then show ?thesis unfolding 2 by (rule run_of_write_path_end)
qed

lemma NS_Update_history:
  assumes "NS_Update env d st = (None, d', st')"
  shows "writes_accepted env (new_events st st')
         \<and> invalidated_after_writes (d_zone d) (new_events st st')"
proof -
  from assms obtain mk e1 e2 xs st1 mk' e1' e2' xs' st2 where
    1: "call_each env mk e1 e2 (xs :: NSRecord list) st = (None, st1)"
    and 2: "call_each env mk' e1' e2' (xs' :: NSRecord list) st1 = (None, st2)"
    and 3: "st' = InvalidateZoneCache (d_zone d) st2"
    by (auto simp: NS_Update_def Let_def simp del: call_each.simps
          split: prod.splits option.splits if_splits)
  from call_each_ok [OF 1] obtain ws where
    ws: "events st1 = events st @ ws" "\<forall>e \<in> set ws. is_write e \<longrightarrow> accepted env e" by blast
  from call_each_ok [OF 2] obtain ws' where
    ws': "events st2 = events st1 @ ws'" "\<forall>e \<in> set ws'. is_write e \<longrightarrow> accepted env e"
    by blast
  have "events st2 = events st @ (ws @ ws')" using ws ws' by simp
  moreover have "\<forall>e \<in> set (ws @ ws'). is_write e \<longrightarrow> accepted env e" using ws ws' by auto
  ultimately show ?thesis unfolding 3 by (rule run_of_write_path_end)
qed

lemma NS_Delete_history:
  assumes "NS_Delete env d st = (None, d', st')"
  shows "writes_accepted env (new_events st st')
         \<and> invalidated_after_writes (d_zone d) (new_events st st')"
proof -
  from assms obtain mk e1 e2 xs st1 where
    1: "call_each env mk e1 e2 (xs :: (int \<times> string) list) st = (None, st1)"
    and 2: "st' = InvalidateZoneCache (d_zone d) st1"
    by (auto simp: NS_Delete_def Let_def simp del: call_each.simps
          split: prod.splits option.splits if_splits)
  from call_each_ok [OF 1] obtain ws where
    "events st1 = events st @ ws" "\<forall>e \<in> set ws. is_write e \<longrightarrow> accepted env e" by blast
  then show ?thesis unfolding 2 by (rule run_of_write_path_end)
qed

subsection \<open>The CNAME strategy\<close>

lemma CNAME_Create_history:
  assumes "CNAME_Create env d st = (None, d', st')"
  shows "writes_accepted env (new_events st st')
         \<and> invalidated_after_writes (d_zone d) (new_events st st')"
proof -
  from assms obtain mk e1 e2 xs st1 where
    1: "call_each env mk e1 e2 (xs :: string list) st = (None, st1)"
    and 2: "st' = InvalidateZoneCache (d_zone d) st1"
    by (auto simp: CNAME_Create_def Let_def simp del: call_each.simps
          split: prod.splits option.splits if_splits)
  from call_each_ok [OF 1] obtain ws where
    "events st1 = events st @ ws" "\<forall>e \<in> set ws. is_write e \<longrightarrow> accepted env e" by blast
  then show ?thesis unfolding 2 by (rule run_of_write_path_end)
qed

lemma CNAME_Update_history:
  assumes "CNAME_Update env d st = (None, d', st')"
  shows "writes_accepted env (new_events st st')
         \<and> invalidated_after_writes (d_zone d) (new_events st st')"
proof -
  from assms obtain mk e1 e2 xs st1 mk' e1' e2' xs' st2 where
    1: "call_each env mk e1 e2 (xs :: string list) st = (None, st1)"
    and 2: "call_each env mk' e1' e2' (xs' :: string list) st1 = (None, st2)"
    and 3: "st' = InvalidateZoneCache (d_zone d) st2"
    by (auto simp: CNAME_Update_def Let_def simp del: call_each.simps
          split: prod.splits option.splits if_splits)
  from call_each_ok [OF 1] obtain ws where
    ws: "events st1 = events st @ ws" "\<forall>e \<in> set ws. is_write e \<longrightarrow> accepted env e" by blast
  from call_each_ok [OF 2] obtain ws' where
    ws': "events st2 = events st1 @ ws'" "\<forall>e \<in> set ws'. is_write e \<longrightarrow> accepted env e"
    by blast
  have "events st2 = events st @ (ws @ ws')" using ws ws' by simp
  moreover have "\<forall>e \<in> set (ws @ ws'). is_write e \<longrightarrow> accepted env e" using ws ws' by auto
  ultimately show ?thesis unfolding 3 by (rule run_of_write_path_end)
qed

lemma CNAME_Delete_history:
  assumes "CNAME_Delete env d st = (None, d', st')"
  shows "writes_accepted env (new_events st st')
         \<and> invalidated_after_writes (d_zone d) (new_events st st')"
proof -
  from assms obtain mk e1 e2 xs st1 where
    1: "call_each env mk e1 e2 (xs :: string list) st = (None, st1)"
    and 2: "st' = InvalidateZoneCache (d_zone d) st1"
    by (auto simp: CNAME_Delete_def Let_def simp del: call_each.simps
          split: prod.splits option.splits if_splits)
  from call_each_ok [OF 1] obtain ws where
    "events st1 = events st @ ws" "\<forall>e \<in> set ws. is_write e \<longrightarrow> accepted env e" by blast
  then show ?thesis unfolding 2 by (rule run_of_write_path_end)
qed

subsection \<open>The SRV strategy\<close>

lemma SRV_Create_history:
  assumes "SRV_Create env d st = (None, d', st')"
  shows "writes_accepted env (new_events st st') \<and> no_invalidation (new_events st st')"
proof -
  from assms obtain mk e1 e2 xs st1 d1 where
    1: "call_each env mk e1 e2 (xs :: SRVRecord list) st = (None, st1)"
    and 2: "SRV_Read env d1 st1 = (None, d', st')"
    by (auto simp: SRV_Create_def Let_def simp del: call_each.simps
          split: prod.splits option.splits if_splits)
  from call_each_ok [OF 1] obtain ws where
    ws: "events st1 = events st @ ws" "\<forall>e \<in> set ws. accepted env e \<and> \<not> is_invalidation e"
    by blast
  from SRV_Read_run [OF 2] obtain rs where
    rs: "events st' = events st1 @ rs" "\<forall>e \<in> set rs. \<not> is_write e \<and> \<not> is_invalidation e"
    by blast
  from run_without_invalidation [OF ws rs] show ?thesis by simp
qed

lemma SRV_Update_history:
  assumes "SRV_Update env d st = (None, d', st')"
  shows "writes_accepted env (new_events st st')
         \<and> (if HasChange d then invalidated_after_writes (d_zone d) (new_events st st')
             else no_write (new_events st st') \<and> no_invalidation (new_events st st'))"
proof (cases "HasChange d")
  case False
  then have "SRV_Read env d st = (None, d', st')"
    using assms by (simp add: SRV_Update_def Let_def)
  from SRV_Read_run [OF this] obtain rs where
    rs: "events st' = events st @ rs" "\<forall>e \<in> set rs. \<not> is_write e \<and> \<not> is_invalidation e"
    by blast
  show ?thesis using False rs(2)
    by (auto simp: new_events_append [OF rs(1)] writes_accepted_def no_write_def
          no_invalidation_def list_all_iff)
next
  case True
  from assms True obtain mk e1 e2 xs st1 mk' e1' e2' xs' st2 where
    1: "call_each env mk e1 e2 (xs :: SRVRecord list) st = (None, st1)"
    and 2: "call_each env mk' e1' e2' (xs' :: SRVRecord list) st1 = (None, st2)"
    and 3: "SRV_Read env d (InvalidateZoneCache (d_zone d) st2) = (None, d', st')"
    by (auto simp: SRV_Update_def Let_def simp del: call_each.simps
          split: prod.splits option.splits)
  from call_each_ok [OF 1] obtain ws where
    ws: "events st1 = events st @ ws" "\<forall>e \<in> set ws. is_write e \<longrightarrow> accepted env e" by blast
  from call_each_ok [OF 2] obtain ws' where
    ws': "events st2 = events st1 @ ws'" "\<forall>e \<in> set ws'. is_write e \<longrightarrow> accepted env e"
    by blast
  from SRV_Read_run [OF 3] obtain rs where
    rs: "events st' = events (InvalidateZoneCache (d_zone d) st2) @ rs"
        "\<forall>e \<in> set rs. \<not> is_write e" by blast
  have a: "events st2 = events st @ (ws @ ws')" using ws ws' by simp
  have b: "\<forall>e \<in> set (ws @ ws'). is_write e \<longrightarrow> accepted env e" using ws ws' by auto
  show ?thesis using run_of_write_path [OF a b rs] True by simp
qed

lemma SRV_Delete_history:
  assumes "SRV_Delete env d st = (None, d', st')"
  shows "writes_accepted env (new_events st st')
         \<and> invalidated_after_writes (d_zone d) (new_events st st')"
proof -
  from assms obtain mk e1 e2 xs st1 where
    1: "call_each env mk e1 e2 (xs :: SRVRecord list) st = (None, st1)"
    and 2: "st' = InvalidateZoneCache (d_zone d) st1"
    by (auto simp: SRV_Delete_def Let_def simp del: call_each.simps
          split: prod.splits option.splits if_splits)
  from call_each_ok [OF 1] obtain ws where
    "events st1 = events st @ ws" "\<forall>e \<in> set ws. is_write e \<longrightarrow> accepted env e" by blast
  then show ?thesis unfolding 2 by (rule run_of_write_path_end)
qed

subsection \<open>The CAA strategy\<close>

lemma CAA_Create_history:
  assumes "CAA_Create env d st = (None, d', st')"
  shows "writes_accepted env (new_events st st') \<and> no_invalidation (new_events st st')"
proof -
  from assms obtain mk e1 e2 xs st1 d1 where
    1: "call_each env mk e1 e2 (xs :: CAARecord list) st = (None, st1)"
    and 2: "CAA_Read env d1 st1 = (None, d', st')"
    by (auto simp: CAA_Create_def Let_def simp del: call_each.simps
          split: prod.splits option.splits if_splits)
  from call_each_ok [OF 1] obtain ws where
    ws: "events st1 = events st @ ws" "\<forall>e \<in> set ws. accepted env e \<and> \<not> is_invalidation e"
    by blast
  from CAA_Read_run [OF 2] obtain rs where
    rs: "events st' = events st1 @ rs" "\<forall>e \<in> set rs. \<not> is_write e \<and> \<not> is_invalidation e"
    by blast
  from run_without_invalidation [OF ws rs] show ?thesis by simp
qed

lemma CAA_Update_history:
  assumes "CAA_Update env d st = (None, d', st')"
  shows "writes_accepted env (new_events st st')
         \<and> (if HasChange d then invalidated_after_writes (d_zone d) (new_events st st')
             else no_write (new_events st st') \<and> no_invalidation (new_events st st'))"
proof (cases "HasChange d")
  case False
  then have "CAA_Read env d st = (None, d', st')"
    using assms by (simp add: CAA_Update_def Let_def)
  from CAA_Read_run [OF this] obtain rs where
    rs: "events st' = events st @ rs" "\<forall>e \<in> set rs. \<not> is_write e \<and> \<not> is_invalidation e"
    by blast
  show ?thesis using False rs(2)
    by (auto simp: new_events_append [OF rs(1)] writes_accepted_def no_write_def
          no_invalidation_def list_all_iff)
next
  case True
  from assms True obtain mk e1 e2 xs st1 mk' e1' e2' xs' st2 where
    1: "call_each env mk e1 e2 (xs :: CAARecord list) st = (None, st1)"
    and 2: "call_each env mk' e1' e2' (xs' :: CAARecord list) st1 = (None, st2)"
    and 3: "CAA_Read env d (InvalidateZoneCache (d_zone d) st2) = (None, d', st')"
    by (auto simp: CAA_Update_def Let_def simp del: call_each.simps
          split: prod.splits option.splits)
  from call_each_ok [OF 1] obtain ws where
    ws: "events st1 = events st @ ws" "\<forall>e \<in> set ws. is_write e \<longrightarrow> accepted env e" by blast
  from call_each_ok [OF 2] obtain ws' where
    ws': "events st2 = events st1 @ ws'" "\<forall>e \<in> set ws'. is_write e \<longrightarrow> accepted env e"
    by blast
  from CAA_Read_run [OF 3] obtain rs where
    rs: "events st' = events (InvalidateZoneCache (d_zone d) st2) @ rs"
        "\<forall>e \<in> set rs. \<not> is_write e" by blast
  have a: "events st2 = events st @ (ws @ ws')" using ws ws' by simp
  have b: "\<forall>e \<in> set (ws @ ws'). is_write e \<longrightarrow> accepted env e" using ws ws' by auto
  show ?thesis using run_of_write_path [OF a b rs] True by simp
qed

lemma CAA_Delete_history:
  assumes "CAA_Delete env d st = (None, d', st')"
  shows "writes_accepted env (new_events st st')
         \<and> invalidated_after_writes (d_zone d) (new_events st st')"
proof -
  from assms obtain mk e1 e2 xs st1 where
    1: "call_each env mk e1 e2 (xs :: CAARecord list) st = (None, st1)"
    and 2: "st' = InvalidateZoneCache (d_zone d) st1"
    by (auto simp: CAA_Delete_def Let_def simp del: call_each.simps
          split: prod.splits option.splits if_splits)
  from call_each_ok [OF 1] obtain ws where
    "events st1 = events st @ ws" "\<forall>e \<in> set ws. is_write e \<longrightarrow> accepted env e" by blast
  then show ?thesis unfolding 2 by (rule run_of_write_path_end)
qed

section \<open>Responses that cannot be decoded\<close>

text \<open>
  Claim C10.  When the response cannot be decoded into \<open>APIErrorResponse\<close>,
  \<open>CheckAPIResponseForErrors\<close> returns nil: the response counts as a success,
  whatever its bytes are.
\<close>

theorem C10_undecodable_response_is_accepted:
  "unmarshal response = Inl err \<Longrightarrow> CheckAPIResponseForErrors unmarshal response = None"
  by (simp add: CheckAPIResponseForErrors_def)

theorem C10_undecodable_response_is_accepted_witness:
  "unmarshal_APIErrorResponse (example_env (\<lambda>c. Body ''success'') (\<lambda>b. Inl ''eof'')) ''<html>''
     = Inl ''invalid character''
   \<and> CheckAPIResponseForErrors
        (unmarshal_APIErrorResponse (example_env (\<lambda>c. Body ''success'') (\<lambda>b. Inl ''eof'')))
        ''<html>'' = None"
  using C10_undecodable_response_is_accepted
          [of "unmarshal_APIErrorResponse (example_env (\<lambda>c. Body ''success'') (\<lambda>b. Inl ''eof''))"
              "''<html>''" "''invalid character''"]
  by (simp add: example_env_def)

text \<open>A decoded response with a failed domain is an error, so the function is not
  constantly nil.\<close>

lemma CheckAPIResponseForErrors_failed_domain:
  assumes "unmarshal response = Inr r"
    and "filter (\<lambda>domain. ed_Result domain = ''error'') (aer_Domains r) \<noteq> []"
  shows "CheckAPIResponseForErrors unmarshal response \<noteq> None"
  using assms
  by (auto simp: CheckAPIResponseForErrors_def Let_def split: list.splits)

section \<open>The zone cache within and after its time to live\<close>

text \<open>
  Claim C6.  After \<open>Set\<close> at time \<open>t0\<close>, a \<open>Get\<close> of the same zone at time \<open>t\<close>
  returns the data and a hit as long as at most 30 seconds have passed (so in particular
  while less than 30 seconds have passed); once more than 30 seconds have passed it
  returns a miss and the entry is gone from the cache; after \<open>Invalidate\<close> it returns a
  miss at any time.
\<close>

theorem C6_get_after_set:
  "(t - t0 \<le> 30 * Second \<longrightarrow>
      ZoneCache_Get t (ZoneCache_Set t0 zc zone data) zone
        = ((data, True), ZoneCache_Set t0 zc zone data))
   \<and> (t - t0 > 30 * Second \<longrightarrow>
      ZoneCache_Get t (ZoneCache_Set t0 zc zone data) zone = (([], False), zc(zone := None)))
   \<and> ZoneCache_Get t (ZoneCache_Invalidate (ZoneCache_Set t0 zc zone data) zone) zone
        = (([], False), zc(zone := None))"
  by (auto simp: ZoneCache_Get_def ZoneCache_Set_def ZoneCache_Invalidate_def Sub_def
                 Second_def Let_def)

theorem C6_get_after_set_witness:
  "(29 * Second - 0 \<le> 30 * Second
     \<and> fst (ZoneCache_Get (29 * Second) (ZoneCache_Set 0 NewZoneCache ''example.com'' ''rrs'')
               ''example.com'') = (''rrs'', True))
   \<and> (31 * Second - 0 > 30 * Second
     \<and> ZoneCache_Get (31 * Second) (ZoneCache_Set 0 NewZoneCache ''example.com'' ''rrs'')
               ''example.com'' = (([], False), NewZoneCache))"
  using C6_get_after_set [of "29 * Second" 0 NewZoneCache "''example.com''" "''rrs''"]
        C6_get_after_set [of "31 * Second" 0 NewZoneCache "''example.com''" "''rrs''"]
  by (simp add: Second_def NewZoneCache_def)

section \<open>Resource identifiers on import\<close>

text \<open>
  Claim C9.  \<open>ParseResourceID\<close> succeeds with \<open>(zone, name)\<close> exactly when the
  identifier is \<open>zone/name\<close> with no further slash, that is when splitting on the slash
  gives two parts (one slash in the identifier); in every other case it returns the error
  \<open>invalid resource ID format\<close>, and \<open>Import\<close> of every strategy returns that error
  with the resource data and the client untouched: no call was made and the cache was
  not read.
\<close>

theorem C9_import_identifier:
  "((ParseResourceID rid = Inr (zone, name))
      = (rid = zone @ ''/'' @ name \<and> CHR ''/'' \<notin> set zone \<and> CHR ''/'' \<notin> set name))
   \<and> ((\<exists>zone name. ParseResourceID rid = Inr (zone, name)) = (length (Split rid CHR ''/'') = 2))
   \<and> length (Split rid CHR ''/'') = Suc (count_list rid CHR ''/'')
   \<and> (length (Split rid CHR ''/'') \<noteq> 2 \<longrightarrow>
        ParseResourceID rid = Inl (''invalid resource ID format: '' @ rid)
        \<and> (d_Id dg = rid \<longrightarrow> Generic_Import env s dg st = (Some (''invalid resource ID format: '' @ rid), dg, st))
        \<and> (d_Id dp = rid \<longrightarrow> MX_Import env dp st = (Some (''invalid resource ID format: '' @ rid), dp, st))
        \<and> (d_Id dp = rid \<longrightarrow> NS_Import env dp st = (Some (''invalid resource ID format: '' @ rid), dp, st))
        \<and> (d_Id dc = rid \<longrightarrow> CNAME_Import env dc st = (Some (''invalid resource ID format: '' @ rid), dc, st))
        \<and> (d_Id ds = rid \<longrightarrow> SRV_Import env ds st = (Some (''invalid resource ID format: '' @ rid), ds, st))
        \<and> (d_Id da = rid \<longrightarrow> CAA_Import env da st = (Some (''invalid resource ID format: '' @ rid), da, st)))"
proof -
  have a: "(ParseResourceID rid = Inr (zone, name))
      = (rid = zone @ ''/'' @ name \<and> CHR ''/'' \<notin> set zone \<and> CHR ''/'' \<notin> set name)"
    by (simp add: ParseResourceID_Inr Split_two)
  have b: "(\<exists>zone name. ParseResourceID rid = Inr (zone, name)) = (length (Split rid CHR ''/'') = 2)"
    by (auto simp: ParseResourceID_def Let_def)
  have c: "length (Split rid CHR ''/'') = Suc (count_list rid CHR ''/'')"
    by (rule length_Split)
  have d: "length (Split rid CHR ''/'') \<noteq> 2 \<longrightarrow>
        ParseResourceID rid = Inl (''invalid resource ID format: '' @ rid)
        \<and> (d_Id dg = rid \<longrightarrow> Generic_Import env s dg st = (Some (''invalid resource ID format: '' @ rid), dg, st))
        \<and> (d_Id dp = rid \<longrightarrow> MX_Import env dp st = (Some (''invalid resource ID format: '' @ rid), dp, st))
        \<and> (d_Id dp = rid \<longrightarrow> NS_Import env dp st = (Some (''invalid resource ID format: '' @ rid), dp, st))
        \<and> (d_Id dc = rid \<longrightarrow> CNAME_Import env dc st = (Some (''invalid resource ID format: '' @ rid), dc, st))
        \<and> (d_Id ds = rid \<longrightarrow> SRV_Import env ds st = (Some (''invalid resource ID format: '' @ rid), ds, st))
        \<and> (d_Id da = rid \<longrightarrow> CAA_Import env da st = (Some (''invalid resource ID format: '' @ rid), da, st))"
    by (simp add: ParseResourceID_Inl Generic_Import_def MX_Import_def NS_Import_def
          CNAME_Import_def SRV_Import_def CAA_Import_def)
  from a b c d show ?thesis by blast
qed


theorem C9_import_identifier_witness:
  "ParseResourceID ''example.com/www'' = Inr (''example.com'', ''www'')
   \<and> length (Split ''example.com/www/A'' CHR ''/'') = 3
   \<and> Generic_Import (example_env (\<lambda>c. Body ''success'') (\<lambda>b. Inl ''eof'')) NewARecordStrategy
        \<lparr>d_Id = ''example.com/www/A'', d_zone = [], d_name = [], d_new = [], d_old = []\<rparr>
        (example_client 0 NewZoneCache)
       = (Some ''invalid resource ID format: example.com/www/A'',
          \<lparr>d_Id = ''example.com/www/A'', d_zone = [], d_name = [], d_new = [], d_old = []\<rparr>,
          example_client 0 NewZoneCache)
   \<and> ParseResourceID ''example.com'' = Inl ''invalid resource ID format: example.com''"
proof -
  have l3: "length (Split ''example.com/www/A'' CHR ''/'') = 3" by code_simp
  have l1: "length (Split ''example.com'' CHR ''/'') = 1" by code_simp
  have a: "ParseResourceID ''example.com/www'' = Inr (''example.com'', ''www'')"
    using C9_import_identifier
            [where rid = "''example.com/www''" and zone = "''example.com''" and name = "''www''",
             THEN conjunct1]
    by simp
  have b: "Generic_Import (example_env (\<lambda>c. Body ''success'') (\<lambda>b. Inl ''eof'')) NewARecordStrategy
        \<lparr>d_Id = ''example.com/www/A'', d_zone = [], d_name = [], d_new = [], d_old = []\<rparr>
        (example_client 0 NewZoneCache)
       = (Some ''invalid resource ID format: example.com/www/A'',
          \<lparr>d_Id = ''example.com/www/A'', d_zone = [], d_name = [], d_new = [], d_old = []\<rparr>,
          example_client 0 NewZoneCache)"
    using l3
      C9_import_identifier
        [where rid = "''example.com/www/A''"
           and dg = "\<lparr>d_Id = ''example.com/www/A'', d_zone = [], d_name = [], d_new = [],
                      d_old = []\<rparr>"
           and env = "example_env (\<lambda>c. Body ''success'') (\<lambda>b. Inl ''eof'')"
           and s = NewARecordStrategy and st = "example_client 0 NewZoneCache",
         THEN conjunct2, THEN conjunct2, THEN conjunct2]
    by simp
  have ne: "length (Split ''example.com'' CHR ''/'') \<noteq> 2" using l1 by simp
  have c: "ParseResourceID ''example.com'' = Inl ''invalid resource ID format: example.com''"
    using C9_import_identifier
        [where rid = "''example.com''", THEN conjunct2, THEN conjunct2, THEN conjunct2,
         THEN mp, OF ne, THEN conjunct1]
    by simp
  from a b c l3 show ?thesis by simp
qed

section \<open>The update diff\<close>

text \<open>
  Claim C1 as stated fails: the search is by presence, not by count.  For old
  \<open>[A, A, B]\<close> and new \<open>[A, B, B]\<close> every record of either side occurs on the other
  side, so nothing is removed and nothing is added, in the generic strategy and in the
  NS strategy alike.
\<close>

theorem C1_counting_counterexample:
  "Generic_diff NewARecordStrategy [''A'', ''A'', ''B''] [''A'', ''B'', ''B''] = ([], [])
   \<and> Generic_diff NewARecordStrategy [''A'', ''A'', ''B''] [''A'', ''B'', ''B'']
        \<noteq> ([''A''], [''B''])
   \<and> NS_findRecordsToRemove
        (NS_parseRecordsFromState [\<lparr>priority = 10, servers = [''A'', ''A'', ''B'']\<rparr>])
        (NS_parseRecordsFromState [\<lparr>priority = 10, servers = [''A'', ''B'', ''B'']\<rparr>]) = []
   \<and> NS_findRecordsToAdd
        (NS_parseRecordsFromState [\<lparr>priority = 10, servers = [''A'', ''A'', ''B'']\<rparr>])
        (NS_parseRecordsFromState [\<lparr>priority = 10, servers = [''A'', ''B'', ''B'']\<rparr>]) = []"
proof -
  have g: "Generic_diff NewARecordStrategy [''A'', ''A'', ''B''] [''A'', ''B'', ''B''] = ([], [])"
    by (simp add: Generic_diff_filter NewARecordStrategy_def NewGenericRecordStrategy_def
          NoOpPreprocessor_def)
  have n: "NS_findRecordsToRemove
        (NS_parseRecordsFromState [\<lparr>priority = 10, servers = [''A'', ''A'', ''B'']\<rparr>])
        (NS_parseRecordsFromState [\<lparr>priority = 10, servers = [''A'', ''B'', ''B'']\<rparr>]) = []"
    by (simp add: NS_findRecordsToRemove_filter NS_parseRecordsFromState_def)
  have a: "NS_findRecordsToAdd
        (NS_parseRecordsFromState [\<lparr>priority = 10, servers = [''A'', ''A'', ''B'']\<rparr>])
        (NS_parseRecordsFromState [\<lparr>priority = 10, servers = [''A'', ''B'', ''B'']\<rparr>]) = []"
    by (simp add: NS_findRecordsToAdd_filter NS_parseRecordsFromState_def)
  from g n a show ?thesis by simp
qed

text \<open>
  Claim C1, amended.  \<open>toRemove\<close> holds the old records that have no equal on the new
  side, each as often as it occurs in old, and \<open>toAdd\<close> holds the new records that
  have no equal on the old side, each as often as it occurs in new; a record with an
  equal on the other side is in neither list, whatever its counts.  Equal means the same
  preprocessed value in the generic strategy, the same priority and server in the MX and
  NS strategies, the same record in the SRV strategy, and the same key
  \<open>flag_tag_value\<close> in the CAA strategy, where different records can share a key.
  The generic strategy lists the preprocessed values sorted; the SRV strategy lists the
  records sorted by key; the MX and NS strategies list them in the order of the
  declaration; the CAA strategy lists them in an order of ascending keys, whatever
  \<open>sort.Slice\<close> makes of records with one key.
\<close>

theorem C1_diff_by_presence:
  "Generic_diff s old new =
     (filter (\<lambda>r. r \<notin> preprocessor s ` set new) (sort (map (preprocessor s) old)),
      filter (\<lambda>r. r \<notin> preprocessor s ` set old) (sort (map (preprocessor s) new)))
   \<and> count_list (fst (Generic_diff s old new)) r
       = (if r \<in> preprocessor s ` set new then 0 else count_list (map (preprocessor s) old) r)
   \<and> count_list (snd (Generic_diff s old new)) r
       = (if r \<in> preprocessor s ` set old then 0 else count_list (map (preprocessor s) new) r)
   \<and> NS_findRecordsToRemove oldNS newNS = filter (\<lambda>r. r \<notin> set newNS) oldNS
   \<and> NS_findRecordsToAdd oldNS newNS = filter (\<lambda>r. r \<notin> set oldNS) newNS
   \<and> MX_findRecordsToRemove oldMX newMX = filter (\<lambda>r. r \<notin> set newMX) oldMX
   \<and> MX_findRecordsToAdd oldMX newMX = filter (\<lambda>r. r \<notin> set oldMX) newMX
   \<and> SRV_diff oldSRV newSRV =
       (filter (\<lambda>r. r \<notin> set newSRV) (sort_key SRV_String oldSRV),
        filter (\<lambda>r. r \<notin> set oldSRV) (sort_key SRV_String newSRV))
   \<and> (sorted_by CAA_less oldCAA (sort_Slice env CAA_less oldCAA)
        \<and> sorted_by CAA_less newCAA (sort_Slice env CAA_less newCAA)
      \<longrightarrow> count_list (fst (CAA_diff env oldCAA newCAA)) c
            = (if CAA_String c \<in> CAA_String ` set newCAA then 0 else count_list oldCAA c)
        \<and> count_list (snd (CAA_diff env oldCAA newCAA)) c
            = (if CAA_String c \<in> CAA_String ` set oldCAA then 0 else count_list newCAA c)
        \<and> sorted (map CAA_String (fst (CAA_diff env oldCAA newCAA)))
        \<and> sorted (map CAA_String (snd (CAA_diff env oldCAA newCAA))))"
proof -
  have c1: "count_list (fst (Generic_diff s old new)) r
       = (if r \<in> preprocessor s ` set new then 0 else count_list (map (preprocessor s) old) r)"
    by (simp add: Generic_diff_filter count_list_filter count_list_sort)
  have c2: "count_list (snd (Generic_diff s old new)) r
       = (if r \<in> preprocessor s ` set old then 0 else count_list (map (preprocessor s) new) r)"
    by (simp add: Generic_diff_filter count_list_filter count_list_sort)
  have caa: "sorted_by CAA_less oldCAA (sort_Slice env CAA_less oldCAA)
        \<and> sorted_by CAA_less newCAA (sort_Slice env CAA_less newCAA)
      \<longrightarrow> count_list (fst (CAA_diff env oldCAA newCAA)) c
            = (if CAA_String c \<in> CAA_String ` set newCAA then 0 else count_list oldCAA c)
        \<and> count_list (snd (CAA_diff env oldCAA newCAA)) c
            = (if CAA_String c \<in> CAA_String ` set oldCAA then 0 else count_list newCAA c)
        \<and> sorted (map CAA_String (fst (CAA_diff env oldCAA newCAA)))
        \<and> sorted (map CAA_String (snd (CAA_diff env oldCAA newCAA)))"
    using CAA_diff_counts [of oldCAA env newCAA] by blast
  show ?thesis
    using c1 c2 caa Generic_diff_filter [of s old new] SRV_diff_filter [of oldSRV newSRV]
    by (simp only: NS_findRecordsToRemove_filter NS_findRecordsToAdd_filter
          MX_findRecordsToRemove_filter MX_findRecordsToAdd_filter simp_thms)
qed

text \<open>
  Claim C1, amended, at work.  In the generic strategy \<open>C\<close> is removed once and
  \<open>D\<close> added twice while \<open>A\<close> and \<open>B\<close> stay.  In the CAA strategy the old record
  with tag \<open>a_b\<close> and value \<open>c\<close> is not removed, because the new record with tag
  \<open>a\<close> and value \<open>b_c\<close> has its key, and the new record is not added.
\<close>

theorem C1_diff_by_presence_witness:
  "Generic_diff NewARecordStrategy [''C'', ''A'', ''A'', ''B''] [''A'', ''B'', ''B'', ''D'', ''D'']
     = ([''C''], [''D'', ''D''])
   \<and> count_list
        (fst (CAA_diff (example_env (\<lambda>c. Body ''success'') (\<lambda>b. Inl ''eof''))
                [\<lparr>caa_Flag = 0, caa_Tag = ''a_b'', caa_Value = ''c''\<rparr>,
                 \<lparr>caa_Flag = 1, caa_Tag = ''issue'', caa_Value = ''x''\<rparr>,
                 \<lparr>caa_Flag = 1, caa_Tag = ''issue'', caa_Value = ''x''\<rparr>]
                [\<lparr>caa_Flag = 0, caa_Tag = ''a'', caa_Value = ''b_c''\<rparr>]))
        \<lparr>caa_Flag = 0, caa_Tag = ''a_b'', caa_Value = ''c''\<rparr> = 0
   \<and> count_list
        (fst (CAA_diff (example_env (\<lambda>c. Body ''success'') (\<lambda>b. Inl ''eof''))
                [\<lparr>caa_Flag = 0, caa_Tag = ''a_b'', caa_Value = ''c''\<rparr>,
                 \<lparr>caa_Flag = 1, caa_Tag = ''issue'', caa_Value = ''x''\<rparr>,
                 \<lparr>caa_Flag = 1, caa_Tag = ''issue'', caa_Value = ''x''\<rparr>]
                [\<lparr>caa_Flag = 0, caa_Tag = ''a'', caa_Value = ''b_c''\<rparr>]))
        \<lparr>caa_Flag = 1, caa_Tag = ''issue'', caa_Value = ''x''\<rparr> = 2
   \<and> count_list
        (snd (CAA_diff (example_env (\<lambda>c. Body ''success'') (\<lambda>b. Inl ''eof''))
                [\<lparr>caa_Flag = 0, caa_Tag = ''a_b'', caa_Value = ''c''\<rparr>,
                 \<lparr>caa_Flag = 1, caa_Tag = ''issue'', caa_Value = ''x''\<rparr>,
                 \<lparr>caa_Flag = 1, caa_Tag = ''issue'', caa_Value = ''x''\<rparr>]
                [\<lparr>caa_Flag = 0, caa_Tag = ''a'', caa_Value = ''b_c''\<rparr>]))
        \<lparr>caa_Flag = 0, caa_Tag = ''a'', caa_Value = ''b_c''\<rparr> = 0"
proof -
  let ?env = "example_env (\<lambda>c. Body ''success'') (\<lambda>b. Inl ''eof'') :: int env"
  let ?old = "[\<lparr>caa_Flag = 0, caa_Tag = ''a_b'', caa_Value = ''c''\<rparr>,
               \<lparr>caa_Flag = 1, caa_Tag = ''issue'', caa_Value = ''x''\<rparr>,
               \<lparr>caa_Flag = 1, caa_Tag = ''issue'', caa_Value = ''x''\<rparr>]"
  let ?new = "[\<lparr>caa_Flag = 0, caa_Tag = ''a'', caa_Value = ''b_c''\<rparr>]"
  have 1: "filter (\<lambda>r. r \<notin> preprocessor NewARecordStrategy ` set [''A'', ''B'', ''B'', ''D'', ''D''])
             (sort (map (preprocessor NewARecordStrategy) [''C'', ''A'', ''A'', ''B''])) = [''C'']"
    by code_simp
  have 2: "filter (\<lambda>r. r \<notin> preprocessor NewARecordStrategy ` set [''C'', ''A'', ''A'', ''B''])
             (sort (map (preprocessor NewARecordStrategy) [''A'', ''B'', ''B'', ''D'', ''D'']))
           = [''D'', ''D'']"
    by code_simp
  have g: "Generic_diff NewARecordStrategy [''C'', ''A'', ''A'', ''B'']
             [''A'', ''B'', ''B'', ''D'', ''D''] = ([''C''], [''D'', ''D''])"
    using C1_diff_by_presence
            [where s = NewARecordStrategy and old = "[''C'', ''A'', ''A'', ''B'']"
               and new = "[''A'', ''B'', ''B'', ''D'', ''D'']", THEN conjunct1]
    by (simp only: 1 2)
  have o: "sorted_by CAA_less ?old (sort_Slice ?env CAA_less ?old)" by code_simp
  have n: "sorted_by CAA_less ?new (sort_Slice ?env CAA_less ?new)" by code_simp
  have k: "CAA_String \<lparr>caa_Flag = 0, caa_Tag = ''a_b'', caa_Value = ''c''\<rparr>
             = CAA_String \<lparr>caa_Flag = 0, caa_Tag = ''a'', caa_Value = ''b_c''\<rparr>"
    by code_simp
  have k': "CAA_String \<lparr>caa_Flag = 1, caa_Tag = ''issue'', caa_Value = ''x''\<rparr>
             \<noteq> CAA_String \<lparr>caa_Flag = 0, caa_Tag = ''a'', caa_Value = ''b_c''\<rparr>"
    by code_simp
  have a: "count_list (fst (CAA_diff ?env ?old ?new))
             \<lparr>caa_Flag = 0, caa_Tag = ''a_b'', caa_Value = ''c''\<rparr> = 0"
    using C1_diff_by_presence
            [where env = ?env and oldCAA = ?old and newCAA = ?new
               and c = "\<lparr>caa_Flag = 0, caa_Tag = ''a_b'', caa_Value = ''c''\<rparr>",
             THEN conjunct2, THEN conjunct2, THEN conjunct2, THEN conjunct2,
             THEN conjunct2, THEN conjunct2, THEN conjunct2, THEN conjunct2,
             THEN mp, OF conjI [OF o n], THEN conjunct1] k
    by simp
  have b: "count_list (fst (CAA_diff ?env ?old ?new))
             \<lparr>caa_Flag = 1, caa_Tag = ''issue'', caa_Value = ''x''\<rparr> = 2"
    using C1_diff_by_presence
            [where env = ?env and oldCAA = ?old and newCAA = ?new
               and c = "\<lparr>caa_Flag = 1, caa_Tag = ''issue'', caa_Value = ''x''\<rparr>",
             THEN conjunct2, THEN conjunct2, THEN conjunct2, THEN conjunct2,
             THEN conjunct2, THEN conjunct2, THEN conjunct2, THEN conjunct2,
             THEN mp, OF conjI [OF o n], THEN conjunct1] k'
    by simp
  have c: "count_list (snd (CAA_diff ?env ?old ?new))
             \<lparr>caa_Flag = 0, caa_Tag = ''a'', caa_Value = ''b_c''\<rparr> = 0"
    using C1_diff_by_presence
            [where env = ?env and oldCAA = ?old and newCAA = ?new
               and c = "\<lparr>caa_Flag = 0, caa_Tag = ''a'', caa_Value = ''b_c''\<rparr>",
             THEN conjunct2, THEN conjunct2, THEN conjunct2, THEN conjunct2,
             THEN conjunct2, THEN conjunct2, THEN conjunct2, THEN conjunct2,
             THEN mp, OF conjI [OF o n], THEN conjunct2, THEN conjunct1] k
    by simp
  from g a b c show ?thesis by simp
qed

section \<open>Permuting the two sides of the diff\<close>

lemma sort_perm: "mset xs = mset ys \<Longrightarrow> sort xs = sort ys"
  by (rule properties_for_sort) simp_all

lemma mset_eq_set_eq: "mset xs = mset ys \<Longrightarrow> set xs = set ys"
  by (rule mset_eq_setD)

lemma Generic_diff_perm:
  assumes "mset old' = mset old" and "mset new' = mset new"
  shows "Generic_diff s old' new' = Generic_diff s old new"
proof -
  have "mset (map (preprocessor s) old') = mset (map (preprocessor s) old)"
    using assms(1) by (metis mset_map)
  then have o: "sort (map (preprocessor s) old') = sort (map (preprocessor s) old)"
    by (rule sort_perm)
  have "mset (map (preprocessor s) new') = mset (map (preprocessor s) new)"
    using assms(2) by (metis mset_map)
  then have n: "sort (map (preprocessor s) new') = sort (map (preprocessor s) new)"
    by (rule sort_perm)
  show ?thesis
    by (simp add: Generic_diff_filter o n mset_eq_set_eq [OF assms(1)] mset_eq_set_eq [OF assms(2)])
qed

lemma SRV_diff_perm:
  assumes "mset old' = mset old" and "mset new' = mset new"
  shows "SRV_diff old' new' = SRV_diff old new"
  by (simp add: SRV_diff_filter sort_key_SRV_perm [OF assms(1)] sort_key_SRV_perm [OF assms(2)]
        mset_eq_set_eq [OF assms(1)] mset_eq_set_eq [OF assms(2)])

lemma sorted_same_mset: "sorted xs \<Longrightarrow> sorted ys \<Longrightarrow> mset xs = mset ys \<Longrightarrow> xs = ys"
  for xs :: "'a :: linorder list"
proof -
  assume x: "sorted xs" and y: "sorted ys" and m: "mset xs = mset ys"
  have "sort xs = ys" using m y by (intro properties_for_sort) simp_all
  moreover have "sort xs = xs" using x by (rule sorted_sort_id)
  ultimately show ?thesis by simp
qed

lemma CAA_diff_perm:
  assumes m: "mset old' = mset old" "mset new' = mset new"
    and s: "sorted_by CAA_less old (sort_Slice env CAA_less old)"
           "sorted_by CAA_less new (sort_Slice env CAA_less new)"
           "sorted_by CAA_less old' (sort_Slice env CAA_less old')"
           "sorted_by CAA_less new' (sort_Slice env CAA_less new')"
  shows "mset (fst (CAA_diff env old' new')) = mset (fst (CAA_diff env old new))"
    and "mset (snd (CAA_diff env old' new')) = mset (snd (CAA_diff env old new))"
    and "map CAA_String (fst (CAA_diff env old' new')) = map CAA_String (fst (CAA_diff env old new))"
    and "map CAA_String (snd (CAA_diff env old' new')) = map CAA_String (snd (CAA_diff env old new))"
proof -
  have so: "set (sort_Slice env CAA_less old') = set old" "set (sort_Slice env CAA_less old) = set old"
    using sorted_by_set [OF s(3)] sorted_by_set [OF s(1)] mset_eq_setD [OF m(1)] by simp_all
  have sn: "set (sort_Slice env CAA_less new') = set new" "set (sort_Slice env CAA_less new) = set new"
    using sorted_by_set [OF s(4)] sorted_by_set [OF s(2)] mset_eq_setD [OF m(2)] by simp_all
  have mo: "mset (sort_Slice env CAA_less old') = mset (sort_Slice env CAA_less old)"
    using s(1,3) m(1) by (simp add: sorted_by_def)
  have mn: "mset (sort_Slice env CAA_less new') = mset (sort_Slice env CAA_less new)"
    using s(2,4) m(2) by (simp add: sorted_by_def)
  show 1: "mset (fst (CAA_diff env old' new')) = mset (fst (CAA_diff env old new))"
    by (simp add: CAA_diff_filter so sn mo)
  show 2: "mset (snd (CAA_diff env old' new')) = mset (snd (CAA_diff env old new))"
    by (simp add: CAA_diff_filter so sn mn)
  have "mset (map CAA_String (fst (CAA_diff env old' new')))
          = mset (map CAA_String (fst (CAA_diff env old new)))"
    using 1 by (metis mset_map)
  then show "map CAA_String (fst (CAA_diff env old' new')) = map CAA_String (fst (CAA_diff env old new))"
    using CAA_diff_counts(3) [OF s(3) s(4)] CAA_diff_counts(3) [OF s(1) s(2)]
    by (intro sorted_same_mset)
  have "mset (map CAA_String (snd (CAA_diff env old' new')))
          = mset (map CAA_String (snd (CAA_diff env old new)))"
    using 2 by (metis mset_map)
  then show "map CAA_String (snd (CAA_diff env old' new')) = map CAA_String (snd (CAA_diff env old new))"
    using CAA_diff_counts(4) [OF s(3) s(4)] CAA_diff_counts(4) [OF s(1) s(2)]
    by (intro sorted_same_mset)
qed

text \<open>
  Claim C8 as stated fails for the MX and NS strategies: they search the declared lists
  as they are, so the order of \<open>toRemove\<close> follows the order of the old side.  With the
  servers of priority 10 declared as \<open>b, a\<close> the removals are \<open>b, a\<close>; declared as
  \<open>a, b\<close> they are \<open>a, b\<close>.
\<close>

theorem C8_order_counterexample:
  "mset (MX_parseRecordsFromState [\<lparr>priority = 10, servers = [''b'', ''a'']\<rparr>])
     = mset (MX_parseRecordsFromState [\<lparr>priority = 10, servers = [''a'', ''b'']\<rparr>])
   \<and> MX_findRecordsToRemove
        (MX_parseRecordsFromState [\<lparr>priority = 10, servers = [''b'', ''a'']\<rparr>]) []
       = [\<lparr>mx_Priority = 10, mx_Server = ''b''\<rparr>, \<lparr>mx_Priority = 10, mx_Server = ''a''\<rparr>]
   \<and> MX_findRecordsToRemove
        (MX_parseRecordsFromState [\<lparr>priority = 10, servers = [''a'', ''b'']\<rparr>]) []
       = [\<lparr>mx_Priority = 10, mx_Server = ''a''\<rparr>, \<lparr>mx_Priority = 10, mx_Server = ''b''\<rparr>]
   \<and> MX_findRecordsToRemove
        (MX_parseRecordsFromState [\<lparr>priority = 10, servers = [''b'', ''a'']\<rparr>]) []
       \<noteq> MX_findRecordsToRemove
            (MX_parseRecordsFromState [\<lparr>priority = 10, servers = [''a'', ''b'']\<rparr>]) []"
  by (simp add: MX_findRecordsToRemove_filter MX_parseRecordsFromState_def)

text \<open>
  Claim C8, amended.  The generic and the SRV strategies sort each side by an injective
  key before the search: permuting either side leaves \<open>toRemove\<close> and \<open>toAdd\<close> as they
  are, order included.  The MX and NS strategies do not sort: a permutation of either
  side leaves the two outputs the same as multisets, and \<open>toRemove\<close> runs in the order
  of the permuted old side, \<open>toAdd\<close> in the order of the permuted new side.  The CAA
  strategy sorts each side by a key that different records can share, with a sort that
  need not be stable: a permutation of either side leaves the two outputs the same as
  multisets and leaves their sequences of keys the same.
\<close>

theorem C8_diff_of_permuted_sides:
  "(mset old' = mset old \<and> mset new' = mset new
      \<longrightarrow> Generic_diff s old' new' = Generic_diff s old new)
   \<and> (mset oldSRV' = mset oldSRV \<and> mset newSRV' = mset newSRV
      \<longrightarrow> SRV_diff oldSRV' newSRV' = SRV_diff oldSRV newSRV)
   \<and> (mset oldMX' = mset oldMX \<and> mset newMX' = mset newMX
      \<longrightarrow> mset (MX_findRecordsToRemove oldMX' newMX') = mset (MX_findRecordsToRemove oldMX newMX)
        \<and> mset (MX_findRecordsToAdd oldMX' newMX') = mset (MX_findRecordsToAdd oldMX newMX)
        \<and> MX_findRecordsToRemove oldMX' newMX' = filter (\<lambda>r. r \<notin> set newMX) oldMX'
        \<and> MX_findRecordsToAdd oldMX' newMX' = filter (\<lambda>r. r \<notin> set oldMX) newMX')
   \<and> (mset oldNS' = mset oldNS \<and> mset newNS' = mset newNS
      \<longrightarrow> mset (NS_findRecordsToRemove oldNS' newNS') = mset (NS_findRecordsToRemove oldNS newNS)
        \<and> mset (NS_findRecordsToAdd oldNS' newNS') = mset (NS_findRecordsToAdd oldNS newNS)
        \<and> NS_findRecordsToRemove oldNS' newNS' = filter (\<lambda>r. r \<notin> set newNS) oldNS'
        \<and> NS_findRecordsToAdd oldNS' newNS' = filter (\<lambda>r. r \<notin> set oldNS) newNS')
   \<and> (mset oldCAA' = mset oldCAA \<and> mset newCAA' = mset newCAA
        \<and> sorted_by CAA_less oldCAA (sort_Slice env CAA_less oldCAA)
        \<and> sorted_by CAA_less newCAA (sort_Slice env CAA_less newCAA)
        \<and> sorted_by CAA_less oldCAA' (sort_Slice env CAA_less oldCAA')
        \<and> sorted_by CAA_less newCAA' (sort_Slice env CAA_less newCAA')
      \<longrightarrow> mset (fst (CAA_diff env oldCAA' newCAA')) = mset (fst (CAA_diff env oldCAA newCAA))
        \<and> mset (snd (CAA_diff env oldCAA' newCAA')) = mset (snd (CAA_diff env oldCAA newCAA))
        \<and> map CAA_String (fst (CAA_diff env oldCAA' newCAA'))
            = map CAA_String (fst (CAA_diff env oldCAA newCAA))
        \<and> map CAA_String (snd (CAA_diff env oldCAA' newCAA'))
            = map CAA_String (snd (CAA_diff env oldCAA newCAA)))"
proof -
  have mx: "mset (MX_findRecordsToRemove oldMX' newMX') = mset (MX_findRecordsToRemove oldMX newMX)
        \<and> mset (MX_findRecordsToAdd oldMX' newMX') = mset (MX_findRecordsToAdd oldMX newMX)
        \<and> MX_findRecordsToRemove oldMX' newMX' = filter (\<lambda>r. r \<notin> set newMX) oldMX'
        \<and> MX_findRecordsToAdd oldMX' newMX' = filter (\<lambda>r. r \<notin> set oldMX) newMX'"
    if "mset oldMX' = mset oldMX" "mset newMX' = mset newMX"
    using that mset_eq_set_eq [OF that(1)] mset_eq_set_eq [OF that(2)]
    by (simp add: MX_findRecordsToRemove_filter MX_findRecordsToAdd_filter)
  have ns: "mset (NS_findRecordsToRemove oldNS' newNS') = mset (NS_findRecordsToRemove oldNS newNS)
        \<and> mset (NS_findRecordsToAdd oldNS' newNS') = mset (NS_findRecordsToAdd oldNS newNS)
        \<and> NS_findRecordsToRemove oldNS' newNS' = filter (\<lambda>r. r \<notin> set newNS) oldNS'
        \<and> NS_findRecordsToAdd oldNS' newNS' = filter (\<lambda>r. r \<notin> set oldNS) newNS'"
    if "mset oldNS' = mset oldNS" "mset newNS' = mset newNS"
    using that mset_eq_set_eq [OF that(1)] mset_eq_set_eq [OF that(2)]
    by (simp add: NS_findRecordsToRemove_filter NS_findRecordsToAdd_filter)
  have caa: "mset (fst (CAA_diff env oldCAA' newCAA')) = mset (fst (CAA_diff env oldCAA newCAA))
        \<and> mset (snd (CAA_diff env oldCAA' newCAA')) = mset (snd (CAA_diff env oldCAA newCAA))
        \<and> map CAA_String (fst (CAA_diff env oldCAA' newCAA'))
            = map CAA_String (fst (CAA_diff env oldCAA newCAA))
        \<and> map CAA_String (snd (CAA_diff env oldCAA' newCAA'))
            = map CAA_String (snd (CAA_diff env oldCAA newCAA))"
    if "mset oldCAA' = mset oldCAA" "mset newCAA' = mset newCAA"
      "sorted_by CAA_less oldCAA (sort_Slice env CAA_less oldCAA)"
      "sorted_by CAA_less newCAA (sort_Slice env CAA_less newCAA)"
      "sorted_by CAA_less oldCAA' (sort_Slice env CAA_less oldCAA')"
      "sorted_by CAA_less newCAA' (sort_Slice env CAA_less newCAA')"
    using CAA_diff_perm [OF that] by blast
  show ?thesis
    using Generic_diff_perm [of old' old new' new s] SRV_diff_perm [of oldSRV' oldSRV newSRV' newSRV]
      mx ns caa
    by blast
qed

text \<open>
  Claim C8, amended, at work.  The generic strategy on two orders of the same
  addresses; the MX strategy with the servers \<open>b, a\<close> against \<open>a, b\<close>, where the
  removals come in the order of the declaration; the CAA strategy with the flags
  \<open>1, 0\<close> against \<open>0, 1\<close>, where the keys of the removals come in the same order.
\<close>

theorem C8_diff_of_permuted_sides_witness:
  "Generic_diff NewARecordStrategy [''2.2.2.2'', ''1.1.1.1'', ''3.3.3.3''] [''4.4.4.4'', ''1.1.1.1'']
       = Generic_diff NewARecordStrategy [''1.1.1.1'', ''3.3.3.3'', ''2.2.2.2''] [''1.1.1.1'', ''4.4.4.4'']
   \<and> Generic_diff NewARecordStrategy [''1.1.1.1'', ''3.3.3.3'', ''2.2.2.2''] [''1.1.1.1'', ''4.4.4.4'']
       = ([''2.2.2.2'', ''3.3.3.3''], [''4.4.4.4''])
   \<and> MX_findRecordsToRemove
        [\<lparr>mx_Priority = 10, mx_Server = ''b''\<rparr>, \<lparr>mx_Priority = 10, mx_Server = ''a''\<rparr>] []
       = [\<lparr>mx_Priority = 10, mx_Server = ''b''\<rparr>, \<lparr>mx_Priority = 10, mx_Server = ''a''\<rparr>]
   \<and> map CAA_String
        (fst (CAA_diff (example_env (\<lambda>c. Body ''success'') (\<lambda>b. Inl ''eof''))
                [\<lparr>caa_Flag = 1, caa_Tag = ''x'', caa_Value = ''y''\<rparr>,
                 \<lparr>caa_Flag = 0, caa_Tag = ''x'', caa_Value = ''y''\<rparr>] []))
       = map CAA_String
           (fst (CAA_diff (example_env (\<lambda>c. Body ''success'') (\<lambda>b. Inl ''eof''))
                   [\<lparr>caa_Flag = 0, caa_Tag = ''x'', caa_Value = ''y''\<rparr>,
                    \<lparr>caa_Flag = 1, caa_Tag = ''x'', caa_Value = ''y''\<rparr>] []))"
proof -
  let ?env = "example_env (\<lambda>c. Body ''success'') (\<lambda>b. Inl ''eof'') :: int env"
  let ?o' = "[\<lparr>caa_Flag = 1, caa_Tag = ''x'', caa_Value = ''y''\<rparr>,
              \<lparr>caa_Flag = 0, caa_Tag = ''x'', caa_Value = ''y''\<rparr>]"
  let ?o = "[\<lparr>caa_Flag = 0, caa_Tag = ''x'', caa_Value = ''y''\<rparr>,
             \<lparr>caa_Flag = 1, caa_Tag = ''x'', caa_Value = ''y''\<rparr>]"
  have 1: "mset [''2.2.2.2'', ''1.1.1.1'', ''3.3.3.3''] = mset [''1.1.1.1'', ''3.3.3.3'', ''2.2.2.2'']"
    by (simp add: add_mset_commute)
  have 2: "mset [''4.4.4.4'', ''1.1.1.1''] = mset [''1.1.1.1'', ''4.4.4.4'']"
    by (simp add: add_mset_commute)
  have 3: "Generic_diff NewARecordStrategy [''1.1.1.1'', ''3.3.3.3'', ''2.2.2.2''] [''1.1.1.1'', ''4.4.4.4'']
       = ([''2.2.2.2'', ''3.3.3.3''], [''4.4.4.4''])"
    by code_simp
  from C8_diff_of_permuted_sides
         [where s = NewARecordStrategy and old' = "[''2.2.2.2'', ''1.1.1.1'', ''3.3.3.3'']"
            and old = "[''1.1.1.1'', ''3.3.3.3'', ''2.2.2.2'']"
            and new' = "[''4.4.4.4'', ''1.1.1.1'']" and new = "[''1.1.1.1'', ''4.4.4.4'']",
          THEN conjunct1] 1 2
  have g: "Generic_diff NewARecordStrategy [''2.2.2.2'', ''1.1.1.1'', ''3.3.3.3''] [''4.4.4.4'', ''1.1.1.1'']
       = Generic_diff NewARecordStrategy [''1.1.1.1'', ''3.3.3.3'', ''2.2.2.2''] [''1.1.1.1'', ''4.4.4.4'']"
    by blast
  have 4: "mset [\<lparr>mx_Priority = 10, mx_Server = ''b''\<rparr>, \<lparr>mx_Priority = 10, mx_Server = ''a''\<rparr>]
             = mset [\<lparr>mx_Priority = 10, mx_Server = ''a''\<rparr>, \<lparr>mx_Priority = 10, mx_Server = ''b''\<rparr>]"
    by (simp add: add_mset_commute)
  from C8_diff_of_permuted_sides
         [where oldMX' = "[\<lparr>mx_Priority = 10, mx_Server = ''b''\<rparr>, \<lparr>mx_Priority = 10, mx_Server = ''a''\<rparr>]"
            and oldMX = "[\<lparr>mx_Priority = 10, mx_Server = ''a''\<rparr>, \<lparr>mx_Priority = 10, mx_Server = ''b''\<rparr>]"
            and newMX' = "[]" and newMX = "[]",
          THEN conjunct2, THEN conjunct2, THEN conjunct1] 4
  have m: "MX_findRecordsToRemove
        [\<lparr>mx_Priority = 10, mx_Server = ''b''\<rparr>, \<lparr>mx_Priority = 10, mx_Server = ''a''\<rparr>] []
       = [\<lparr>mx_Priority = 10, mx_Server = ''b''\<rparr>, \<lparr>mx_Priority = 10, mx_Server = ''a''\<rparr>]"
    by simp
  have 5: "mset ?o' = mset ?o" by (simp add: add_mset_commute)
  have 6: "sorted_by CAA_less ?o (sort_Slice ?env CAA_less ?o)" by code_simp
  have 7: "sorted_by CAA_less ?o' (sort_Slice ?env CAA_less ?o')" by code_simp
  have 8: "sorted_by CAA_less [] (sort_Slice ?env CAA_less [])" by code_simp
  from C8_diff_of_permuted_sides
         [where env = ?env and oldCAA' = ?o' and oldCAA = ?o and newCAA' = "[]" and newCAA = "[]",
          THEN conjunct2, THEN conjunct2, THEN conjunct2, THEN conjunct2] 5 6 7 8
  have c: "map CAA_String (fst (CAA_diff ?env ?o' [])) = map CAA_String (fst (CAA_diff ?env ?o []))"
    by blast
  from g 3 m c show ?thesis by blast
qed

section \<open>The surgical update of MX records\<close>

lemma MX_ab_ac_diff:
  assumes "d_old d = [\<lparr>priority = 10, servers = [''a'', ''b'']\<rparr>]"
    and "d_new d = [\<lparr>priority = 10, servers = [''a'', ''c'']\<rparr>]"
  shows "MX_findRecordsToRemove (MX_parseRecordsFromState (d_old d))
           (MX_parseRecordsFromState (d_new d)) = [\<lparr>mx_Priority = 10, mx_Server = ''b''\<rparr>]"
    and "MX_findRecordsToAdd (MX_parseRecordsFromState (d_old d))
           (MX_parseRecordsFromState (d_new d)) = [\<lparr>mx_Priority = 10, mx_Server = ''c''\<rparr>]"
  by (simp_all add: assms MX_findRecordsToRemove_filter MX_findRecordsToAdd_filter
        MX_parseRecordsFromState_def)

lemma AddTrailingDot_b_c: "AddTrailingDot ''b'' = ''b.''" "AddTrailingDot ''c'' = ''c.''"
  by (simp_all add: AddTrailingDot_def HasSuffix_def)




text \<open>
  Claim C2.  With one group of priority 10 whose servers change from \<open>a, b\<close> to
  \<open>a, c\<close>, the diff is one record to remove, \<open>(b, 10)\<close>, and one to add,
  \<open>(c, 10)\<close>.  An update that returns without error has made exactly two calls: the
  removal of \<open>b.\<close> with priority 10 and the addition of \<open>c.\<close> with priority 10.
  However the update ends, its calls are the removal alone or the removal and the
  addition: no call ever names the unchanged server \<open>a\<close>.
\<close>

theorem C2_MX_surgical_update:
  assumes "d_old d = [\<lparr>priority = 10, servers = [''a'', ''b'']\<rparr>]"
    and "d_new d = [\<lparr>priority = 10, servers = [''a'', ''c'']\<rparr>]"
  shows "MX_findRecordsToRemove (MX_parseRecordsFromState (d_old d))
           (MX_parseRecordsFromState (d_new d)) = [\<lparr>mx_Priority = 10, mx_Server = ''b''\<rparr>]
     \<and> MX_findRecordsToAdd (MX_parseRecordsFromState (d_old d))
           (MX_parseRecordsFromState (d_new d)) = [\<lparr>mx_Priority = 10, mx_Server = ''c''\<rparr>]
     \<and> (MX_Update env d st = (None, d', st') \<longrightarrow>
          calls_of (new_events st st')
            = [RemoveRecord (d_zone d) (d_name d) ''MX'' ''b.'' (Some 10),
               AddRecord ''MX'' (d_zone d) (d_name d) ''c.'' (Some 10)])
     \<and> (MX_Update env d st = (res, d', st') \<longrightarrow>
          calls_of (new_events st st') = [RemoveRecord (d_zone d) (d_name d) ''MX'' ''b.'' (Some 10)]
          \<or> calls_of (new_events st st')
            = [RemoveRecord (d_zone d) (d_name d) ''MX'' ''b.'' (Some 10),
               AddRecord ''MX'' (d_zone d) (d_name d) ''c.'' (Some 10)])"
proof -
  note diff = MX_ab_ac_diff [OF assms]
  let ?rm = "RemoveRecord (d_zone d) (d_name d) ''MX'' ''b.'' (Some 10)"
  let ?add = "AddRecord ''MX'' (d_zone d) (d_name d) ''c.'' (Some 10)"
  define loop1 where "loop1 = call_each env
            (\<lambda>record. RemoveRecord (d_zone d) (d_name d) ''MX'' (AddTrailingDot (mx_Server record))
                         (Some (mx_Priority record)))
            (\<lambda>record err. ''failed to remove MX record '' @ mx_Server record @ '': ''
                             @ HandleAPIError err ''remove'')
            (\<lambda>record err. ''failed to remove MX record '' @ mx_Server record @ '': '' @ err)
            [\<lparr>mx_Priority = 10, mx_Server = ''b''\<rparr>]"
  define loop2 where "loop2 = call_each env
              (\<lambda>record. AddRecord ''MX'' (d_zone d) (d_name d) (AddTrailingDot (mx_Server record))
                           (Some (mx_Priority record)))
              (\<lambda>record err. ''failed to add MX record '' @ mx_Server record @ '': '' @ err)
              (\<lambda>record err. ''failed to add MX record '' @ mx_Server record @ '': '' @ err)
              [\<lparr>mx_Priority = 10, mx_Server = ''c''\<rparr>]"
  have unfold: "MX_Update env d st =
     (case loop1 st of
        (Some err, st1) \<Rightarrow> (Some err, d, st1)
      | (None, st1) \<Rightarrow>
          (case loop2 st1 of
             (Some err, st2) \<Rightarrow> (Some err, d, st2)
           | (None, st2) \<Rightarrow> (None, d, InvalidateZoneCache (d_zone d) st2)))"
    by (simp only: MX_Update_def Let_def diff loop1_def loop2_def)
  obtain r1 st1 where 1: "loop1 st = (r1, st1)" by (cases "loop1 st")
  from call_each_single [OF 1 [unfolded loop1_def]] obtain x1 where
    e1: "events st1 = events st @ [Called ?rm x1]" by (auto simp: AddTrailingDot_b_c)
  obtain r2 st2 where 2: "loop2 st1 = (r2, st2)" by (cases "loop2 st1")
  from call_each_single [OF 2 [unfolded loop2_def]] obtain x2 where
    e2: "events st2 = events st1 @ [Called ?add x2]" by (auto simp: AddTrailingDot_b_c)
  have any: "calls_of (new_events st st') = [?rm] \<or> calls_of (new_events st st') = [?rm, ?add]"
    if run: "MX_Update env d st = (res, d', st')"
  proof -
    have "st' = st1 \<or> st' = st2 \<or> st' = InvalidateZoneCache (d_zone d) st2"
      using run unfolding unfold by (auto simp: 1 2 split: option.splits)
    then show ?thesis using e1 e2
      by (auto simp: new_events_def InvalidateZoneCache_def)
  qed
  have ok: "calls_of (new_events st st') = [?rm, ?add]"
    if run: "MX_Update env d st = (None, d', st')"
  proof -
    have "st' = InvalidateZoneCache (d_zone d) st2"
      using run unfolding unfold by (auto simp: 1 2 split: option.splits)
    then show ?thesis using e1 e2
      by (simp add: new_events_def InvalidateZoneCache_def)
  qed
  from diff any ok show ?thesis by blast
qed



theorem C2_MX_surgical_update_witness:
  "fst (MX_Update (example_env (\<lambda>c. Body ''success'') (\<lambda>b. Inl ''eof''))
          \<lparr>d_Id = ''example.com/@'', d_zone = ''example.com'', d_name = ''@'',
            d_new = [\<lparr>priority = 10, servers = [''a'', ''c'']\<rparr>],
            d_old = [\<lparr>priority = 10, servers = [''a'', ''b'']\<rparr>]\<rparr>
          (example_client 0 NewZoneCache)) = None
   \<and> calls_of (new_events (example_client 0 NewZoneCache)
        (snd (snd (MX_Update (example_env (\<lambda>c. Body ''success'') (\<lambda>b. Inl ''eof''))
          \<lparr>d_Id = ''example.com/@'', d_zone = ''example.com'', d_name = ''@'',
            d_new = [\<lparr>priority = 10, servers = [''a'', ''c'']\<rparr>],
            d_old = [\<lparr>priority = 10, servers = [''a'', ''b'']\<rparr>]\<rparr>
          (example_client 0 NewZoneCache)))))
       = [RemoveRecord ''example.com'' ''@'' ''MX'' ''b.'' (Some 10),
          AddRecord ''MX'' ''example.com'' ''@'' ''c.'' (Some 10)]"
proof -
  let ?env = "example_env (\<lambda>c. Body ''success'') (\<lambda>b. Inl ''eof'')"
  let ?d = "\<lparr>d_Id = ''example.com/@'', d_zone = ''example.com'', d_name = ''@'',
            d_new = [\<lparr>priority = 10, servers = [''a'', ''c'']\<rparr>],
            d_old = [\<lparr>priority = 10, servers = [''a'', ''b'']\<rparr>]\<rparr>"
  let ?st = "example_client 0 NewZoneCache"
  have ok: "fst (MX_Update ?env ?d ?st) = None" by code_simp
  then have run: "MX_Update ?env ?d ?st
                    = (None, fst (snd (MX_Update ?env ?d ?st)), snd (snd (MX_Update ?env ?d ?st)))"
    by (metis prod.collapse)
  have o: "d_old ?d = [\<lparr>priority = 10, servers = [''a'', ''b'']\<rparr>]" by simp
  have n: "d_new ?d = [\<lparr>priority = 10, servers = [''a'', ''c'']\<rparr>]" by simp
  from C2_MX_surgical_update [OF o n, of ?env ?st "fst (snd (MX_Update ?env ?d ?st))"
         "snd (snd (MX_Update ?env ?d ?st))", THEN conjunct2, THEN conjunct2, THEN conjunct1] run
  have "calls_of (new_events ?st (snd (snd (MX_Update ?env ?d ?st))))
       = [RemoveRecord ''example.com'' ''@'' ''MX'' ''b.'' (Some 10),
          AddRecord ''MX'' ''example.com'' ''@'' ''c.'' (Some 10)]"
    by simp
  with ok show ?thesis by simp
qed

section \<open>Invalidation of the zone cache by the writing operations\<close>

text \<open>
  The operations that end with \<open>InvalidateZoneCache\<close> return with no entry for their
  zone in the cache: \<open>Create\<close>, \<open>Update\<close> and \<open>Delete\<close> of the MX, NS and CNAME
  strategies and \<open>Delete\<close> of the generic, SRV and CAA strategies.
\<close>

lemma InvalidateZoneCache_no_entry: "globalZoneCache (InvalidateZoneCache zone st) zone = None"
  by (simp add: InvalidateZoneCache_def ZoneCache_Invalidate_def)

lemma MX_Create_no_entry:
  "MX_Create env d st = (None, d', st') \<Longrightarrow> globalZoneCache st' (d_zone d) = None"
  by (auto simp: MX_Create_def Let_def InvalidateZoneCache_no_entry simp del: call_each.simps
        split: prod.splits option.splits)

lemma MX_Update_no_entry:
  "MX_Update env d st = (None, d', st') \<Longrightarrow> globalZoneCache st' (d_zone d) = None"
  by (auto simp: MX_Update_def Let_def InvalidateZoneCache_no_entry simp del: call_each.simps
        split: prod.splits option.splits)

lemma MX_Delete_no_entry:
  "MX_Delete env d st = (None, d', st') \<Longrightarrow> globalZoneCache st' (d_zone d) = None"
  by (auto simp: MX_Delete_def Let_def InvalidateZoneCache_no_entry simp del: call_each.simps
        split: prod.splits option.splits sum.splits if_splits)

lemma NS_Create_no_entry:
  "NS_Create env d st = (None, d', st') \<Longrightarrow> globalZoneCache st' (d_zone d) = None"
  by (auto simp: NS_Create_def Let_def InvalidateZoneCache_no_entry simp del: call_each.simps
        split: prod.splits option.splits)

lemma NS_Update_no_entry:
  "NS_Update env d st = (None, d', st') \<Longrightarrow> globalZoneCache st' (d_zone d) = None"
  by (auto simp: NS_Update_def Let_def InvalidateZoneCache_no_entry simp del: call_each.simps
        split: prod.splits option.splits)

lemma NS_Delete_no_entry:
  "NS_Delete env d st = (None, d', st') \<Longrightarrow> globalZoneCache st' (d_zone d) = None"
  by (auto simp: NS_Delete_def Let_def InvalidateZoneCache_no_entry simp del: call_each.simps
        split: prod.splits option.splits sum.splits if_splits)

lemma CNAME_Create_no_entry:
  "CNAME_Create env d st = (None, d', st') \<Longrightarrow> globalZoneCache st' (d_zone d) = None"
  by (auto simp: CNAME_Create_def Let_def InvalidateZoneCache_no_entry simp del: call_each.simps
        split: prod.splits option.splits)

lemma CNAME_Update_no_entry:
  "CNAME_Update env d st = (None, d', st') \<Longrightarrow> globalZoneCache st' (d_zone d) = None"
  by (auto simp: CNAME_Update_def Let_def InvalidateZoneCache_no_entry simp del: call_each.simps
        split: prod.splits option.splits)

lemma CNAME_Delete_no_entry:
  "CNAME_Delete env d st = (None, d', st') \<Longrightarrow> globalZoneCache st' (d_zone d) = None"
  by (auto simp: CNAME_Delete_def Let_def InvalidateZoneCache_no_entry simp del: call_each.simps
        split: prod.splits option.splits)

lemma Generic_Delete_no_entry:
  "Generic_Delete env s d st = (None, d', st') \<Longrightarrow> globalZoneCache st' (d_zone d) = None"
  by (auto simp: Generic_Delete_def Let_def InvalidateZoneCache_no_entry simp del: call_each.simps
        split: prod.splits option.splits)

lemma SRV_Delete_no_entry:
  "SRV_Delete env d st = (None, d', st') \<Longrightarrow> globalZoneCache st' (d_zone d) = None"
  by (auto simp: SRV_Delete_def Let_def InvalidateZoneCache_no_entry simp del: call_each.simps
        split: prod.splits option.splits)

lemma CAA_Delete_no_entry:
  "CAA_Delete env d st = (None, d', st') \<Longrightarrow> globalZoneCache st' (d_zone d) = None"
  by (auto simp: CAA_Delete_def Let_def InvalidateZoneCache_no_entry simp del: call_each.simps
        split: prod.splits option.splits)


text \<open>
  \<open>Update\<close> of the generic, SRV and CAA strategies, when the records changed,
  invalidates and then reads: that read finds no entry and asks the provider.
\<close>

lemma GetRecordsWithCache_miss:
  assumes "globalZoneCache st zone = None"
    and "GetRecordsWithCache env zone st = (Inr data, st')"
  shows "events st' = events st @ [Called (GetRecords zone) (Inr data)]"
  using assms
  by (auto simp: GetRecordsWithCache_def ZoneCache_Get_def Let_def doRequest_def
        split: prod.splits sum.splits http_result.splits option.splits)

lemma Generic_Update_reads_the_provider:
  assumes "Generic_Update env s d st = (None, d', st')" and "HasChange d"
  shows "\<exists>evs data. events st' = evs @ [Invalidated (d_zone d),
                                          Called (GetRecords (d_zone d)) (Inr data)]"
proof -
  from assms obtain st2 where
    r: "Generic_Read env s d (InvalidateZoneCache (d_zone d) st2) = (None, d', st')"
    by (auto simp: Generic_Update_def Let_def simp del: call_each.simps
          split: prod.splits option.splits)
  then obtain data where
    "GetRecordsWithCache env (d_zone d) (InvalidateZoneCache (d_zone d) st2) = (Inr data, st')"
    by (auto simp: Generic_Read_def Let_def split: prod.splits sum.splits if_splits)
  from GetRecordsWithCache_miss [OF InvalidateZoneCache_no_entry this]
  show ?thesis by (auto simp: InvalidateZoneCache_def)
qed

lemma SRV_Update_reads_the_provider:
  assumes "SRV_Update env d st = (None, d', st')" and "HasChange d"
  shows "\<exists>evs data. events st' = evs @ [Invalidated (d_zone d),
                                          Called (GetRecords (d_zone d)) (Inr data)]"
proof -
  from assms obtain st2 where
    r: "SRV_Read env d (InvalidateZoneCache (d_zone d) st2) = (None, d', st')"
    by (auto simp: SRV_Update_def Let_def simp del: call_each.simps
          split: prod.splits option.splits)
  then obtain data where
    "GetRecordsWithCache env (d_zone d) (InvalidateZoneCache (d_zone d) st2) = (Inr data, st')"
    by (auto simp: SRV_Read_def Let_def split: prod.splits sum.splits if_splits)
  from GetRecordsWithCache_miss [OF InvalidateZoneCache_no_entry this]
  show ?thesis by (auto simp: InvalidateZoneCache_def)
qed

lemma CAA_Update_reads_the_provider:
  assumes "CAA_Update env d st = (None, d', st')" and "HasChange d"
  shows "\<exists>evs data. events st' = evs @ [Invalidated (d_zone d),
                                          Called (GetRecords (d_zone d)) (Inr data)]"
proof -
  from assms obtain st2 where
    r: "CAA_Read env d (InvalidateZoneCache (d_zone d) st2) = (None, d', st')"
    by (auto simp: CAA_Update_def Let_def simp del: call_each.simps
          split: prod.splits option.splits)
  then obtain data where
    "GetRecordsWithCache env (d_zone d) (InvalidateZoneCache (d_zone d) st2) = (Inr data, st')"
    by (auto simp: CAA_Read_def Let_def split: prod.splits sum.splits if_splits)
  from GetRecordsWithCache_miss [OF InvalidateZoneCache_no_entry this]
  show ?thesis by (auto simp: InvalidateZoneCache_def)
qed

text \<open>
  \<open>Create\<close> of the generic, SRV and CAA strategies adds its records and returns through
  \<open>Read\<close>; no step of it touches an entry of the cache that has not expired.  So with
  such an entry for the zone, the read at the end of \<open>Create\<close> is answered from the
  cache, with the zone as it was before the records were added, and the entry is still
  there when \<open>Create\<close> returns.
\<close>

lemma GetRecordsWithCache_hit:
  assumes "globalZoneCache st zone = Some e"
    and "Sub (fst (time_Now env (world st))) (Timestamp e) \<le> TTL e"
  shows "GetRecordsWithCache env zone st
           = (Inr (Data e), st\<lparr>world := snd (time_Now env (world st))\<rparr>)"
  using assms by (simp add: GetRecordsWithCache_def ZoneCache_Get_def Let_def)

lemma Generic_Create_keeps_the_entry:
  assumes "Generic_Create env s d st = (None, d', st')"
    and "globalZoneCache st (d_zone d) = Some e"
    and "\<forall>w. Sub (fst (time_Now env w)) (Timestamp e) \<le> TTL e"
  shows "globalZoneCache st' (d_zone d) = Some e"
    and "GetRecords (d_zone d) \<notin> set (calls_of (new_events st st'))"
proof -
  from assms(1) obtain mk e1 e2 xs st1 d1 where
    1: "call_each env mk e1 e2 (xs :: string list) st = (None, st1)"
    and mk: "mk = (\<lambda>recordStr. AddRecord (recordType s) (d_zone d) (d_name d) recordStr None)"
    and 2: "Generic_Read env s d1 st1 = (None, d', st')" and z: "d_zone d1 = d_zone d"
    by (auto simp: Generic_Create_def Let_def SetResourceID_def simp del: call_each.simps
          split: prod.splits option.splits if_splits)
  from call_each_run [OF 1] obtain rs where
    rs: "events st1 = events st @ map (\<lambda>(x, r). Called (mk x) r) (zip xs rs)"
    and same: "globalZoneCache st1 = globalZoneCache st"
    by blast
  have c: "globalZoneCache st1 (d_zone d) = Some e"
    using same assms(2) by simp
  have h: "GetRecordsWithCache env (d_zone d) st1
             = (Inr (Data e), st1\<lparr>world := snd (time_Now env (world st1))\<rparr>)"
    using c assms(3) by (intro GetRecordsWithCache_hit) simp_all
  have st': "st' = st1\<lparr>world := snd (time_Now env (world st1))\<rparr>"
    using 2 h z by (auto simp: Generic_Read_def Let_def split: sum.splits if_splits)
  show "globalZoneCache st' (d_zone d) = Some e" using c st' by simp
  have "calls_of (map (\<lambda>(x, r). Called (mk x) r) ps) = map (\<lambda>(x, r). mk x) ps" for ps
    by (induction ps) auto
  then have "calls_of (new_events st st') = map (\<lambda>(x, r). mk x) (zip xs rs)"
    using rs st' by (simp add: new_events_def)
  then show "GetRecords (d_zone d) \<notin> set (calls_of (new_events st st'))"
    by (auto simp: mk)
qed

text \<open>
  Claim C3.  The claim fails on \<open>Create\<close> of the generic strategy.  The cache holds a
  listing of \<open>example.com\<close> that was read ten seconds ago and has no A record for
  \<open>www\<close>; the provider accepts the new record and would list it.  \<open>Create\<close> adds the
  record and returns nil with the old entry still in the cache; its read was answered
  from that entry, found no record and cleared the identifier.  From an empty cache the
  same \<open>Create\<close> asks the provider, finds the record and keeps the identifier
  \<open>example.com/www\<close>.  \<open>Create\<close> of the MX strategy, started from the same cache,
  returns with the entry of the zone removed.
\<close>

theorem C3_Create_returns_without_invalidating:
  "Generic_Create
     (example_env (\<lambda>c. case c of GetRecords zone \<Rightarrow> Body ''new zone'' | _ \<Rightarrow> Body ''success'')
        (\<lambda>b. Inr \<lparr>zr_Result = ''success'',
                 zr_Domains = [\<lparr>zd_Dname = ''example.com'',
                                 zd_Rrs = (if b = ''new zone''
                                           then [example_rr ''www'' ''A'' ''1.1.1.1'']
                                           else [])\<rparr>]\<rparr>))
     NewARecordStrategy
     \<lparr>d_Id = [], d_zone = ''example.com'', d_name = ''www'', d_new = [''1.1.1.1''], d_old = []\<rparr>
     (example_client (10 * Second) (ZoneCache_Set 0 NewZoneCache ''example.com'' ''old zone''))
   = (None,
      \<lparr>d_Id = [], d_zone = ''example.com'', d_name = ''www'', d_new = [''1.1.1.1''], d_old = []\<rparr>,
      \<lparr>world = 10 * Second,
       globalZoneCache = ZoneCache_Set 0 NewZoneCache ''example.com'' ''old zone'',
       events = [Called (AddRecord ''A'' ''example.com'' ''www'' ''1.1.1.1'' None)
                   (Inr ''success'')]\<rparr>)
   \<and> ZoneCache_Set 0 NewZoneCache ''example.com'' ''old zone'' ''example.com''
       = Some \<lparr>Data = ''old zone'', Timestamp = 0, TTL = 30 * Second\<rparr>
   \<and> Generic_Create
        (example_env (\<lambda>c. case c of GetRecords zone \<Rightarrow> Body ''new zone'' | _ \<Rightarrow> Body ''success'')
           (\<lambda>b. Inr \<lparr>zr_Result = ''success'',
                    zr_Domains = [\<lparr>zd_Dname = ''example.com'',
                                    zd_Rrs = (if b = ''new zone''
                                              then [example_rr ''www'' ''A'' ''1.1.1.1'']
                                              else [])\<rparr>]\<rparr>))
        NewARecordStrategy
        \<lparr>d_Id = [], d_zone = ''example.com'', d_name = ''www'', d_new = [''1.1.1.1''], d_old = []\<rparr>
        (example_client (10 * Second) NewZoneCache)
      = (None,
         \<lparr>d_Id = ''example.com/www'', d_zone = ''example.com'', d_name = ''www'',
           d_new = [''1.1.1.1''], d_old = []\<rparr>,
         \<lparr>world = 10 * Second,
          globalZoneCache = ZoneCache_Set (10 * Second) NewZoneCache ''example.com'' ''new zone'',
          events = [Called (AddRecord ''A'' ''example.com'' ''www'' ''1.1.1.1'' None)
                      (Inr ''success''),
                    Called (GetRecords ''example.com'') (Inr ''new zone'')]\<rparr>)
   \<and> MX_Create
        (example_env (\<lambda>c. case c of GetRecords zone \<Rightarrow> Body ''new zone'' | _ \<Rightarrow> Body ''success'')
           (\<lambda>b. Inr \<lparr>zr_Result = ''success'', zr_Domains = []\<rparr>))
        \<lparr>d_Id = [], d_zone = ''example.com'', d_name = ''@'',
          d_new = [\<lparr>priority = 10, servers = [''mx.example.com'']\<rparr>], d_old = []\<rparr>
        (example_client (10 * Second) (ZoneCache_Set 0 NewZoneCache ''example.com'' ''old zone''))
      = (None,
         \<lparr>d_Id = ''example.com/@'', d_zone = ''example.com'', d_name = ''@'',
           d_new = [\<lparr>priority = 10, servers = [''mx.example.com'']\<rparr>], d_old = []\<rparr>,
         \<lparr>world = 10 * Second,
          globalZoneCache = NewZoneCache,
          events = [Called (AddRecord ''MX'' ''example.com'' ''@'' ''mx.example.com.'' (Some 10))
                      (Inr ''success''),
                    Invalidated ''example.com'']\<rparr>)"
  by (simp add: Generic_Create_def Generic_Read_def MX_Create_def NewARecordStrategy_def
        NewGenericRecordStrategy_def NoOpPreprocessor_def DefaultRecordValidator_def
        SetResourceID_def GetRecordsWithCache_def ZoneCache_Get_def ZoneCache_Set_def
        ZoneCache_Invalidate_def InvalidateZoneCache_def AddTrailingDot_def HasSuffix_def
        NewZoneCache_def example_client_def example_env_def example_rr_def doRequest_def
        direct_error_def response_error_def CheckAPIResponseForErrors_def all_rrs_def Sub_def
        Second_def Let_def)

section \<open>Provider errors on removal\<close>

text \<open>
  The client turns the provider's error document into an error, whether the document
  is the whole answer or an entry of \<open>answer.domains\<close>, and the code
  \<open>RECORD_NOT_FOUND\<close> has a text of its own.
\<close>

lemma doRequest_record_not_found:
  assumes "http_PostForm env (world st) c = (Body body, w)"
    and "unmarshal_APIError env body = Inr e"
    and "ae_Result e = ''error''" and "ae_ErrorCode e = ''RECORD_NOT_FOUND''"
  shows "fst (doRequest env c st)
           = Inl ''DNS record not found: The specified DNS record does not exist.''"
  using assms
  by (simp add: doRequest_def direct_error_def formatHumanReadableError_def Let_def)

lemma doRequest_domain_record_not_found:
  assumes "http_PostForm env (world st) c = (Body body, w)"
    and "direct_error env body = None"
    and "unmarshal_APIResponse env body = Inr r" and "ar_Result r \<noteq> ''error''"
    and "ar_Domains r = [e]"
    and "ae_Result e = ''error''" and "ae_ErrorCode e = ''RECORD_NOT_FOUND''"
  shows "fst (doRequest env c st)
           = Inl ''DNS record not found: The specified DNS record does not exist.''"
  using assms
  by (simp add: doRequest_def response_error_def formatHumanReadableError_def Let_def)

text \<open>\<open>Delete\<close> of the generic strategy returns the first error of the client,
  wrapped, and stops there.\<close>

lemma Generic_Delete_returns_the_error:
  assumes "d_new d = r # rs"
    and "doRequest env (RemoveRecord (d_zone d) (d_name d) (recordType s) (preprocessor s r) None) st
           = (Inl err, st1)"
  shows "Generic_Delete env s d st
           = (Some (''failed to delete '' @ recordType s @ '' record '' @ preprocessor s r
                      @ '': '' @ err), d, st1)"
  using assms by (simp add: Generic_Delete_def Let_def)

text \<open>
  The delete of the deprecated resource is the one place that compares the error with
  \<open>RR_NOT_FOUND\<close>, under the comment that the error is ignored because the record may
  be deleted already.  Its client hands every body back unchecked, so whatever document
  the provider answers with, the deprecated delete returns nil, and the comparison with
  \<open>RR_NOT_FOUND\<close> can only meet a transport error, which starts with \<open>failed to\<close>.
\<close>

lemma resourceDnsRecordDelete_ignores_the_body:
  assumes "http_PostForm env (world st) 
             (RemoveRecord (l_zone d) (l_name d) (l_type d) (l_record d) (Some (legacy_priority d)))
           = (Body body, w)"
    and "l_type d \<noteq> ''MX''" and "l_type d \<noteq> ''NS''"
  shows "fst (resourceDnsRecordDelete env d st) = None"
  using assms by (simp add: resourceDnsRecordDelete_def legacy_doRequest_def Let_def)

text \<open>
  Claim C4.  The claim fails on \<open>Delete\<close> of the generic strategy.  The resource has
  the A records \<open>1.1.1.1\<close> and \<open>2.2.2.2\<close>, and the provider answers every removal
  with its record-not-found error.  \<open>Delete\<close> returns the error of the first removal,
  wrapped; it does not try the second record and does not invalidate the cache.  This is
  so when the error document is the whole answer, when it is the entry of
  \<open>answer.domains\<close> in an answer whose overall result is not an error, and when the
  code is \<open>RR_NOT_FOUND\<close>, the name the deprecated delete compares with.
\<close>

theorem C4_Delete_returns_record_not_found:
  "Generic_Delete (example_env (\<lambda>c. Body ''RECORD_NOT_FOUND'') (\<lambda>b. Inl ''eof''))
     NewARecordStrategy
     \<lparr>d_Id = ''example.com/www'', d_zone = ''example.com'', d_name = ''www'',
       d_new = [''1.1.1.1'', ''2.2.2.2''], d_old = [''1.1.1.1'', ''2.2.2.2'']\<rparr>
     (example_client 0 NewZoneCache)
   = (Some (''failed to delete A record 1.1.1.1: ''
              @ ''DNS record not found: The specified DNS record does not exist.''),
      \<lparr>d_Id = ''example.com/www'', d_zone = ''example.com'', d_name = ''www'',
        d_new = [''1.1.1.1'', ''2.2.2.2''], d_old = [''1.1.1.1'', ''2.2.2.2'']\<rparr>,
      \<lparr>world = 0, globalZoneCache = NewZoneCache,
       events = [Called (RemoveRecord ''example.com'' ''www'' ''A'' ''1.1.1.1'' None)
                   (Inl ''DNS record not found: The specified DNS record does not exist.'')]\<rparr>)
   \<and> fst (Generic_Delete
            ((example_env (\<lambda>c. Body ''domain error'') (\<lambda>b. Inl ''eof''))
               \<lparr>unmarshal_APIError :=
                  (\<lambda>body. Inr \<lparr>ae_ErrorCode = [], ae_ErrorText = [], ae_ErrorParams = [],
                                ae_Result = ''success''\<rparr>),
                unmarshal_APIResponse :=
                  (\<lambda>body. Inr \<lparr>ar_Domains =
                                  [\<lparr>ae_ErrorCode = ''RECORD_NOT_FOUND'',
                                    ae_ErrorText = ''Resource record not found'',
                                    ae_ErrorParams = [], ae_Result = ''error''\<rparr>],
                                ar_Result = ''success''\<rparr>)\<rparr>)
            NewARecordStrategy
            \<lparr>d_Id = ''example.com/www'', d_zone = ''example.com'', d_name = ''www'',
              d_new = [''1.1.1.1'', ''2.2.2.2''], d_old = [''1.1.1.1'', ''2.2.2.2'']\<rparr>
            (example_client 0 NewZoneCache))
       = Some (''failed to delete A record 1.1.1.1: ''
                 @ ''DNS record not found: The specified DNS record does not exist.'')
   \<and> fst (Generic_Delete
            ((example_env (\<lambda>c. Body ''domain error'') (\<lambda>b. Inl ''eof''))
               \<lparr>unmarshal_APIError :=
                  (\<lambda>body. Inr \<lparr>ae_ErrorCode = [], ae_ErrorText = [], ae_ErrorParams = [],
                                ae_Result = ''success''\<rparr>),
                unmarshal_APIResponse :=
                  (\<lambda>body. Inr \<lparr>ar_Domains =
                                  [\<lparr>ae_ErrorCode = ''RR_NOT_FOUND'',
                                    ae_ErrorText = ''Resource record not found'',
                                    ae_ErrorParams = [], ae_Result = ''error''\<rparr>],
                                ar_Result = ''success''\<rparr>)\<rparr>)
            NewARecordStrategy
            \<lparr>d_Id = ''example.com/www'', d_zone = ''example.com'', d_name = ''www'',
              d_new = [''1.1.1.1'', ''2.2.2.2''], d_old = [''1.1.1.1'', ''2.2.2.2'']\<rparr>
            (example_client 0 NewZoneCache))
       = Some (''failed to delete A record 1.1.1.1: ''
                 @ ''API Error: Resource record not found (Code: RR_NOT_FOUND)'')"
  by (simp add: Generic_Delete_def NewARecordStrategy_def NewGenericRecordStrategy_def
        NoOpPreprocessor_def example_env_def example_client_def doRequest_def direct_error_def
        response_error_def formatHumanReadableError_def NewZoneCache_def Let_def)

section \<open>The identifier a successful Create leaves\<close>

text \<open>The MX, NS and CNAME strategies set \<open>zone/name\<close> and return.\<close>

lemma MX_Create_identifier:
  "MX_Create env d st = (None, d', st') \<Longrightarrow> d_Id d' = d_zone d @ ''/'' @ d_name d"
  by (auto simp: MX_Create_def SetResourceID_def Let_def simp del: call_each.simps
        split: prod.splits option.splits)

lemma NS_Create_identifier:
  "NS_Create env d st = (None, d', st') \<Longrightarrow> d_Id d' = d_zone d @ ''/'' @ d_name d"
  by (auto simp: NS_Create_def SetResourceID_def Let_def simp del: call_each.simps
        split: prod.splits option.splits)

lemma CNAME_Create_identifier:
  "CNAME_Create env d st = (None, d', st') \<Longrightarrow> d_Id d' = d_zone d @ ''/'' @ d_name d"
  by (auto simp: CNAME_Create_def SetResourceID_def Let_def simp del: call_each.simps
        split: prod.splits option.splits)

text \<open>The generic and SRV strategies set \<open>zone/name\<close> and then read; the read
  clears the identifier when it finds no record of the name.\<close>

lemma Generic_Create_identifier:
  "Generic_Create env s d st = (None, d', st') \<Longrightarrow>
     d_Id d' = d_zone d @ ''/'' @ d_name d \<or> d_Id d' = []"
  by (auto simp: Generic_Create_def Generic_Read_def SetResourceID_def Let_def
        simp del: call_each.simps split: prod.splits option.splits sum.splits if_splits)

lemma SRV_Create_identifier:
  "SRV_Create env d st = (None, d', st') \<Longrightarrow>
     d_Id d' = d_zone d @ ''/'' @ d_name d \<or> d_Id d' = []"
  by (auto simp: SRV_Create_def SRV_Read_def SetResourceID_def Let_def
        simp del: call_each.simps split: prod.splits option.splits sum.splits if_splits)

text \<open>The CAA strategy sets the three-part form, as the deprecated resource does.\<close>

lemma CAA_Create_identifier:
  "CAA_Create env d st = (None, d', st') \<Longrightarrow>
     d_Id d' = d_zone d @ ''/'' @ d_name d @ ''/CAA'' \<or> d_Id d' = []"
  by (auto simp: CAA_Create_def CAA_Read_def Let_def
        simp del: call_each.simps split: prod.splits option.splits sum.splits if_splits)

lemma resourceDnsRecordCreate_identifier:
  "resourceDnsRecordCreate env d st = (None, d', st') \<Longrightarrow>
     l_Id d' = l_zone d @ ''/'' @ l_name d @ ''/'' @ l_type d"
  by (auto simp: resourceDnsRecordCreate_def Let_def split: prod.splits sum.splits)

text \<open>
  Claim C5.  The claim holds for A, AAAA, TXT, CNAME, MX, NS and SRV and fails for CAA:
  creating the CAA record \<open>0 issue letsencrypt.org\<close> at \<open>@\<close> of \<open>example.com\<close>,
  with a provider that accepts the call and then lists the record, returns nil and
  leaves the identifier \<open>example.com/@/CAA\<close>, which \<open>Import\<close> of the same strategy
  rejects.
\<close>

theorem C5_CAA_Create_three_part_identifier:
  "fst (CAA_Create
          (example_env (\<lambda>c. Body ''success'')
             (\<lambda>b. Inr \<lparr>zr_Result = ''success'',
                      zr_Domains = [\<lparr>zd_Dname = ''example.com'',
                                      zd_Rrs = [\<lparr>rr_Subname = ''@'', rr_Rectype = ''CAA'',
                                                 rr_Content = ''letsencrypt.org'', rr_Prio = 0,
                                                 rr_State = ''A'', rr_Weight = 0, rr_Port = 0,
                                                 rr_Flag = 0, rr_Tag = ''issue''\<rparr>]\<rparr>]\<rparr>))
          \<lparr>d_Id = [], d_zone = ''example.com'', d_name = ''@'',
            d_new = [\<lparr>caa_Flag = 0, caa_Tag = ''issue'', caa_Value = ''letsencrypt.org''\<rparr>],
            d_old = []\<rparr>
          (example_client 0 NewZoneCache)) = None
   \<and> d_Id (fst (snd (CAA_Create
          (example_env (\<lambda>c. Body ''success'')
             (\<lambda>b. Inr \<lparr>zr_Result = ''success'',
                      zr_Domains = [\<lparr>zd_Dname = ''example.com'',
                                      zd_Rrs = [\<lparr>rr_Subname = ''@'', rr_Rectype = ''CAA'',
                                                 rr_Content = ''letsencrypt.org'', rr_Prio = 0,
                                                 rr_State = ''A'', rr_Weight = 0, rr_Port = 0,
                                                 rr_Flag = 0, rr_Tag = ''issue''\<rparr>]\<rparr>]\<rparr>))
          \<lparr>d_Id = [], d_zone = ''example.com'', d_name = ''@'',
            d_new = [\<lparr>caa_Flag = 0, caa_Tag = ''issue'', caa_Value = ''letsencrypt.org''\<rparr>],
            d_old = []\<rparr>
          (example_client 0 NewZoneCache)))) = ''example.com/@/CAA''
   \<and> ParseResourceID ''example.com/@/CAA''
       = Inl ''invalid resource ID format: example.com/@/CAA''"
  by code_simp

section \<open>CAA rows without structured fields\<close>








end
